(* ===== verification/Prelude.thy ===== *)
theory Prelude
  imports Main "HOL-Library.Word" "HOL-Library.Multiset" "HOL-Library.Monad_Syntax"
begin

text \<open>
  The vocabulary the other theories share: Go's machine integers as words, the option monad
  as the result of code that may panic (\<open>None\<close> is a panic: the process dies), a generic
  reachability predicate with its invariant rule, the collections of facts the component
  proofs rewrite with, and a few lemmas on words, lists and maps.
\<close>

unbundle bit_operations_syntax

section \<open>Go's integers, strings and byte slices\<close>

type_synonym u32 = "32 word"
type_synonym u64 = "64 word"

text \<open>Go's \<open>int\<close> on a 64-bit platform: two's complement, read with \<open>sint\<close>.\<close>

type_synonym goint = "64 word"
type_synonym byte = "8 word"
type_synonym bytes = "8 word list"

text \<open>
  Code that may panic returns \<open>Some\<close> of its result or \<open>None\<close> for the panic. An error that
  the code returns as a value is a different thing: it is an \<open>err option\<close> (Go's \<open>nil\<close> error
  is \<open>None\<close>) or the left side of a sum.
\<close>

type_synonym 'a may_panic = "'a option"

section \<open>Collections of facts\<close>

named_theorems frame_simps "which part of the state an operation leaves alone"
named_theorems wf_intros "operations keep the well-formedness of the state"
named_theorems grows_intros "operations only extend the context store"

section \<open>Reachable states and invariants\<close>

text \<open>
  The states a component can be in: the least set that holds the initial states and is closed
  under its steps.
\<close>

inductive reach :: "('s \<Rightarrow> bool) \<Rightarrow> ('s \<Rightarrow> 's \<Rightarrow> bool) \<Rightarrow> 's \<Rightarrow> bool"
  for init :: "'s \<Rightarrow> bool" and step :: "'s \<Rightarrow> 's \<Rightarrow> bool" where
  reach_start: "init s \<Longrightarrow> reach init step s"
| reach_next: "reach init step s \<Longrightarrow> step s t \<Longrightarrow> reach init step t"

text \<open>The contract of an inductive invariant, and what a client may conclude from it.\<close>

locale inductive_invariant =
  fixes init :: "'s \<Rightarrow> bool" and step :: "'s \<Rightarrow> 's \<Rightarrow> bool" and inv :: "'s \<Rightarrow> bool"
  assumes holds_at_start: "init s \<Longrightarrow> inv s"
    and kept_by_steps: "inv s \<Longrightarrow> step s t \<Longrightarrow> inv t"
begin

lemma holds_when_reached: "reach init step s \<Longrightarrow> inv s"
  by (induction rule: reach.induct) (auto intro: holds_at_start kept_by_steps)

lemma kept_by_runs: "step\<^sup>*\<^sup>* s t \<Longrightarrow> inv s \<Longrightarrow> inv t"
  by (induction rule: rtranclp_induct) (auto intro: kept_by_steps)

end

text \<open>
  The contract of a refinement: an abstraction maps initial states to initial states of the
  specification and every step, from a state with the invariant, to steps of the specification.
\<close>

locale simulation = inductive_invariant init step inv
  for init :: "'s \<Rightarrow> bool" and step :: "'s \<Rightarrow> 's \<Rightarrow> bool" and inv :: "'s \<Rightarrow> bool" +
  fixes spec_init :: "'a \<Rightarrow> bool" and spec_step :: "'a \<Rightarrow> 'a \<Rightarrow> bool" and abs_of :: "'s \<Rightarrow> 'a"
  assumes abs_init: "init s \<Longrightarrow> spec_init (abs_of s)"
    and abs_step: "inv s \<Longrightarrow> step s t \<Longrightarrow> spec_step\<^sup>*\<^sup>* (abs_of s) (abs_of t)"
begin

lemma reached_spec: "reach spec_init spec_step a \<Longrightarrow> spec_step\<^sup>*\<^sup>* a b \<Longrightarrow> reach spec_init spec_step b"
  by (rotate_tac, induction rule: rtranclp_induct) (auto intro: reach_next)

lemma reached_abs: "reach init step s \<Longrightarrow> reach spec_init spec_step (abs_of s)"
  by (induction rule: reach.induct)
    (auto intro: reach_start abs_init reached_spec abs_step holds_when_reached)

end

section \<open>Words\<close>

text \<open>A single-bit mask tests one bit; all flag and permission checks are of this form.\<close>

lemma and_mask_nonzero: "(w :: 'a :: len word) AND 2 ^ n \<noteq> 0 \<longleftrightarrow> bit w n"
  by (simp add: and_exp_eq_0_iff_not_bit)

lemma bit_1_word [simp]: "bit (1 :: 'a :: len word) n \<longleftrightarrow> n = 0"
  by (simp add: bit_1_iff)

lemma bit_exp_word: "bit (2 ^ m :: 'a :: len word) n \<longleftrightarrow> n < LENGTH('a) \<and> n = m"
  by (auto simp: bit_exp_iff)

lemma word_plus_1_neq: "(w :: 'a :: len word) + 1 \<noteq> w"
  by simp

lemma unat_plus_1_no_wrap: "(w :: 'a :: len word) \<noteq> - 1 \<Longrightarrow> unat (w + 1) = Suc (unat w)"
  by (metis add.commute add.right_inverse add_diff_cancel_left' unatSuc)

lemma u64_bound: "unat (w :: u64) < 2 ^ 64"
  using unsigned_less [of w] by simp

lemma u64_of_nat: "m < 2 ^ 64 \<Longrightarrow> unat (of_nat m :: u64) = m"
  by (simp add: unat_of_nat take_bit_nat_eq_self)

lemma u64_add_nat: "unat (w + of_nat n :: u64) = (unat w + n) mod 2 ^ 64"
  by (simp add: unat_word_ariths unat_of_nat take_bit_eq_mod mod_simps)

text \<open>Overflow of an addition shows as a smaller sum.\<close>

lemma sum_mod_less_iff: "(a :: nat) < N \<Longrightarrow> d < N \<Longrightarrow> (a + d) mod N < a \<longleftrightarrow> N \<le> a + d"
  by (cases "a + d < N") (auto simp: le_mod_geq)

section \<open>Lists and maps\<close>

lemma map_le_nth_update [simp]:
  "j < length xs \<Longrightarrow> (xs[i := x]) ! j = (if i = j then x else xs ! j)"
  by (cases "i < length xs") (auto simp: nth_list_update list_update_beyond)

lemma card_dom_insert:
  "finite (dom m) \<Longrightarrow> m k = None \<Longrightarrow> card (dom (m(k \<mapsto> v))) = Suc (card (dom m))"
  by (simp add: card_insert_disjoint domIff)

lemma card_dom_delete:
  "finite (dom m) \<Longrightarrow> m k = Some v \<Longrightarrow> Suc (card (dom (m(k := None)))) = card (dom m)"
  by (simp add: card_Diff_singleton domI) (metis card_gt_0_iff domI empty_iff Suc_pred)

lemma mset_butlast: "xs \<noteq> [] \<Longrightarrow> mset xs = add_mset (last xs) (mset (butlast xs))"
  by (cases xs rule: rev_cases) auto

lemma restrict_insert: "m |` (- insert k A) = (m(k := None)) |` (- A)"
  by (auto simp: restrict_map_def fun_eq_iff)

lemma sum_list_update_nat:
  "i < length xs \<Longrightarrow> f x = f (xs ! i) + (d :: nat) \<Longrightarrow>
   (\<Sum>y\<leftarrow>xs[i := x]. f y) = (\<Sum>y\<leftarrow>xs. f y) + d"
  by (induction xs arbitrary: i) (auto split: nat.splits)

end
