(* ===== verification/GoContext.thy ===== *)
theory GoContext
  imports Prelude
begin

text \<open>
  Go's error values and the part of the standard library's \<open>context\<close> package that the program
  relies on: trees of contexts, cancellation with a cause, \<open>Err\<close> and \<open>Cause\<close>. Every
  component of the program talks to the others through contexts, so this is the shared state
  of the whole model. The laws a client may use are the locale \<open>cancellation\<close>, interpreted
  on the store defined here.
\<close>

section \<open>Errors\<close>

text \<open>
  The sentinels of \<open>handler/errors.go\<close>, the sentinels of the standard library the code
  compares with, and the shapes in which the code builds new errors: \<open>errors.New\<close>,
  \<open>fmt.Errorf\<close> with \<open>%v\<close> (which does not keep the inner error for \<open>errors.Is\<close>),
  \<open>fmt.Errorf\<close> with \<open>%w\<close> (which does; code outside the repository may use it) and a
  \<open>net.Error\<close> with its \<open>Timeout()\<close>.
\<close>

datatype err =
    ErrSpawnerClosedOk
  | ErrProxyClosedOk
  | ErrProxyMaxRetries
  | ErrProxyRetry
  | Canceled
  | DeadlineExceeded
  | IoEOF
  | ErrNew string
  | ErrorfV string err
  | ErrorfW string err
  | NetError bool string

fun err_Unwrap :: "err \<Rightarrow> err option" where
  "err_Unwrap (ErrorfW s e) = Some e"
| "err_Unwrap _ = None"

text \<open>\<open>err.Error()\<close>; the constructors of formatted errors carry the text before the inner error.\<close>

fun err_Error :: "err \<Rightarrow> string" where
  "err_Error ErrSpawnerClosedOk = ''spawner closed''"
| "err_Error ErrProxyClosedOk = ''proxy closed''"
| "err_Error ErrProxyMaxRetries = ''proxy retrying max number of times''"
| "err_Error ErrProxyRetry = ''proxy closed retrying''"
| "err_Error Canceled = ''context canceled''"
| "err_Error DeadlineExceeded = ''context deadline exceeded''"
| "err_Error IoEOF = ''EOF''"
| "err_Error (ErrNew s) = s"
| "err_Error (ErrorfV s e) = s @ err_Error e"
| "err_Error (ErrorfW s e) = s @ err_Error e"
| "err_Error (NetError b s) = s"

text \<open>\<open>errors.Is\<close> follows the chain of \<open>Unwrap\<close>.\<close>

fun errors_Is :: "err \<Rightarrow> err \<Rightarrow> bool" where
  "errors_Is (ErrorfW s e) target = (ErrorfW s e = target \<or> errors_Is e target)"
| "errors_Is e target = (e = target)"

lemma errors_Is_refl [simp]: "errors_Is e e"
  by (cases e) auto

section \<open>The store of contexts\<close>

text \<open>
  A context is a node of a tree; \<open>None\<close> as parent is \<open>context.Background()\<close>. A node is
  cancelled when it has a cause. Contexts are numbered in the order of their creation, so a
  parent has a smaller number than its children.
\<close>

record ctx_node =
  ctx_parent :: "nat option"
  ctx_cause :: "err option"

type_synonym ctxs = "ctx_node list"

text \<open>\<open>context.Cause(c)\<close> and \<open>c.Err()\<close>; without deadlines \<open>Err\<close> is \<open>Canceled\<close> or nil.\<close>

definition Cause :: "ctxs \<Rightarrow> nat \<Rightarrow> err option" where
  "Cause \<sigma> c = (if c < length \<sigma> then ctx_cause (\<sigma> ! c) else None)"

definition ctx_Err :: "ctxs \<Rightarrow> nat \<Rightarrow> err option" where
  "ctx_Err \<sigma> c = (case Cause \<sigma> c of None \<Rightarrow> None | Some _ \<Rightarrow> Some Canceled)"

text \<open>
  \<open>context.WithCancelCause(parent)\<close>: a new node. If the parent is already cancelled the child
  is cancelled at once, with the parent's cause.
\<close>

definition WithCancelCause :: "nat option \<Rightarrow> ctxs \<Rightarrow> nat \<times> ctxs" where
  "WithCancelCause parent \<sigma> =
     (length \<sigma>,
      \<sigma> @ [\<lparr>ctx_parent = parent,
            ctx_cause = (case parent of None \<Rightarrow> None | Some p \<Rightarrow> Cause \<sigma> p)\<rparr>])"

text \<open>\<open>ctx_under \<sigma> c i\<close>: node \<open>i\<close> is \<open>c\<close> or a descendant of \<open>c\<close>.\<close>

function ctx_under :: "ctxs \<Rightarrow> nat \<Rightarrow> nat \<Rightarrow> bool" where
  "ctx_under \<sigma> c i =
     (i = c \<or>
      (case (if i < length \<sigma> then ctx_parent (\<sigma> ! i) else None) of
         None \<Rightarrow> False
       | Some p \<Rightarrow> if p < i then ctx_under \<sigma> c p else False))"
  by pat_completeness auto
termination
  by (relation "measure (\<lambda>(\<sigma>, c, i). i)") auto

declare ctx_under.simps [simp del]

text \<open>
  Calling the cancel function of node \<open>c\<close> with cause \<open>e\<close>: nothing if \<open>c\<close> is already
  cancelled, otherwise \<open>c\<close> and every descendant that is still alive get the cause.
  \<open>cancel(nil)\<close> and the cancel function of \<open>context.WithCancel\<close> set the cause \<open>Canceled\<close>.
\<close>

definition cancel_node :: "err \<Rightarrow> bool \<Rightarrow> ctx_node \<Rightarrow> ctx_node" where
  "cancel_node e hit n =
     (if hit \<and> ctx_cause n = None then n\<lparr>ctx_cause := Some e\<rparr> else n)"

definition cancel_cause :: "nat \<Rightarrow> err option \<Rightarrow> ctxs \<Rightarrow> ctxs" where
  "cancel_cause c e \<sigma> =
     (if c < length \<sigma> \<and> Cause \<sigma> c = None
      then map (\<lambda>i. cancel_node (case e of None \<Rightarrow> Canceled | Some x \<Rightarrow> x)
                       (ctx_under \<sigma> c i) (\<sigma> ! i)) [0..<length \<sigma>]
      else \<sigma>)"

definition cancel_ctx :: "nat \<Rightarrow> ctxs \<Rightarrow> ctxs" where
  "cancel_ctx c \<sigma> = cancel_cause c None \<sigma>"

section \<open>Well-formed stores, and stores that only grow\<close>

text \<open>
  Parents come first, and a node with a cancelled parent is cancelled: cancellation has
  reached everything it must reach.
\<close>

definition ctx_wf :: "ctxs \<Rightarrow> bool" where
  "ctx_wf \<sigma> \<longleftrightarrow>
     (\<forall>i < length \<sigma>. \<forall>p. ctx_parent (\<sigma> ! i) = Some p \<longrightarrow>
        p < i \<and> (Cause \<sigma> p \<noteq> None \<longrightarrow> Cause \<sigma> i \<noteq> None))"

text \<open>
  \<open>ctx_le \<sigma> \<tau>\<close>: \<open>\<tau>\<close> is a later state of \<open>\<sigma>\<close>. Contexts are never removed, never change
  parent, and a cause once set stays.
\<close>

definition ctx_le :: "ctxs \<Rightarrow> ctxs \<Rightarrow> bool" where
  "ctx_le \<sigma> \<tau> \<longleftrightarrow>
     length \<sigma> \<le> length \<tau> \<and>
     (\<forall>i < length \<sigma>. ctx_parent (\<tau> ! i) = ctx_parent (\<sigma> ! i) \<and>
        (\<forall>e. Cause \<sigma> i = Some e \<longrightarrow> Cause \<tau> i = Some e))"

lemma ctx_le_refl [simp]: "ctx_le \<sigma> \<sigma>"
  by (simp add: ctx_le_def)

lemma ctx_le_trans: "ctx_le \<sigma> \<tau> \<Longrightarrow> ctx_le \<tau> \<rho> \<Longrightarrow> ctx_le \<sigma> \<rho>"
  by (auto simp: ctx_le_def)

lemma ctx_le_length: "ctx_le \<sigma> \<tau> \<Longrightarrow> c < length \<sigma> \<Longrightarrow> c < length \<tau>"
  by (auto simp: ctx_le_def)

lemma ctx_le_Cause: "ctx_le \<sigma> \<tau> \<Longrightarrow> Cause \<sigma> c = Some e \<Longrightarrow> Cause \<tau> c = Some e"
  by (auto simp: ctx_le_def Cause_def split: if_splits)

lemma ctx_Err_iff: "ctx_Err \<sigma> c \<noteq> None \<longleftrightarrow> Cause \<sigma> c \<noteq> None"
  by (auto simp: ctx_Err_def split: option.splits)

lemma ctx_Err_None_iff [simp]: "ctx_Err \<sigma> c = None \<longleftrightarrow> Cause \<sigma> c = None"
  by (auto simp: ctx_Err_def split: option.splits)

lemma ctx_le_dead: "ctx_le \<sigma> \<tau> \<Longrightarrow> Cause \<sigma> c \<noteq> None \<Longrightarrow> Cause \<tau> c \<noteq> None"
  by (auto dest: ctx_le_Cause)

lemma Cause_length: "Cause \<sigma> c = Some e \<Longrightarrow> c < length \<sigma>"
  by (auto simp: Cause_def split: if_splits)

lemma length_cancel_cause [simp]: "length (cancel_cause c e \<sigma>) = length \<sigma>"
  by (simp add: cancel_cause_def)

lemma parent_cancel_cause [simp]:
  "i < length \<sigma> \<Longrightarrow> ctx_parent (cancel_cause c e \<sigma> ! i) = ctx_parent (\<sigma> ! i)"
  by (simp add: cancel_cause_def cancel_node_def)

lemma Cause_cancel_cause:
  "Cause (cancel_cause c e \<sigma>) i =
     (case Cause \<sigma> i of
        Some x \<Rightarrow> Some x
      | None \<Rightarrow> if i < length \<sigma> \<and> c < length \<sigma> \<and> Cause \<sigma> c = None \<and> ctx_under \<sigma> c i
                then Some (case e of None \<Rightarrow> Canceled | Some x \<Rightarrow> x) else None)"
  by (auto simp: cancel_cause_def Cause_def cancel_node_def split: option.splits)

lemma ctx_under_refl [simp]: "ctx_under \<sigma> c c"
  by (simp add: ctx_under.simps [of \<sigma> c c])

lemma ctx_under_parent:
  "i < length \<sigma> \<Longrightarrow> ctx_parent (\<sigma> ! i) = Some p \<Longrightarrow> p < i \<Longrightarrow> ctx_under \<sigma> c p \<Longrightarrow> ctx_under \<sigma> c i"
  by (subst ctx_under.simps) simp

lemma ctx_underE:
  assumes "ctx_under \<sigma> c i"
  obtains "i = c"
  | p where "i < length \<sigma>" "ctx_parent (\<sigma> ! i) = Some p" "p < i" "ctx_under \<sigma> c p"
proof (cases "i = c")
  case False
  have "case (if i < length \<sigma> then ctx_parent (\<sigma> ! i) else None) of None \<Rightarrow> False
      | Some p \<Rightarrow> if p < i then ctx_under \<sigma> c p else False"
    using assms False by (simp add: ctx_under.simps [of \<sigma> c i])
  then show ?thesis using that(2) by (simp split: option.splits if_splits)
qed (use that(1) in simp)

lemma ctx_under_induct [consumes 1, case_names self child]:
  assumes "ctx_under \<sigma> c i" and "P c"
    and "\<And>i p. i < length \<sigma> \<Longrightarrow> ctx_parent (\<sigma> ! i) = Some p \<Longrightarrow> p < i \<Longrightarrow>
           ctx_under \<sigma> c p \<Longrightarrow> P p \<Longrightarrow> P i"
  shows "P i"
  using assms(1)
proof (induction i rule: less_induct)
  case (less i)
  from less.prems show ?case
  proof (cases rule: ctx_underE)
    case 1
    then show ?thesis using assms(2) by simp
  next
    case (2 p)
    then show ?thesis using less.IH assms(3) by blast
  qed
qed

lemma ctx_under_le: "ctx_under \<sigma> c i \<Longrightarrow> c \<le> i"
  by (induction rule: ctx_under_induct) auto

text \<open>In a well-formed store a dead context has only dead descendants.\<close>

lemma ctx_under_dead:
  assumes "ctx_under \<sigma> c i" "ctx_wf \<sigma>" "Cause \<sigma> c \<noteq> None"
  shows "Cause \<sigma> i \<noteq> None"
  using assms(1)
proof (induction rule: ctx_under_induct)
  case (child i p)
  then show ?case using assms(2) by (auto simp: ctx_wf_def)
qed (use assms(3) in simp)

lemma ctx_under_mono:
  assumes "ctx_under \<sigma> c i" "ctx_le \<sigma> \<tau>"
  shows "ctx_under \<tau> c i"
  using assms(1)
proof (induction rule: ctx_under_induct)
  case (child i p)
  then have "i < length \<tau>" "ctx_parent (\<tau> ! i) = Some p"
    using assms(2) by (auto simp: ctx_le_def)
  with child show ?case by (metis ctx_under_parent)
qed simp

lemma WithCancelCause_le [grows_intros]: "WithCancelCause p \<sigma> = (c, \<tau>) \<Longrightarrow> ctx_le \<sigma> \<tau>"
  by (auto simp: WithCancelCause_def ctx_le_def nth_append Cause_def)

lemma cancel_cause_le [grows_intros, simp]: "ctx_le \<sigma> (cancel_cause c e \<sigma>)"
  by (auto simp: ctx_le_def Cause_cancel_cause)

lemma ctx_wf_Nil [simp]: "ctx_wf []"
  by (simp add: ctx_wf_def)

lemma Cause_append: "Cause (\<sigma> @ [n]) i = (if i = length \<sigma> then ctx_cause n else Cause \<sigma> i)"
  by (auto simp: Cause_def nth_append less_Suc_eq)

lemma WithCancelCause_wf [wf_intros]:
  assumes "WithCancelCause p \<sigma> = (c, \<tau>)" "ctx_wf \<sigma>" "\<And>q. p = Some q \<Longrightarrow> q < length \<sigma>"
  shows "ctx_wf \<tau>"
proof -
  let ?n = "\<lparr>ctx_parent = p, ctx_cause = (case p of None \<Rightarrow> None | Some p \<Rightarrow> Cause \<sigma> p)\<rparr>"
  from assms(1) have \<tau>: "\<tau> = \<sigma> @ [?n]" by (simp add: WithCancelCause_def)
  show ?thesis
    unfolding ctx_wf_def \<tau>
  proof (intro allI impI)
    fix i q
    assume i: "i < length (\<sigma> @ [?n])" and par: "ctx_parent ((\<sigma> @ [?n]) ! i) = Some q"
    show "q < i \<and> (Cause (\<sigma> @ [?n]) q \<noteq> None \<longrightarrow> Cause (\<sigma> @ [?n]) i \<noteq> None)"
    proof (cases "i = length \<sigma>")
      case True
      with par have "p = Some q" by simp
      with assms(3) True show ?thesis by (auto simp: Cause_append)
    next
      case False
      with i par have "i < length \<sigma>" "ctx_parent (\<sigma> ! i) = Some q" by (auto simp: nth_append)
      with assms(2) have "q < i" "Cause \<sigma> q \<noteq> None \<longrightarrow> Cause \<sigma> i \<noteq> None" by (auto simp: ctx_wf_def)
      with False \<open>i < length \<sigma>\<close> show ?thesis by (auto simp: Cause_append)
    qed
  qed
qed

lemma cancel_cause_wf [wf_intros]:
  assumes "ctx_wf \<sigma>"
  shows "ctx_wf (cancel_cause c e \<sigma>)"
  unfolding ctx_wf_def length_cancel_cause
proof (intro allI impI)
  fix i p
  assume i: "i < length \<sigma>" and "ctx_parent (cancel_cause c e \<sigma> ! i) = Some p"
  then have p: "ctx_parent (\<sigma> ! i) = Some p" by simp
  with assms i have le: "p < i" and dead: "Cause \<sigma> p \<noteq> None \<Longrightarrow> Cause \<sigma> i \<noteq> None"
    by (auto simp: ctx_wf_def)
  have "ctx_under \<sigma> c p \<Longrightarrow> ctx_under \<sigma> c i"
    using i p le by (rule ctx_under_parent)
  with le dead i show "p < i \<and> (Cause (cancel_cause c e \<sigma>) p \<noteq> None \<longrightarrow> Cause (cancel_cause c e \<sigma>) i \<noteq> None)"
    by (auto simp: Cause_cancel_cause split: option.splits)
qed

section \<open>The contract of contexts\<close>

text \<open>
  What the components use of contexts: creating a child, cancelling with a cause, and asking
  for the cause. \<open>ok\<close> is the well-formedness of the shared state, \<open>later\<close> its evolution.
\<close>

locale cancellation =
  fixes ok :: "'s \<Rightarrow> bool" and later :: "'s \<Rightarrow> 's \<Rightarrow> bool"
    and live :: "'s \<Rightarrow> nat \<Rightarrow> bool" and below :: "'s \<Rightarrow> nat \<Rightarrow> nat \<Rightarrow> bool"
    and cause :: "'s \<Rightarrow> nat \<Rightarrow> err option"
    and cancel :: "nat \<Rightarrow> err option \<Rightarrow> 's \<Rightarrow> 's"
  assumes later_refl: "later s s"
    and later_trans: "later s t \<Longrightarrow> later t u \<Longrightarrow> later s u"
    and later_live: "later s t \<Longrightarrow> live s c \<Longrightarrow> live t c"
    and later_below: "later s t \<Longrightarrow> below s c d \<Longrightarrow> below t c d"
    and cause_sticks: "later s t \<Longrightarrow> cause s c = Some e \<Longrightarrow> cause t c = Some e"
    and cancel_later: "later s (cancel c x s)"
    and cancel_ok: "ok s \<Longrightarrow> ok (cancel c x s)"
    and cancel_sets: "live s c \<Longrightarrow> cause s c = None \<Longrightarrow> cause (cancel c (Some e) s) c = Some e"
    and cause_reaches_below: "ok s \<Longrightarrow> below s c d \<Longrightarrow> cause s c \<noteq> None \<Longrightarrow> cause s d \<noteq> None"
begin

text \<open>A cancelled context is dead for ever after, and so is everything below it.\<close>

lemma cancelled_stays_dead:
  assumes "live s c" and "later (cancel c (Some e) s) t"
  shows "cause t c \<noteq> None"
proof (cases "cause s c")
  case None
  with assms show ?thesis using cancel_sets cause_sticks by fastforce
next
  case (Some x)
  then have "cause (cancel c (Some e) s) c = Some x" using cancel_later cause_sticks by blast
  with assms(2) show ?thesis using cause_sticks by fastforce
qed

lemma cancel_kills_below:
  assumes "ok s" "ok t" "live s c" "later (cancel c (Some e) s) t" "below t c d"
  shows "cause t d \<noteq> None"
  using assms cancelled_stays_dead cause_reaches_below by blast

text \<open>The first cause wins.\<close>

lemma first_cause_wins: "cause s c = Some e \<Longrightarrow> cause (cancel c' e' s) c = Some e"
  using cancel_later cause_sticks by blast

end

interpretation ctx: cancellation ctx_wf ctx_le "\<lambda>\<sigma> c. c < length \<sigma>" ctx_under Cause cancel_cause
  by unfold_locales
    (use ctx_le_trans ctx_le_length ctx_under_mono ctx_le_Cause ctx_under_dead in
      \<open>auto simp: cancel_cause_wf Cause_cancel_cause\<close>)

end
