(* ===== verification/Handler.thy ===== *)
theory Handler
  imports GoContext
begin

text \<open>
  The data of package \<open>handler\<close>: capture flags (\<open>flags.go\<close>), the interfaces
  (\<open>interfaces.go\<close>) as records of their methods, and the state of the spawner with
  everything that hangs off it: the contexts, the containers and the receive channels, which
  Go reaches through pointers and which are numbered here.

  Code outside the repository that the program calls (sockets behind an \<open>IProxy\<close>, filter and
  error callbacks) acts on the pair \<open>'e ext\<close> of the context store and a state \<open>'e\<close> of its own
  that is not looked into: it may cancel contexts and do input and output, nothing else.
\<close>

section \<open>Capture flags\<close>

type_synonym CapFlags = u32

definition CapFlag_ToServer :: CapFlags where "CapFlag_ToServer = push_bit 0 1"
definition CapFlag_Injected :: CapFlags where "CapFlag_Injected = push_bit 1 1"

definition IsServerbound :: "CapFlags \<Rightarrow> bool" where
  "IsServerbound c = (c AND CapFlag_ToServer \<noteq> 0)"

definition IsClientbound :: "CapFlags \<Rightarrow> bool" where
  "IsClientbound c = (c AND CapFlag_ToServer = 0)"

definition IsInjected :: "CapFlags \<Rightarrow> bool" where
  "IsInjected c = (c AND CapFlag_Injected \<noteq> 0)"

lemma IsServerbound_bit: "IsServerbound c = bit c 0"
  using and_mask_nonzero [of c 0] by (simp add: IsServerbound_def CapFlag_ToServer_def)

lemma IsInjected_bit: "IsInjected c = bit c 1"
  using and_mask_nonzero [of c 1] by (simp add: IsInjected_def CapFlag_Injected_def)

lemma IsClientbound_not: "IsClientbound c = (\<not> IsServerbound c)"
  by (simp add: IsClientbound_def IsServerbound_def)

lemma flag_reads [simp]:
  "IsServerbound CapFlag_ToServer" "\<not> IsInjected CapFlag_ToServer"
  "\<not> IsServerbound CapFlag_Injected" "IsInjected CapFlag_Injected"
  "\<not> IsServerbound 0" "\<not> IsInjected 0"
  "IsServerbound (CapFlag_ToServer OR CapFlag_Injected)"
  "IsInjected (CapFlag_ToServer OR CapFlag_Injected)"
  by (simp_all add: IsServerbound_def IsInjected_def CapFlag_ToServer_def CapFlag_Injected_def)

section \<open>Addresses and packets\<close>

text \<open>\<open>net.Addr\<close>: what its two methods return.\<close>

record addr =
  addr_Network :: string
  addr_String :: string

text \<open>\<open>ProxyPacketData\<close>: what a proxy implementation read from one of its sockets.\<close>

record ProxyPacketData =
  ppd_Serverbound :: bool
  ppd_Source :: addr
  ppd_Dest :: addr
  ppd_Data :: bytes

text \<open>\<open>PacketChanData\<close>: what a receive channel delivers.\<close>

record PacketChanData =
  pcd_Flags :: CapFlags
  pcd_Source :: addr
  pcd_Dest :: addr
  pcd_Data :: bytes
  pcd_ProxyId :: goint

section \<open>The interfaces\<close>

type_synonym 'e ext = "ctxs \<times> 'e"

text \<open>\<open>IProxy\<close>: \<open>Init\<close> gets the context (whose number also stands for its cancel function).\<close>

record 'e IProxy =
  px_Init :: "nat \<Rightarrow> 'e ext \<Rightarrow> err option \<times> 'e ext"
  px_SendToClient :: "bytes \<Rightarrow> 'e ext \<Rightarrow> err option \<times> 'e ext"
  px_SendToServer :: "bytes \<Rightarrow> 'e ext \<Rightarrow> err option \<times> 'e ext"
  px_GetClientAddr :: addr
  px_Network :: string

text \<open>What a callback can ask an \<open>IProxyContainer\<close> for: its constant attributes.\<close>

record pc_info =
  pi_GetId :: goint
  pi_Network :: string
  pi_GetClientAddr :: addr
  pi_GetServerAddr :: addr

type_synonym 'e PacketSendCallback =
  "bytes \<Rightarrow> CapFlags \<Rightarrow> pc_info \<Rightarrow> 'e ext \<Rightarrow> bool \<times> 'e ext"

type_synonym 'e ProxyErrorCallback =
  "err \<Rightarrow> pc_info option \<Rightarrow> 'e ext \<Rightarrow> 'e ext"

section \<open>State\<close>

text \<open>\<open>ProxyContainer\<close>; its context number also stands for \<open>ctxCancel\<close>.\<close>

record 'e ProxyContainer =
  pc_ctx :: nat
  pc_px :: "'e IProxy"
  pc_id :: goint
  pc_bytesSent :: u64
  pc_lastContactTime :: int

text \<open>
  \<open>rChan\<close> and its unbuffered channel: whether it is closed, how many readers are parked on it,
  and what they have been handed so far.
\<close>

record rChan =
  rc_ctx :: nat
  rc_closed :: bool
  rc_parked :: nat
  rc_got :: "PacketChanData list"

text \<open>The pruner goroutine.\<close>

datatype pruner_state = PrunerNotRun | PrunerLoops | PrunerReturned

text \<open>
  \<open>ProxySpawner\<close> (fields \<open>ps_\<close>) with the heap it points into (\<open>w_\<close>): the containers ever made,
  the receive channels ever made, the context store, the clock behind \<open>time.Now\<close>, and two
  facts about running goroutines (how many \<open>addListener\<close> calls are between their \<open>wg.Add\<close> and
  their \<open>wg.Done\<close>, and the pruner). \<open>ps_wg\<close> is the counter of the wait group. Go's map of
  connections is a map from ids to container numbers, its slice of channels a list of channel
  numbers.
\<close>

record 'e world =
  ps_currentId :: goint
  ps_connections :: "goint \<rightharpoonup> nat"
  ps_totalSent :: u64
  ps_serverAddr :: addr
  ps_proxyAddr :: addr
  ps_context :: nat
  ps_wg :: int
  ps_sendCallback :: "'e PacketSendCallback option"
  ps_errorCallback :: "'e ProxyErrorCallback option"
  ps_rcChan :: "nat list"
  ps_callbackCtx :: "nat option"
  ps_callbackCancel :: "nat option"
  w_ctxs :: ctxs
  w_env :: 'e
  w_pcs :: "'e ProxyContainer list"
  w_chans :: "rChan list"
  w_now :: int
  w_listeners :: nat
  w_pruner :: pruner_state

text \<open>Calling outside code, and cancelling a context, as operations of the whole state.\<close>

definition w_ext :: "'e world \<Rightarrow> 'e ext" where
  "w_ext w = (w_ctxs w, w_env w)"

definition w_put :: "'e ext \<Rightarrow> 'e world \<Rightarrow> 'e world" where
  "w_put x w = w\<lparr>w_ctxs := fst x, w_env := snd x\<rparr>"

definition w_cancel :: "nat \<Rightarrow> err option \<Rightarrow> 'e world \<Rightarrow> 'e world" where
  "w_cancel c e w = w\<lparr>w_ctxs := cancel_cause c e (w_ctxs w)\<rparr>"

lemma w_put_frame [frame_simps, simp]:
  "ps_currentId (w_put x w) = ps_currentId w" "ps_connections (w_put x w) = ps_connections w"
  "ps_totalSent (w_put x w) = ps_totalSent w" "ps_serverAddr (w_put x w) = ps_serverAddr w"
  "ps_proxyAddr (w_put x w) = ps_proxyAddr w" "ps_context (w_put x w) = ps_context w"
  "ps_wg (w_put x w) = ps_wg w" "ps_sendCallback (w_put x w) = ps_sendCallback w"
  "ps_errorCallback (w_put x w) = ps_errorCallback w" "ps_rcChan (w_put x w) = ps_rcChan w"
  "ps_callbackCtx (w_put x w) = ps_callbackCtx w" "ps_callbackCancel (w_put x w) = ps_callbackCancel w"
  "w_ctxs (w_put x w) = fst x" "w_env (w_put x w) = snd x" "w_pcs (w_put x w) = w_pcs w"
  "w_chans (w_put x w) = w_chans w" "w_now (w_put x w) = w_now w"
  "w_listeners (w_put x w) = w_listeners w" "w_pruner (w_put x w) = w_pruner w"
  by (simp_all add: w_put_def)

lemma w_cancel_frame [frame_simps, simp]:
  "ps_currentId (w_cancel c e w) = ps_currentId w" "ps_connections (w_cancel c e w) = ps_connections w"
  "ps_totalSent (w_cancel c e w) = ps_totalSent w" "ps_serverAddr (w_cancel c e w) = ps_serverAddr w"
  "ps_proxyAddr (w_cancel c e w) = ps_proxyAddr w" "ps_context (w_cancel c e w) = ps_context w"
  "ps_wg (w_cancel c e w) = ps_wg w" "ps_sendCallback (w_cancel c e w) = ps_sendCallback w"
  "ps_errorCallback (w_cancel c e w) = ps_errorCallback w" "ps_rcChan (w_cancel c e w) = ps_rcChan w"
  "ps_callbackCtx (w_cancel c e w) = ps_callbackCtx w" "ps_callbackCancel (w_cancel c e w) = ps_callbackCancel w"
  "w_ctxs (w_cancel c e w) = cancel_cause c e (w_ctxs w)" "w_env (w_cancel c e w) = w_env w"
  "w_pcs (w_cancel c e w) = w_pcs w" "w_chans (w_cancel c e w) = w_chans w" "w_now (w_cancel c e w) = w_now w"
  "w_listeners (w_cancel c e w) = w_listeners w" "w_pruner (w_cancel c e w) = w_pruner w"
  by (simp_all add: w_cancel_def)

section \<open>What is assumed of outside code\<close>

text \<open>
  The documented behaviour of contexts holds whoever uses them: code that is handed a context
  can only extend the tree and cancel nodes. The methods of an \<open>IProxy\<close> and the callbacks are
  assumed to respect this, and nothing else is assumed of them.
\<close>

definition ext_respects :: "('e ext \<Rightarrow> 'e ext) \<Rightarrow> bool" where
  "ext_respects f \<longleftrightarrow>
     (\<forall>x. ctx_wf (fst x) \<longrightarrow> ctx_wf (fst (f x)) \<and> ctx_le (fst x) (fst (f x)))"

definition px_ok :: "'e IProxy \<Rightarrow> bool" where
  "px_ok px \<longleftrightarrow>
     (\<forall>c. ext_respects (\<lambda>x. snd (px_Init px c x))) \<and>
     (\<forall>d. ext_respects (\<lambda>x. snd (px_SendToClient px d x))) \<and>
     (\<forall>d. ext_respects (\<lambda>x. snd (px_SendToServer px d x)))"

definition send_cb_ok :: "'e PacketSendCallback \<Rightarrow> bool" where
  "send_cb_ok cb \<longleftrightarrow> (\<forall>d f p. ext_respects (\<lambda>x. snd (cb d f p x)))"

definition err_cb_ok :: "'e ProxyErrorCallback \<Rightarrow> bool" where
  "err_cb_ok cb \<longleftrightarrow> (\<forall>e p. ext_respects (cb e p))"

lemma ext_respectsD:
  assumes "ext_respects f" "ctx_wf (w_ctxs w)"
  shows "ctx_wf (fst (f (w_ext w)))" "ctx_le (w_ctxs w) (fst (f (w_ext w)))"
  using assms by (auto simp: ext_respects_def w_ext_def)

end
