(* ===== verification/Container.thy ===== *)
theory Container
  imports Handler
begin

text \<open>
  \<open>handler/proxy.go\<close>: the container around one proxied connection. The container knows its
  spawner only through the interface \<open>IProxySpawner\<close>, so the operations take the spawner's
  \<open>HandleSend\<close> and \<open>HandleError\<close> as arguments \<open>hs\<close> and \<open>he\<close>; what they may rely on is the
  locale \<open>IProxySpawner_contract\<close>, which the theory of the spawner interprets. A container is
  named by its number \<open>r\<close> in the heap.
\<close>

type_synonym 'e HandleSend_fn =
  "bytes \<Rightarrow> CapFlags \<Rightarrow> nat \<Rightarrow> 'e world \<Rightarrow> (bool \<times> 'e world) may_panic"

type_synonym 'e HandleError_fn = "err \<Rightarrow> nat option \<Rightarrow> 'e world \<Rightarrow> 'e world"

section \<open>Queries and cancellation\<close>

definition pc_IsAlive :: "'e world \<Rightarrow> nat \<Rightarrow> bool" where
  "pc_IsAlive w r = (ctx_Err (w_ctxs w) (pc_ctx (w_pcs w ! r)) = None)"

definition pc_Cancel :: "nat \<Rightarrow> err option \<Rightarrow> 'e world \<Rightarrow> 'e world" where
  "pc_Cancel r cause w = w_cancel (pc_ctx (w_pcs w ! r)) cause w"

definition pc_Close :: "nat \<Rightarrow> 'e world \<Rightarrow> err option \<times> 'e world" where
  "pc_Close r w = (None, w_cancel (pc_ctx (w_pcs w ! r)) (Some ErrProxyClosedOk) w)"

definition pc_GetId :: "'e world \<Rightarrow> nat \<Rightarrow> goint" where
  "pc_GetId w r = pc_id (w_pcs w ! r)"

definition pc_Network :: "'e world \<Rightarrow> nat \<Rightarrow> string" where
  "pc_Network w r = px_Network (pc_px (w_pcs w ! r))"

definition pc_GetClientAddr :: "'e world \<Rightarrow> nat \<Rightarrow> addr" where
  "pc_GetClientAddr w r = px_GetClientAddr (pc_px (w_pcs w ! r))"

definition pc_GetServerAddr :: "'e world \<Rightarrow> nat \<Rightarrow> addr" where
  "pc_GetServerAddr w r = ps_serverAddr w"

definition pc_GetBytesSent :: "'e world \<Rightarrow> nat \<Rightarrow> u64" where
  "pc_GetBytesSent w r = pc_bytesSent (w_pcs w ! r)"

definition pc_GetLastContactTime :: "'e world \<Rightarrow> nat \<Rightarrow> int" where
  "pc_GetLastContactTime w r = pc_lastContactTime (w_pcs w ! r)"

definition pc_LastContactTimeAgo :: "'e world \<Rightarrow> nat \<Rightarrow> int" where
  "pc_LastContactTimeAgo w r = w_now w - pc_lastContactTime (w_pcs w ! r)"

text \<open>The attributes a callback sees of the container.\<close>

definition pc_view :: "'e world \<Rightarrow> nat \<Rightarrow> pc_info" where
  "pc_view w r = \<lparr>pi_GetId = pc_GetId w r, pi_Network = pc_Network w r,
     pi_GetClientAddr = pc_GetClientAddr w r, pi_GetServerAddr = pc_GetServerAddr w r\<rparr>"

section \<open>Sending\<close>

text \<open>The statistics update under \<open>statsLock\<close> after a successful send.\<close>

definition pc_account :: "nat \<Rightarrow> bytes \<Rightarrow> 'e world \<Rightarrow> 'e world" where
  "pc_account r data w =
     w\<lparr>w_pcs := (w_pcs w)[r := (w_pcs w ! r)
        \<lparr>pc_lastContactTime := w_now w,
         pc_bytesSent := pc_bytesSent (w_pcs w ! r) + of_nat (length data)\<rparr>]\<rparr>"

text \<open>
  What follows the call of the proxy in all three senders: hand the error to the spawner, or
  update the statistics. \<open>res\<close> is what the proxy's method returned.
\<close>

definition pc_after_send ::
  "'e HandleError_fn \<Rightarrow> nat \<Rightarrow> bytes \<Rightarrow> err option \<times> 'e ext \<Rightarrow> 'e world \<Rightarrow> 'e world"
where
  "pc_after_send he r data res w1 =
     (case fst res of
        Some err \<Rightarrow> he err (Some r) (w_put (snd res) w1)
      | None \<Rightarrow> pc_account r data (w_put (snd res) w1))"

definition pc_SendToClient ::
  "'e HandleSend_fn \<Rightarrow> 'e HandleError_fn \<Rightarrow> nat \<Rightarrow> bytes \<Rightarrow> 'e world \<Rightarrow> (err option \<times> 'e world) may_panic"
where
  "pc_SendToClient hs he r data w =
     (if ctx_Err (w_ctxs w) (pc_ctx (w_pcs w ! r)) \<noteq> None
      then Some (Cause (w_ctxs w) (pc_ctx (w_pcs w ! r)), w)
      else do {
        (shouldSend, w1) \<leftarrow> hs data CapFlag_Injected r w;
        if \<not> shouldSend then Some (None, w1)
        else (let res = px_SendToClient (pc_px (w_pcs w1 ! r)) data (w_ext w1)
              in Some (fst res, pc_after_send he r data res w1))
      })"

definition pc_SendToServer ::
  "'e HandleSend_fn \<Rightarrow> 'e HandleError_fn \<Rightarrow> nat \<Rightarrow> bytes \<Rightarrow> 'e world \<Rightarrow> (err option \<times> 'e world) may_panic"
where
  "pc_SendToServer hs he r data w =
     (if ctx_Err (w_ctxs w) (pc_ctx (w_pcs w ! r)) \<noteq> None
      then Some (Cause (w_ctxs w) (pc_ctx (w_pcs w ! r)), w)
      else do {
        (shouldSend, w1) \<leftarrow> hs data (CapFlag_ToServer OR CapFlag_Injected) r w;
        if \<not> shouldSend then Some (None, w1)
        else (let res = px_SendToServer (pc_px (w_pcs w1 ! r)) data (w_ext w1)
              in Some (fst res, pc_after_send he r data res w1))
      })"

text \<open>The body of \<open>handlePacket\<close> for a packet received on \<open>pktChan\<close>.\<close>

definition handlePacket_data ::
  "'e HandleSend_fn \<Rightarrow> 'e HandleError_fn \<Rightarrow> nat \<Rightarrow> ProxyPacketData \<Rightarrow> 'e world \<Rightarrow> 'e world may_panic"
where
  "handlePacket_data hs he r data w =
     (let flags = (if ppd_Serverbound data then 0 OR CapFlag_ToServer else 0) in
      do {
        (shouldSend, w1) \<leftarrow> hs (ppd_Data data) flags r w;
        if \<not> shouldSend then Some w1
        else (let px = pc_px (w_pcs w1 ! r);
                  res = (if ppd_Serverbound data then px_SendToServer px (ppd_Data data) (w_ext w1)
                         else px_SendToClient px (ppd_Data data) (w_ext w1))
              in Some (pc_after_send he r (ppd_Data data) res w1))
      })"

text \<open>
  The loop itself, over the choices its \<open>select\<close> makes: \<open>PcDone\<close> is the branch of
  \<open>pc.ctx.Done()\<close>, \<open>PcData\<close> a packet. When both are ready Go picks either.
\<close>

datatype pc_select = PcDone | PcData ProxyPacketData

fun handlePacket ::
  "'e HandleSend_fn \<Rightarrow> 'e HandleError_fn \<Rightarrow> nat \<Rightarrow> pc_select list \<Rightarrow> 'e world \<Rightarrow> 'e world may_panic"
where
  "handlePacket hs he r [] w = Some w"
| "handlePacket hs he r (PcDone # _) w = Some w"
| "handlePacket hs he r (PcData d # evs) w =
     do { w1 \<leftarrow> handlePacket_data hs he r d w; handlePacket hs he r evs w1 }"

section \<open>Construction\<close>

text \<open>The struct with its context, a child of the spawner's, before \<open>px.Init\<close> is called.\<close>

definition alloc_container :: "'e IProxy \<Rightarrow> goint \<Rightarrow> 'e world \<Rightarrow> nat \<times> 'e world" where
  "alloc_container px thisId w =
     (let (pCtx, \<sigma>) = WithCancelCause (Some (ps_context w)) (w_ctxs w)
      in (pCtx, w\<lparr>w_ctxs := \<sigma>,
                   w_pcs := w_pcs w @ [\<lparr>pc_ctx = pCtx, pc_px = px, pc_id = thisId,
                                        pc_bytesSent = 0, pc_lastContactTime = 0\<rparr>]\<rparr>))"

definition NewProxyContainer :: "'e IProxy \<Rightarrow> goint \<Rightarrow> 'e world \<Rightarrow> (err + nat) \<times> 'e world" where
  "NewProxyContainer px thisId w =
     (let (pCtx, w1) = alloc_container px thisId w;
          (err, x) = px_Init px pCtx (w_ext w1);
          w2 = w_put x w1
      in case err of
           Some e \<Rightarrow> (Inl e, w_cancel pCtx (Some (ErrorfV ''failed to initialize: '' e)) w2)
         | None \<Rightarrow> (Inr (length (w_pcs w)), w2))"

section \<open>The ways a send can go\<close>

text \<open>
  All senders have the same shape: nothing happens on a dead context, the spawner's
  \<open>HandleSend\<close> says no, or the proxy is called and its result is accounted for. Facts about
  sending are proved once, over this relation.
\<close>

inductive sends ::
  "'e HandleSend_fn \<Rightarrow> 'e HandleError_fn \<Rightarrow> nat \<Rightarrow> bytes \<Rightarrow> 'e world \<Rightarrow> 'e world \<Rightarrow> bool"
  for hs he r d w where
  sends_dead: "sends hs he r d w w"
| sends_filtered: "hs d f r w = Some (False, v) \<Longrightarrow> sends hs he r d w v"
| sends_toServer: "hs d f r w = Some (True, w1) \<Longrightarrow>
    v = pc_after_send he r d (px_SendToServer (pc_px (w_pcs w1 ! r)) d (w_ext w1)) w1 \<Longrightarrow>
    sends hs he r d w v"
| sends_toClient: "hs d f r w = Some (True, w1) \<Longrightarrow>
    v = pc_after_send he r d (px_SendToClient (pc_px (w_pcs w1 ! r)) d (w_ext w1)) w1 \<Longrightarrow>
    sends hs he r d w v"

lemma pc_SendToClient_sends: "pc_SendToClient hs he r d w = Some (e, v) \<Longrightarrow> sends hs he r d w v"
  by (auto simp: pc_SendToClient_def Let_def Option.bind_eq_Some_conv intro: sends.intros split: if_splits)

lemma pc_SendToServer_sends: "pc_SendToServer hs he r d w = Some (e, v) \<Longrightarrow> sends hs he r d w v"
  by (auto simp: pc_SendToServer_def Let_def Option.bind_eq_Some_conv intro: sends.intros split: if_splits)

lemma handlePacket_data_sends:
  "handlePacket_data hs he r p w = Some v \<Longrightarrow> sends hs he r (ppd_Data p) w v"
  by (auto simp: handlePacket_data_def Let_def Option.bind_eq_Some_conv intro: sends.intros split: if_splits)

section \<open>What a container may rely on\<close>

text \<open>The part of the spawner that sending never touches.\<close>

definition spawner_same :: "'e world \<Rightarrow> 'e world \<Rightarrow> bool" where
  "spawner_same w v \<longleftrightarrow>
     ps_currentId v = ps_currentId w \<and> ps_connections v = ps_connections w \<and>
     ps_context v = ps_context w \<and> ps_wg v = ps_wg w \<and> ps_serverAddr v = ps_serverAddr w \<and>
     ps_proxyAddr v = ps_proxyAddr w \<and> ps_errorCallback v = ps_errorCallback w \<and>
     ps_rcChan v = ps_rcChan w \<and> w_now v = w_now w \<and>
     w_listeners v = w_listeners w \<and> w_pruner v = w_pruner w"

lemma spawner_same_refl [simp]: "spawner_same w w"
  by (simp add: spawner_same_def)

lemma spawner_same_trans [trans]: "spawner_same u v \<Longrightarrow> spawner_same v w \<Longrightarrow> spawner_same u w"
  by (simp add: spawner_same_def)

lemma spawner_same_w_put [simp]: "spawner_same w (w_put x w)"
  by (simp add: spawner_same_def)

lemma pc_account_frame [frame_simps, simp]:
  "ps_totalSent (pc_account r d w) = ps_totalSent w" "w_ctxs (pc_account r d w) = w_ctxs w"
  "w_env (pc_account r d w) = w_env w" "w_chans (pc_account r d w) = w_chans w"
  "ps_sendCallback (pc_account r d w) = ps_sendCallback w"
  "ps_callbackCtx (pc_account r d w) = ps_callbackCtx w"
  "ps_callbackCancel (pc_account r d w) = ps_callbackCancel w"
  "length (w_pcs (pc_account r d w)) = length (w_pcs w)"
  "spawner_same w (pc_account r d w)"
  by (simp_all add: pc_account_def spawner_same_def)

fun packet_bytes :: "pc_select list \<Rightarrow> nat" where
  "packet_bytes [] = 0"
| "packet_bytes (PcDone # evs) = 0"
| "packet_bytes (PcData p # evs) = length (ppd_Data p) + packet_bytes evs"

text \<open>
  Whether the proxy took a packet: the spawner let it pass and the method of the proxy that is meant for
  its direction returned no error. \<open>taken_bytes\<close> adds up the packets that were taken.
\<close>

definition proxy_took :: "'e HandleSend_fn \<Rightarrow> nat \<Rightarrow> ProxyPacketData \<Rightarrow> 'e world \<Rightarrow> bool" where
  "proxy_took hs r p w =
     (let px = pc_px (w_pcs w ! r);
          method = (if ppd_Serverbound p then px_SendToServer px else px_SendToClient px)
      in case hs (ppd_Data p) (if ppd_Serverbound p then CapFlag_ToServer else 0) r w of
           Some (True, w1) \<Rightarrow> fst (method (ppd_Data p) (w_ext w1)) = None
         | _ \<Rightarrow> False)"

fun taken_bytes :: "'e HandleSend_fn \<Rightarrow> 'e HandleError_fn \<Rightarrow> nat \<Rightarrow> pc_select list \<Rightarrow> 'e world \<Rightarrow> nat" where
  "taken_bytes hs he r [] w = 0"
| "taken_bytes hs he r (PcDone # evs) w = 0"
| "taken_bytes hs he r (PcData p # evs) w =
     (if proxy_took hs r p w then length (ppd_Data p) else 0) +
     (case handlePacket_data hs he r p w of None \<Rightarrow> 0 | Some w1 \<Rightarrow> taken_bytes hs he r evs w1)"

lemma taken_bytes_le: "taken_bytes hs he r evs w \<le> packet_bytes evs"
  by (induction hs he r evs w rule: taken_bytes.induct) (auto split: option.splits)

text \<open>
  The contract: \<open>HandleSend\<close> counts the bytes, leaves the containers alone, and lets injected
  packets pass; \<open>HandleError\<close> changes neither counter.
\<close>

locale IProxySpawner_contract =
  fixes hs :: "'e HandleSend_fn" and he :: "'e HandleError_fn"
  assumes hs_injected: "IsInjected f \<Longrightarrow> hs d f r w = Some (b, v) \<Longrightarrow> b"
    and hs_pcs: "hs d f r w = Some (b, v) \<Longrightarrow> w_pcs v = w_pcs w"
    and hs_total: "hs d f r w = Some (b, v) \<Longrightarrow> ps_totalSent v = ps_totalSent w + of_nat (length d)"
    and hs_same: "hs d f r w = Some (b, v) \<Longrightarrow> spawner_same w v"
    and he_pcs: "w_pcs (he e p w) = w_pcs w"
    and he_total: "ps_totalSent (he e p w) = ps_totalSent w"
    and he_same: "spawner_same w (he e p w)"
begin

lemmas contract_simps = he_pcs he_total

text \<open>An injection on a live container reaches the proxy: no filter can stop it.\<close>

lemma SendToClient_live:
  assumes "pc_IsAlive w r" and "pc_SendToClient hs he r d w = Some (e, v)"
  obtains w1 res where "hs d CapFlag_Injected r w = Some (True, w1)"
    and "res = px_SendToClient (pc_px (w_pcs w ! r)) d (w_ext w1)"
    and "e = fst res" and "v = pc_after_send he r d res w1"
proof -
  from assms obtain b w1 where hs: "hs d CapFlag_Injected r w = Some (b, w1)"
    by (auto simp: pc_SendToClient_def pc_IsAlive_def Option.bind_eq_Some_conv)
  with hs_injected have b by (metis flag_reads(4))
  with assms hs that show ?thesis
    by (simp add: pc_SendToClient_def pc_IsAlive_def Let_def hs_pcs)
qed

lemma SendToServer_live:
  assumes "pc_IsAlive w r" and "pc_SendToServer hs he r d w = Some (e, v)"
  obtains w1 res where "hs d (CapFlag_ToServer OR CapFlag_Injected) r w = Some (True, w1)"
    and "res = px_SendToServer (pc_px (w_pcs w ! r)) d (w_ext w1)"
    and "e = fst res" and "v = pc_after_send he r d res w1"
proof -
  from assms obtain b w1 where hs: "hs d (CapFlag_ToServer OR CapFlag_Injected) r w = Some (b, w1)"
    by (auto simp: pc_SendToServer_def pc_IsAlive_def Option.bind_eq_Some_conv)
  with hs_injected have b by (metis flag_reads(8))
  with assms hs that show ?thesis
    by (simp add: pc_SendToServer_def pc_IsAlive_def Let_def hs_pcs)
qed

lemma after_send_same: "spawner_same w (pc_after_send he r d res w)"
  by (auto simp: pc_after_send_def split: option.splits
      intro: spawner_same_trans [OF spawner_same_w_put he_same]
        spawner_same_trans [OF spawner_same_w_put pc_account_frame(9)])

lemma after_send_total: "ps_totalSent (pc_after_send he r d res w) = ps_totalSent w"
  by (simp add: pc_after_send_def he_total split: option.splits)

lemma after_send_others: "q \<noteq> r \<Longrightarrow> w_pcs (pc_after_send he r d res w) ! q = w_pcs w ! q"
  by (simp add: pc_after_send_def he_pcs pc_account_def split: option.splits)

lemma after_send_length: "length (w_pcs (pc_after_send he r d res w)) = length (w_pcs w)"
  by (simp add: pc_after_send_def he_pcs pc_account_def split: option.splits)

text \<open>Sending never touches the spawner's tables, nor another container, whatever the outcome.\<close>

lemma sends_same: "sends hs he r d w v \<Longrightarrow> spawner_same w v"
  by (induction rule: sends.induct) (auto intro: hs_same after_send_same spawner_same_trans)

lemma sends_others: "sends hs he r d w v \<Longrightarrow> q \<noteq> r \<Longrightarrow> w_pcs v ! q = w_pcs w ! q"
  by (induction rule: sends.induct) (auto simp: hs_pcs after_send_others)

lemma sends_length: "sends hs he r d w v \<Longrightarrow> length (w_pcs v) = length (w_pcs w)"
  by (induction rule: sends.induct) (auto simp: hs_pcs after_send_length)

text \<open>The two byte counters: the spawner's counts every attempt, the container's every success.\<close>

lemma after_send_bytes:
  "r < length (w_pcs w) \<Longrightarrow>
   pc_bytesSent (w_pcs (pc_after_send he r d res w) ! r) =
     pc_bytesSent (w_pcs w ! r) + (if fst res = None then of_nat (length d) else 0)"
  by (simp add: pc_after_send_def he_pcs pc_account_def split: option.splits)

lemma SendToClient_counts:
  assumes "pc_IsAlive w r" "r < length (w_pcs w)" "pc_SendToClient hs he r d w = Some (e, v)"
  shows "ps_totalSent v = ps_totalSent w + of_nat (length d)"
    and "pc_bytesSent (w_pcs v ! r) =
           pc_bytesSent (w_pcs w ! r) + (if e = None then of_nat (length d) else 0)"
proof -
  from assms(1,3) obtain w1 res where s: "hs d CapFlag_Injected r w = Some (True, w1)"
      "e = fst res" "v = pc_after_send he r d res w1"
    by (rule SendToClient_live)
  then show "ps_totalSent v = ps_totalSent w + of_nat (length d)"
    by (simp add: after_send_total hs_total)
  from s assms(2) show "pc_bytesSent (w_pcs v ! r) =
      pc_bytesSent (w_pcs w ! r) + (if e = None then of_nat (length d) else 0)"
    by (simp add: after_send_bytes hs_pcs)
qed

lemma SendToServer_counts:
  assumes "pc_IsAlive w r" "r < length (w_pcs w)" "pc_SendToServer hs he r d w = Some (e, v)"
  shows "ps_totalSent v = ps_totalSent w + of_nat (length d)"
    and "pc_bytesSent (w_pcs v ! r) =
           pc_bytesSent (w_pcs w ! r) + (if e = None then of_nat (length d) else 0)"
proof -
  from assms(1,3) obtain w1 res where s: "hs d (CapFlag_ToServer OR CapFlag_Injected) r w = Some (True, w1)"
      "e = fst res" "v = pc_after_send he r d res w1"
    by (rule SendToServer_live)
  then show "ps_totalSent v = ps_totalSent w + of_nat (length d)"
    by (simp add: after_send_total hs_total)
  from s assms(2) show "pc_bytesSent (w_pcs v ! r) =
      pc_bytesSent (w_pcs w ! r) + (if e = None then of_nat (length d) else 0)"
    by (simp add: after_send_bytes hs_pcs)
qed

lemma handlePacket_data_counts:
  assumes "handlePacket_data hs he r p w = Some v" "r < length (w_pcs w)"
  shows "ps_totalSent v = ps_totalSent w + of_nat (length (ppd_Data p))"
    and "pc_bytesSent (w_pcs v ! r) =
      pc_bytesSent (w_pcs w ! r) + (if proxy_took hs r p w then of_nat (length (ppd_Data p)) else 0)"
    and "length (w_pcs v) = length (w_pcs w)"
proof -
  let ?f = "if ppd_Serverbound p then CapFlag_ToServer else 0"
  from assms(1) obtain b w1 where h: "hs (ppd_Data p) ?f r w = Some (b, w1)"
    by (cases "hs (ppd_Data p) ?f r w") (auto simp: handlePacket_data_def split: if_splits)
  define res where "res = (if ppd_Serverbound p then px_SendToServer (pc_px (w_pcs w1 ! r)) (ppd_Data p) (w_ext w1)
    else px_SendToClient (pc_px (w_pcs w1 ! r)) (ppd_Data p) (w_ext w1))"
  have v: "v = (if b then pc_after_send he r (ppd_Data p) res w1 else w1)"
    using assms(1) h by (auto simp: handlePacket_data_def Let_def res_def split: if_splits)
  have took: "proxy_took hs r p w \<longleftrightarrow> b \<and> fst res = None"
    using hs_pcs [OF h] by (cases b) (auto simp: proxy_took_def Let_def h res_def)
  show "ps_totalSent v = ps_totalSent w + of_nat (length (ppd_Data p))"
    using hs_total [OF h] by (simp add: v after_send_total)
  show "pc_bytesSent (w_pcs v ! r) =
      pc_bytesSent (w_pcs w ! r) + (if proxy_took hs r p w then of_nat (length (ppd_Data p)) else 0)"
    using hs_pcs [OF h] assms(2) by (simp add: took v after_send_bytes)
  show "length (w_pcs v) = length (w_pcs w)" using hs_pcs [OF h] by (simp add: v after_send_length)
qed

text \<open>The bytes of the packets that the loop gets to before it is told to stop.\<close>

lemma handlePacket_counts:
  "handlePacket hs he r evs w = Some v \<Longrightarrow> r < length (w_pcs w) \<Longrightarrow>
   ps_totalSent v = ps_totalSent w + of_nat (packet_bytes evs) \<and>
   pc_bytesSent (w_pcs v ! r) = pc_bytesSent (w_pcs w ! r) + of_nat (taken_bytes hs he r evs w)"
proof (induction evs arbitrary: w rule: packet_bytes.induct)
  case (3 p evs)
  then obtain w1 where d: "handlePacket_data hs he r p w = Some w1" and rest: "handlePacket hs he r evs w1 = Some v"
    by (auto simp: Option.bind_eq_Some_conv)
  note one = handlePacket_data_counts [OF d 3(3)]
  from 3(1) [OF rest] one(3) 3(3) one(1,2) show ?case by (simp add: d)
qed auto

end

end
