(* ===== verification/Spawner.thy ===== *)
theory Spawner
  imports Container
begin

text \<open>
  \<open>handler/spawner.go\<close>: the operations of the proxy spawner. Operations that hold a mutex for
  their whole critical section are atomic here. Go ranges over a map in an order of its own
  choice, so an operation that does so takes the order as an argument: a list \<open>ks\<close> of the keys.
\<close>

section \<open>Sending and errors\<close>

definition HandleError :: "err \<Rightarrow> nat option \<Rightarrow> 'e world \<Rightarrow> 'e world" where
  "HandleError err pc w =
     (case ps_errorCallback w of
        None \<Rightarrow> w
      | Some cb \<Rightarrow> w_put (cb err (map_option (pc_view w) pc) (w_ext w)) w)"

text \<open>Freeing the filter callback; calling a nil \<open>callbackCancel\<close> would panic.\<close>

definition free_callback :: "'e world \<Rightarrow> 'e world may_panic" where
  "free_callback w =
     (case ps_callbackCancel w of
        None \<Rightarrow> None
      | Some c \<Rightarrow> Some ((w_cancel c None w)
          \<lparr>ps_callbackCancel := None, ps_callbackCtx := None, ps_sendCallback := None\<rparr>))"

text \<open>
  The loop over \<open>rcChan\<close>: a non-blocking send on every channel whose context is alive. The send
  succeeds if a reader is parked; a send on a closed channel panics.
\<close>

fun send_to_chans :: "PacketChanData \<Rightarrow> ctxs \<Rightarrow> nat list \<Rightarrow> rChan list \<Rightarrow> rChan list may_panic" where
  "send_to_chans p \<sigma> [] chans = Some chans"
| "send_to_chans p \<sigma> (i # is) chans =
     (let v = chans ! i in
      if ctx_Err \<sigma> (rc_ctx v) = None
      then (if rc_closed v then None
            else send_to_chans p \<sigma> is
              (case rc_parked v of
                 0 \<Rightarrow> chans
               | Suc n \<Rightarrow> chans[i := v\<lparr>rc_parked := n, rc_got := rc_got v @ [p]\<rparr>]))
      else send_to_chans p \<sigma> is chans)"

definition packet_of :: "bytes \<Rightarrow> CapFlags \<Rightarrow> pc_info \<Rightarrow> PacketChanData" where
  "packet_of data flags pc =
     \<lparr>pcd_Flags = flags,
      pcd_Source = (if IsServerbound flags then pi_GetClientAddr pc else pi_GetServerAddr pc),
      pcd_Dest = (if IsServerbound flags then pi_GetServerAddr pc else pi_GetClientAddr pc),
      pcd_Data = data, pcd_ProxyId = pi_GetId pc\<rparr>"

text \<open>
  \<open>run_sendCallback\<close> is the middle of \<open>HandleSend\<close>: \<open>False\<close> asks it to return early. The call of
  \<open>p.callbackCtx.Err()\<close> on a nil context panics.
\<close>

definition run_sendCallback ::
  "bytes \<Rightarrow> CapFlags \<Rightarrow> nat \<Rightarrow> 'e world \<Rightarrow> (bool \<times> 'e world) may_panic"
where
  "run_sendCallback data flags r w =
     (case ps_sendCallback w of
        None \<Rightarrow> Some (True, w)
      | Some cb \<Rightarrow>
          (case ps_callbackCtx w of
             None \<Rightarrow> None
           | Some c \<Rightarrow>
               if ctx_Err (w_ctxs w) c \<noteq> None
               then do { w1 \<leftarrow> free_callback w; Some (True, w1) }
               else (let (cbResult, x) = cb data flags (pc_view w r) (w_ext w)
                     in Some (cbResult \<or> IsInjected flags, w_put x w))))"

definition HandleSend :: "bytes \<Rightarrow> CapFlags \<Rightarrow> nat \<Rightarrow> 'e world \<Rightarrow> (bool \<times> 'e world) may_panic" where
  "HandleSend data flags r w =
     (let pktData = packet_of data flags (pc_view w r) in
      do {
        (go_on, w1) \<leftarrow> run_sendCallback data flags r
                        (w\<lparr>ps_totalSent := ps_totalSent w + of_nat (length data)\<rparr>);
        if \<not> go_on then Some (False, w1)
        else do {
          chans \<leftarrow> send_to_chans pktData (w_ctxs w1) (ps_rcChan w1) (w_chans w1);
          Some (True, w1\<lparr>w_chans := chans\<rparr>)
        }
      })"

section \<open>The table of connections\<close>

type_synonym 'e CreateIProxyContainer =
  "'e IProxy \<Rightarrow> goint \<Rightarrow> 'e world \<Rightarrow> (err + nat) \<times> 'e world"

definition AddConnection ::
  "'e CreateIProxyContainer \<Rightarrow> 'e IProxy \<Rightarrow> 'e world \<Rightarrow> (err + nat) \<times> 'e world"
where
  "AddConnection containerMaker px w =
     (case ctx_Err (w_ctxs w) (ps_context w) of
        Some e \<Rightarrow> (Inl e, w)
      | None \<Rightarrow>
          (let thisId = ps_currentId w in
           case containerMaker px thisId w of
             (Inl err, w1) \<Rightarrow> (Inl err, HandleError err None w1)
           | (Inr pc, w1) \<Rightarrow>
               (Inr pc, w1\<lparr>ps_currentId := ps_currentId w1 + 1,
                           ps_connections := (ps_connections w1)(thisId \<mapsto> pc),
                           ps_wg := ps_wg w1 + 1\<rparr>)))"

definition GetProxy :: "goint \<Rightarrow> 'e world \<Rightarrow> err + nat" where
  "GetProxy i w =
     (case ps_connections w i of
        Some c \<Rightarrow> Inr c
      | None \<Rightarrow> Inl (ErrNew ''proxy not found''))"

definition GetAllProxies :: "goint list \<Rightarrow> 'e world \<Rightarrow> nat list" where
  "GetAllProxies ks w = List.map_filter (ps_connections w) ks"

definition CloseProxy :: "goint \<Rightarrow> 'e world \<Rightarrow> err option \<times> 'e world" where
  "CloseProxy i w =
     (case GetProxy i w of
        Inl err \<Rightarrow> (Some err, w)
      | Inr px \<Rightarrow> (None, pc_Cancel px (Some ErrProxyClosedOk) w))"

text \<open>The loop of \<open>SendToAllClients\<close> and \<open>SendToAllServers\<close>; \<open>send\<close> is the method called.\<close>

fun send_all ::
  "(nat \<Rightarrow> 'e world \<Rightarrow> (err option \<times> 'e world) may_panic) \<Rightarrow> goint list \<Rightarrow> err option \<Rightarrow>
   'e world \<Rightarrow> (err option \<times> 'e world) may_panic"
where
  "send_all send [] firstErr w = Some (firstErr, w)"
| "send_all send (k # ks) firstErr w =
     (case ps_connections w k of
        None \<Rightarrow> send_all send ks firstErr w
      | Some v \<Rightarrow>
          if pc_IsAlive w v
          then do {
            (err, w1) \<leftarrow> send v w;
            send_all send ks (if err \<noteq> None \<and> firstErr = None then err else firstErr) w1
          }
          else send_all send ks firstErr w)"

definition SendToAllClients :: "goint list \<Rightarrow> bytes \<Rightarrow> 'e world \<Rightarrow> (err option \<times> 'e world) may_panic" where
  "SendToAllClients ks data w =
     send_all (\<lambda>v. pc_SendToClient HandleSend HandleError v data) ks None w"

definition SendToAllServers :: "goint list \<Rightarrow> bytes \<Rightarrow> 'e world \<Rightarrow> (err option \<times> 'e world) may_panic" where
  "SendToAllServers ks data w =
     send_all (\<lambda>v. pc_SendToServer HandleSend HandleError v data) ks None w"

section \<open>Filter callback, error callback, receive channels\<close>

definition set_callback :: "'e PacketSendCallback option \<Rightarrow> nat option \<Rightarrow> 'e world \<Rightarrow> 'e world" where
  "set_callback cb parent w =
     (let (c, \<sigma>) = WithCancelCause parent (w_ctxs w)
      in w\<lparr>w_ctxs := \<sigma>, ps_callbackCtx := Some c, ps_callbackCancel := Some c, ps_sendCallback := cb\<rparr>)"

definition TrySetFilterCallback ::
  "'e PacketSendCallback option \<Rightarrow> nat option \<Rightarrow> 'e world \<Rightarrow> (err option \<times> 'e world) may_panic"
where
  "TrySetFilterCallback cb parent w =
     (case ps_callbackCtx w of
        None \<Rightarrow> Some (None, set_callback cb parent w)
      | Some c \<Rightarrow>
          if ctx_Err (w_ctxs w) c = None
          then Some (Some (ErrNew ''callback already exists''), w)
          else do { w1 \<leftarrow> free_callback w; Some (None, set_callback cb parent w1) })"

definition SetErrorCallback :: "'e ProxyErrorCallback option \<Rightarrow> 'e world \<Rightarrow> 'e world" where
  "SetErrorCallback cb w = w\<lparr>ps_errorCallback := cb\<rparr>"

definition GetBytesSent :: "'e world \<Rightarrow> u64" where
  "GetBytesSent w = ps_totalSent w"

definition IsAlive :: "'e world \<Rightarrow> bool" where
  "IsAlive w = (ctx_Err (w_ctxs w) (ps_context w) = None)"

text \<open>\<open>GetRecvChan\<close> returns the new channel's number; it stands for channel, context and cancel function.\<close>

definition GetRecvChan :: "nat option \<Rightarrow> 'e world \<Rightarrow> nat \<times> 'e world" where
  "GetRecvChan parent w =
     (let (c, \<sigma>) = WithCancelCause parent (w_ctxs w);
          i = length (w_chans w)
      in (i, w\<lparr>w_ctxs := \<sigma>,
               w_chans := w_chans w @ [\<lparr>rc_ctx = c, rc_closed = False, rc_parked = 0, rc_got = []\<rparr>],
               ps_rcChan := ps_rcChan w @ [i]\<rparr>))"

text \<open>A reader blocks on \<open>\<leftarrow>\<close> of channel \<open>i\<close>.\<close>

definition park_reader :: "nat \<Rightarrow> 'e world \<Rightarrow> 'e world" where
  "park_reader i w = w\<lparr>w_chans := (w_chans w)[i := (w_chans w ! i)\<lparr>rc_parked := Suc (rc_parked (w_chans w ! i))\<rparr>]\<rparr>"

section \<open>The pruner\<close>

text \<open>The keys of dead connections, in the order of the range loop.\<close>

definition dead_keys :: "goint list \<Rightarrow> 'e world \<Rightarrow> goint list" where
  "dead_keys ks w =
     filter (\<lambda>k. case ps_connections w k of None \<Rightarrow> False | Some v \<Rightarrow> \<not> pc_IsAlive w v) ks"

text \<open>Deleting them; \<open>wg.Done\<close> panics when the counter would become negative.\<close>

fun delete_keys :: "goint list \<Rightarrow> 'e world \<Rightarrow> 'e world may_panic" where
  "delete_keys [] w = Some w"
| "delete_keys (v # vs) w =
     (if ps_wg w - 1 < 0 then None
      else delete_keys vs (w\<lparr>ps_connections := (ps_connections w)(v := None), ps_wg := ps_wg w - 1\<rparr>))"

text \<open>The indices of the receive channels whose context is dead, in ascending order.\<close>

definition dead_chans :: "'e world \<Rightarrow> nat list" where
  "dead_chans w =
     filter (\<lambda>i. ctx_Err (w_ctxs w) (rc_ctx (w_chans w ! (ps_rcChan w ! i))) \<noteq> None)
       [0..<length (ps_rcChan w)]"

text \<open>
  The deletion loop: the last element moves into the hole and the slice shrinks by one. An
  index outside the slice panics.
\<close>

fun swap_delete :: "nat list \<Rightarrow> 'a list \<Rightarrow> 'a list may_panic" where
  "swap_delete [] xs = Some xs"
| "swap_delete (v # vs) xs =
     (if v < length xs then swap_delete vs (butlast (xs[v := last xs])) else None)"

definition prune_chans :: "'e world \<Rightarrow> 'e world may_panic" where
  "prune_chans w =
     do { rc \<leftarrow> swap_delete (dead_chans w) (ps_rcChan w); Some (w\<lparr>ps_rcChan := rc\<rparr>) }"

definition pruner_tick :: "goint list \<Rightarrow> 'e world \<Rightarrow> 'e world may_panic" where
  "pruner_tick ks w = do { w1 \<leftarrow> delete_keys (dead_keys ks w) w; prune_chans w1 }"

text \<open>The goroutine: it joins the wait group when it starts; on the end of the context it returns.\<close>

definition pruner_begin :: "'e world \<Rightarrow> 'e world" where
  "pruner_begin w = w\<lparr>ps_wg := ps_wg w + 1, w_pruner := PrunerLoops\<rparr>"

definition pruner_return :: "'e world \<Rightarrow> 'e world" where
  "pruner_return w = w\<lparr>w_pruner := PrunerReturned\<rparr>"

datatype pruner_select = PrunerTick "goint list" | PrunerDone

fun pruner_loop :: "pruner_select list \<Rightarrow> 'e world \<Rightarrow> 'e world may_panic" where
  "pruner_loop [] w = Some w"
| "pruner_loop (PrunerDone # _) w = Some (pruner_return w)"
| "pruner_loop (PrunerTick ks # evs) w = do { w1 \<leftarrow> pruner_tick ks w; pruner_loop evs w1 }"

definition pruner :: "pruner_select list \<Rightarrow> 'e world \<Rightarrow> 'e world may_panic" where
  "pruner evs w = pruner_loop evs (pruner_begin w)"

section \<open>Closing\<close>

fun close_chans :: "nat list \<Rightarrow> 'e world \<Rightarrow> 'e world may_panic" where
  "close_chans [] w = Some w"
| "close_chans (i # is) w =
     (let w1 = w_cancel (rc_ctx (w_chans w ! i)) None w;
          v = w_chans w1 ! i
      in if rc_closed v then None
         else close_chans is (w1\<lparr>w_chans := (w_chans w1)[i := v\<lparr>rc_closed := True\<rparr>]\<rparr>))"

text \<open>
  \<open>Close\<close> up to the point where it waits, and its result: a goroutine waits for the counter of
  the wait group to reach zero; \<open>seen\<close> are the states during the second that \<open>Close\<close> waits.
\<close>

definition Close_start :: "'e world \<Rightarrow> 'e world may_panic" where
  "Close_start w =
     do { w1 \<leftarrow> close_chans (ps_rcChan w) w;
          Some (w_cancel (ps_context w1) (Some ErrSpawnerClosedOk) w1) }"

definition Close_result :: "'e world list \<Rightarrow> err option" where
  "Close_result seen =
     (if list_ex (\<lambda>w. ps_wg w = 0) seen then None
      else Some (ErrNew ''timed out closing proxies''))"

section \<open>Construction\<close>

text \<open>
  The spawner with its new context, a child of the parent's, as it is when its goroutines are started.
\<close>

definition new_spawner :: "addr \<Rightarrow> addr \<Rightarrow> nat option \<Rightarrow> ctxs \<Rightarrow> 'e \<Rightarrow> int \<Rightarrow> 'e world" where
  "new_spawner server proxy parent \<sigma> e now =
     (let (psContext, \<tau>) = WithCancelCause parent \<sigma>
      in \<lparr>ps_currentId = 0, ps_connections = Map.empty, ps_totalSent = 0,
          ps_serverAddr = server, ps_proxyAddr = proxy, ps_context = psContext,
          ps_wg = 0, ps_sendCallback = None, ps_errorCallback = None,
          ps_rcChan = [], ps_callbackCtx = None, ps_callbackCancel = None,
          w_ctxs = \<tau>, w_env = e, w_pcs = [], w_chans = [], w_now = now,
          w_listeners = 0, w_pruner = PrunerNotRun\<rparr>)"

text \<open>
  The constructor. The listeners run as soon as they are started: \<open>early\<close> is what they have done by the time
  the constructor looks at the context of the spawner, so one of them can make it fail. The pruner
  is a goroutine that has not run yet when the constructor returns.
\<close>

definition NewProxySpawnerWithContainer ::
  "addr \<Rightarrow> addr \<Rightarrow> nat option \<Rightarrow> nat \<Rightarrow> ('e world \<Rightarrow> 'e world) \<Rightarrow> ctxs \<Rightarrow> 'e \<Rightarrow> int \<Rightarrow> err + 'e world"
where
  "NewProxySpawnerWithContainer server proxy parent listeners early \<sigma> e now =
     (if listeners = 0 then Inl (ErrNew ''no listeners given'')
      else if addr_Network server = addr_Network proxy \<and> addr_String server = addr_String proxy
      then Inl (ErrNew ''server address and proxy address must be different'')
      else (let ps = early (new_spawner server proxy parent \<sigma> e now)
            in case Cause (w_ctxs ps) (ps_context ps) of
                 Some err \<Rightarrow> Inl err
               | None \<Rightarrow> Inr ps))"

end
