(* ===== verification/SpawnerFacts.thy ===== *)
theory SpawnerFacts
  imports Spawner
begin

text \<open>
  Behaviour of the spawner's operations, branch by branch: the contract that containers rely
  on, delivery to the receive channels, and the deletion loop of the pruner with the exact
  condition under which it panics.
\<close>

section \<open>The spawner keeps its contract with the containers\<close>

lemma HandleError_frame [frame_simps, simp]:
  "w_pcs (HandleError e p w) = w_pcs w" "ps_totalSent (HandleError e p w) = ps_totalSent w"
  "w_chans (HandleError e p w) = w_chans w" "ps_sendCallback (HandleError e p w) = ps_sendCallback w"
  "ps_callbackCtx (HandleError e p w) = ps_callbackCtx w"
  "ps_callbackCancel (HandleError e p w) = ps_callbackCancel w"
  "spawner_same w (HandleError e p w)"
  by (simp_all add: HandleError_def spawner_same_def split: option.splits)

lemma HandleError_fields [frame_simps, simp]:
  "ps_currentId (HandleError e p w) = ps_currentId w"
  "ps_connections (HandleError e p w) = ps_connections w"
  "ps_context (HandleError e p w) = ps_context w" "ps_wg (HandleError e p w) = ps_wg w"
  "ps_rcChan (HandleError e p w) = ps_rcChan w"
  "ps_errorCallback (HandleError e p w) = ps_errorCallback w"
  "w_listeners (HandleError e p w) = w_listeners w" "w_pruner (HandleError e p w) = w_pruner w"
  using HandleError_frame(7) [of w e p] by (simp_all add: spawner_same_def)

lemma free_callback_frame:
  assumes "free_callback w = Some v"
  shows "w_pcs v = w_pcs w" "ps_totalSent v = ps_totalSent w" "w_chans v = w_chans w" "spawner_same w v"
  using assms by (auto simp: free_callback_def spawner_same_def split: option.splits)

lemma run_sendCallback_frame:
  assumes "run_sendCallback d f r w = Some (b, v)"
  shows "w_pcs v = w_pcs w" "ps_totalSent v = ps_totalSent w" "w_chans v = w_chans w" "spawner_same w v"
  using assms
  by (auto simp: run_sendCallback_def Option.bind_eq_Some_conv free_callback_frame
      split: option.splits if_splits prod.splits)

lemma run_sendCallback_injected:
  "IsInjected f \<Longrightarrow> run_sendCallback d f r w = Some (b, v) \<Longrightarrow> b"
  by (auto simp: run_sendCallback_def Option.bind_eq_Some_conv split: option.splits if_splits prod.splits)

text \<open>\<open>HandleSend\<close>, taken apart: the callback's verdict, then delivery.\<close>

lemma HandleSend_cases:
  assumes "HandleSend d f r w = Some (b, v)"
  obtains (dropped) "\<not> b" "run_sendCallback d f r (w\<lparr>ps_totalSent := ps_totalSent w + of_nat (length d)\<rparr>) = Some (False, v)"
  | (passed) w1 chans where "b"
      "run_sendCallback d f r (w\<lparr>ps_totalSent := ps_totalSent w + of_nat (length d)\<rparr>) = Some (True, w1)"
      "send_to_chans (packet_of d f (pc_view w r)) (w_ctxs w1) (ps_rcChan w1) (w_chans w1) = Some chans"
      "v = w1\<lparr>w_chans := chans\<rparr>"
  using assms
  by (auto simp: HandleSend_def Let_def Option.bind_eq_Some_conv split: if_splits)

lemma HandleSend_injected: "IsInjected f \<Longrightarrow> HandleSend d f r w = Some (b, v) \<Longrightarrow> b"
  by (erule HandleSend_cases) (auto dest: run_sendCallback_injected)

lemma HandleSend_frame:
  assumes "HandleSend d f r w = Some (b, v)"
  shows "w_pcs v = w_pcs w" "ps_totalSent v = ps_totalSent w + of_nat (length d)" "spawner_same w v"
proof -
  let ?w0 = "w\<lparr>ps_totalSent := ps_totalSent w + of_nat (length d)\<rparr>"
  from assms obtain b' w1 chans where run: "run_sendCallback d f r ?w0 = Some (b', w1)"
      and v: "v = w1 \<or> v = w1\<lparr>w_chans := chans\<rparr>"
    by (rule HandleSend_cases) blast+
  have "w_pcs w1 = w_pcs w" "ps_totalSent w1 = ps_totalSent w + of_nat (length d)" "spawner_same ?w0 w1"
    using run_sendCallback_frame [OF run] by simp_all
  with v show "w_pcs v = w_pcs w" "ps_totalSent v = ps_totalSent w + of_nat (length d)" "spawner_same w v"
    by (auto simp: spawner_same_def)
qed

interpretation spawner: IProxySpawner_contract HandleSend HandleError
  by unfold_locales (auto dest: HandleSend_injected HandleSend_frame)

section \<open>Delivery to the receive channels\<close>

lemma send_to_chans_length: "send_to_chans p \<sigma> is chans = Some chans' \<Longrightarrow> length chans' = length chans"
  by (induction p \<sigma> "is" chans rule: send_to_chans.induct)
    (auto simp: Let_def split: if_splits nat.splits)

lemma send_to_chans_other:
  "send_to_chans p \<sigma> is chans = Some chans' \<Longrightarrow> j \<notin> set is \<Longrightarrow> chans' ! j = chans ! j"
  by (induction p \<sigma> "is" chans rule: send_to_chans.induct)
    (auto simp: Let_def split: if_splits nat.splits)

text \<open>What one channel gets: the packet, if its context is alive and a reader waits.\<close>

definition handed :: "PacketChanData \<Rightarrow> ctxs \<Rightarrow> rChan \<Rightarrow> rChan" where
  "handed p \<sigma> v =
     (if ctx_Err \<sigma> (rc_ctx v) = None \<and> 0 < rc_parked v
      then v\<lparr>rc_parked := rc_parked v - 1, rc_got := rc_got v @ [p]\<rparr> else v)"

lemma send_to_chans_spec:
  "send_to_chans p \<sigma> is chans = Some chans' \<Longrightarrow> distinct is \<Longrightarrow> \<forall>i \<in> set is. i < length chans \<Longrightarrow>
   j \<in> set is \<Longrightarrow> chans' ! j = handed p \<sigma> (chans ! j)"
proof (induction p \<sigma> "is" chans rule: send_to_chans.induct)
  case (2 p \<sigma> i "is" chans)
  show ?case
  proof (cases "j = i")
    case True
    with "2.prems" show ?thesis
      by (auto simp: Let_def handed_def send_to_chans_other split: if_splits nat.splits)
  next
    case False
    with "2" show ?thesis
      by (auto simp: Let_def split: if_splits nat.splits)
  qed
qed simp

lemma send_to_chans_ctx_closed:
  "send_to_chans p \<sigma> is chans = Some chans' \<Longrightarrow>
   rc_ctx (chans' ! j) = rc_ctx (chans ! j) \<and> rc_closed (chans' ! j) = rc_closed (chans ! j)"
proof (induction p \<sigma> "is" chans rule: send_to_chans.induct)
  case (2 p \<sigma> i "is" chans)
  then show ?case
    by (cases "i < length chans"; cases "i = j")
      (auto simp: Let_def list_update_beyond split: if_splits nat.splits)
qed simp

text \<open>A send panics only on a channel that is closed while its context is alive.\<close>

lemma send_to_chans_no_panic:
  "\<forall>i \<in> set is. rc_closed (chans ! i) \<longrightarrow> ctx_Err \<sigma> (rc_ctx (chans ! i)) \<noteq> None \<Longrightarrow>
   \<exists>chans'. send_to_chans p \<sigma> is chans = Some chans'"
proof (induction p \<sigma> "is" chans rule: send_to_chans.induct)
  case (2 p \<sigma> i "is" chans)
  let ?v = "chans ! i"
  let ?chans = "case rc_parked ?v of 0 \<Rightarrow> chans
    | Suc n \<Rightarrow> chans[i := ?v\<lparr>rc_parked := n, rc_got := rc_got ?v @ [p]\<rparr>]"
  have "rc_closed (?chans ! j) = rc_closed (chans ! j) \<and> rc_ctx (?chans ! j) = rc_ctx (chans ! j)" for j
    by (cases "i < length chans"; cases "i = j") (auto simp: list_update_beyond split: nat.splits)
  then have hyp: "\<forall>i \<in> set is. rc_closed (?chans ! i) \<longrightarrow> ctx_Err \<sigma> (rc_ctx (?chans ! i)) \<noteq> None"
    using "2.prems" by simp
  show ?case
  proof (cases "ctx_Err \<sigma> (rc_ctx ?v) = None")
    case True
    with "2.prems" have "\<not> rc_closed ?v" by auto
    with "2.IH"(1) [OF refl True _ hyp] have "\<exists>chans'. send_to_chans p \<sigma> is ?chans = Some chans'"
      by blast
    with True \<open>\<not> rc_closed ?v\<close> show ?thesis by (simp add: Let_def)
  next
    case False
    with "2.IH"(2) [OF refl False] "2.prems" show ?thesis by (auto simp: Let_def)
  qed
qed simp

section \<open>The deletion loop\<close>

lemma swap_delete_panics_iff:
  "swap_delete ks xs = None \<longleftrightarrow> \<not> (\<forall>j < length ks. ks ! j + j < length xs)"
proof (induction ks xs rule: swap_delete.induct)
  case (2 v vs xs)
  show ?case
  proof (cases "v < length xs")
    case True
    then have "swap_delete (v # vs) xs = None \<longleftrightarrow> \<not> (\<forall>j < length vs. vs ! j + j < length xs - 1)"
      using "2.IH" by simp
    also have "\<dots> \<longleftrightarrow> \<not> (\<forall>j < length (v # vs). (v # vs) ! j + j < length xs)"
      using True by (auto simp: less_Suc_eq_0_disj less_diff_conv)
    finally show ?thesis .
  qed force
qed simp

lemma mset_swap_delete_step:
  assumes "v < length xs"
  shows "mset (butlast (xs[v := last xs])) = mset xs - {# xs ! v #}"
proof -
  from assms have ne: "xs \<noteq> []" by auto
  let ?ys = "xs[v := last xs]"
  have last: "last ?ys = last xs"
    using assms ne by (simp add: last_list_update)
  have "mset ?ys = add_mset (last xs) (mset xs - {# xs ! v #})"
    using assms by (simp add: mset_update)
  moreover have "mset ?ys = add_mset (last ?ys) (mset (butlast ?ys))"
    by (rule mset_butlast) (use ne in simp)
  ultimately show ?thesis using last by simp
qed

lemma swap_delete_mset:
  "swap_delete ks xs = Some ys \<Longrightarrow> distinct ks \<Longrightarrow> mset ys = mset xs - mset (map ((!) xs) ks)"
proof (induction ks xs rule: swap_delete.induct)
  case (2 v vs xs)
  then have v: "v < length xs" and rec: "swap_delete vs (butlast (xs[v := last xs])) = Some ys"
    by (auto split: if_splits)
  from rec have safe: "\<forall>j < length vs. vs ! j + j < length (butlast (xs[v := last xs]))"
    using swap_delete_panics_iff by (metis option.distinct(1))
  have same: "map ((!) (butlast (xs[v := last xs]))) vs = map ((!) xs) vs"
  proof (rule map_cong [OF refl])
    fix k assume "k \<in> set vs"
    then obtain j where "j < length vs" "vs ! j = k" by (auto simp: in_set_conv_nth)
    with safe have "k < length xs - 1" by fastforce
    moreover from \<open>k \<in> set vs\<close> "2.prems" have "k \<noteq> v" by auto
    ultimately show "butlast (xs[v := last xs]) ! k = xs ! k" by (simp add: nth_butlast)
  qed
  have "mset ys = mset (butlast (xs[v := last xs])) - mset (map ((!) (butlast (xs[v := last xs]))) vs)"
    using "2.IH" v rec "2.prems"(2) by (metis distinct.simps(2))
  then have "mset ys = mset xs - {# xs ! v #} - mset (map ((!) xs) vs)"
    by (simp only: same mset_swap_delete_step [OF v])
  then show ?case by simp
qed simp

text \<open>Deleting exactly the indices that satisfy a predicate, as the pruner does.\<close>

definition hits :: "('a \<Rightarrow> bool) \<Rightarrow> 'a list \<Rightarrow> nat list" where
  "hits P xs = filter (\<lambda>i. P (xs ! i)) [0..<length xs]"

lemma hits_props [simp]: "distinct (hits P xs)" "sorted (hits P xs)"
  by (simp_all add: hits_def sorted_wrt_filter)

lemma map_nth_hits: "map ((!) xs) (hits P xs) = filter P xs"
proof -
  have "map ((!) xs) (hits P xs) = filter P (map ((!) xs) [0..<length xs])"
    by (simp add: hits_def filter_map comp_def)
  then show ?thesis by (simp add: map_nth)
qed

lemma length_hits: "length (hits P xs) = length (filter P xs)"
  by (metis length_map map_nth_hits)

lemma swap_delete_hits_mset:
  "swap_delete (hits P xs) xs = Some ys \<Longrightarrow> mset ys = mset (filter (\<lambda>x. \<not> P x) xs)"
  by (simp add: swap_delete_mset map_nth_hits) (metis add_diff_cancel_left' mset_filter multiset_partition)

text \<open>With \<open>m\<close> hits, the loop is safe iff none of the last \<open>m - 1\<close> elements is a hit.\<close>

lemma swap_delete_hits_safe_iff:
  "swap_delete (hits P xs) xs \<noteq> None \<longleftrightarrow>
   (\<forall>i < length xs. length xs - length (filter P xs) < i \<longrightarrow> \<not> P (xs ! i))"
proof -
  let ?ks = "hits P xs" and ?n = "length xs"
  have in_iff: "k \<in> set ?ks \<longleftrightarrow> k < ?n \<and> P (xs ! k)" for k by (auto simp: hits_def)
  have le_n: "length ?ks \<le> ?n" by (simp add: length_hits)
  have "(\<forall>j < length ?ks. ?ks ! j + j < ?n) \<longleftrightarrow> (\<forall>k \<in> set ?ks. k \<le> ?n - length ?ks)"
  proof
    assume safe: "\<forall>j < length ?ks. ?ks ! j + j < ?n"
    show "\<forall>k \<in> set ?ks. k \<le> ?n - length ?ks"
    proof
      fix k assume "k \<in> set ?ks"
      then obtain j where j: "j < length ?ks" "?ks ! j = k" by (auto simp: in_set_conv_nth)
      let ?l = "length ?ks - 1"
      have "?ks ! j \<le> ?ks ! ?l" using j by (intro sorted_nth_mono) auto
      moreover have "?ks ! ?l + ?l < ?n" by (rule safe [rule_format]) (use j in auto)
      ultimately show "k \<le> ?n - length ?ks" using j by linarith
    qed
  next
    assume small: "\<forall>k \<in> set ?ks. k \<le> ?n - length ?ks"
    show "\<forall>j < length ?ks. ?ks ! j + j < ?n"
    proof (intro allI impI)
      fix j assume j: "j < length ?ks"
      with small have "?ks ! j \<le> ?n - length ?ks" by auto
      with j le_n show "?ks ! j + j < ?n" by linarith
    qed
  qed
  moreover have "(\<forall>k \<in> set ?ks. k \<le> ?n - length ?ks) \<longleftrightarrow>
      (\<forall>i < ?n. ?n - length (filter P xs) < i \<longrightarrow> \<not> P (xs ! i))"
    unfolding length_hits using in_iff by (meson not_less)
  ultimately show ?thesis
    unfolding swap_delete_panics_iff not_not by (rule trans)
qed

lemma dead_chans_hits:
  "dead_chans w = hits (\<lambda>i. ctx_Err (w_ctxs w) (rc_ctx (w_chans w ! i)) \<noteq> None) (ps_rcChan w)"
  by (simp add: dead_chans_def hits_def)

section \<open>The table of connections\<close>

lemma GetProxy_iff [simp]:
  "GetProxy i w = Inr r \<longleftrightarrow> ps_connections w i = Some r"
  "GetProxy i w = Inl e \<longleftrightarrow> ps_connections w i = None \<and> e = ErrNew ''proxy not found''"
  by (auto simp: GetProxy_def split: option.splits)

lemma delete_keys_result:
  "delete_keys ks w = Some v \<Longrightarrow>
   v = w\<lparr>ps_connections := (ps_connections w) |` (- set ks), ps_wg := ps_wg w - int (length ks)\<rparr>"
proof (induction ks w rule: delete_keys.induct)
  case (2 k ks w)
  then show ?case
    by (simp add: restrict_insert fun_upd_def algebra_simps split: if_splits)
qed (simp add: restrict_map_def)

lemma delete_keys_no_panic:
  "int (length ks) \<le> ps_wg w \<Longrightarrow> \<exists>v. delete_keys ks w = Some v"
  by (induction ks w rule: delete_keys.induct) auto

lemma dead_keys_set:
  "set (dead_keys ks w) = {k \<in> set ks. \<exists>r. ps_connections w k = Some r \<and> \<not> pc_IsAlive w r}"
  by (auto simp: dead_keys_def split: option.splits)

lemma close_chans_frame:
  "close_chans is w = Some v \<Longrightarrow> w_pcs v = w_pcs w \<and> spawner_same w v \<and>
     ps_sendCallback v = ps_sendCallback w \<and> ps_callbackCtx v = ps_callbackCtx w \<and>
     ps_callbackCancel v = ps_callbackCancel w \<and> ps_totalSent v = ps_totalSent w \<and>
     ctx_le (w_ctxs w) (w_ctxs v) \<and> length (w_chans v) = length (w_chans w) \<and>
     (\<forall>j. rc_ctx (w_chans v ! j) = rc_ctx (w_chans w ! j)) \<and>
     (ctx_wf (w_ctxs w) \<longrightarrow> ctx_wf (w_ctxs v))"
proof (induction "is" w rule: close_chans.induct)
  case (2 i "is" w)
  let ?w1 = "w_cancel (rc_ctx (w_chans w ! i)) None w"
  let ?w2 = "?w1\<lparr>w_chans := (w_chans w)[i := (w_chans w ! i)\<lparr>rc_closed := True\<rparr>]\<rparr>"
  from "2.prems" have open_i: "\<not> rc_closed (w_chans w ! i)" and rec: "close_chans is ?w2 = Some v"
    by (auto simp: Let_def split: if_splits)
  have IH: "close_chans is ?w2 = Some v \<Longrightarrow> w_pcs v = w_pcs ?w2 \<and> spawner_same ?w2 v \<and>
     ps_sendCallback v = ps_sendCallback ?w2 \<and> ps_callbackCtx v = ps_callbackCtx ?w2 \<and>
     ps_callbackCancel v = ps_callbackCancel ?w2 \<and> ps_totalSent v = ps_totalSent ?w2 \<and>
     ctx_le (w_ctxs ?w2) (w_ctxs v) \<and> length (w_chans v) = length (w_chans ?w2) \<and>
     (\<forall>j. rc_ctx (w_chans v ! j) = rc_ctx (w_chans ?w2 ! j)) \<and>
     (ctx_wf (w_ctxs ?w2) \<longrightarrow> ctx_wf (w_ctxs v))"
    using "2.IH" [of ?w1 "w_chans w ! i"] open_i by simp
  have keep: "rc_ctx ((w_chans w)[i := (w_chans w ! i)\<lparr>rc_closed := True\<rparr>] ! j) = rc_ctx (w_chans w ! j)" for j
    by (cases "i < length (w_chans w)"; cases "i = j") (auto simp: list_update_beyond)
  have le: "ctx_le (w_ctxs w) (w_ctxs ?w2)" by simp
  have "ctx_le (w_ctxs w) (w_ctxs v)" using le IH [OF rec] by (blast intro: ctx_le_trans)
  moreover have "ctx_wf (w_ctxs w) \<longrightarrow> ctx_wf (w_ctxs v)"
    using IH [OF rec] by (simp add: cancel_cause_wf)
  moreover have "spawner_same w v" using IH [OF rec] by (simp add: spawner_same_def)
  ultimately show ?case using IH [OF rec] keep by simp
qed simp

end
