(* ===== verification/SpawnerInv.thy ===== *)
theory SpawnerInv
  imports SpawnerFacts
begin

text \<open>
  The invariant of the spawner and everything it owns, the relation of its steps (one rule for
  each operation some goroutine may perform, in any order), and the proof that every reachable
  state satisfies the invariant.
\<close>

section \<open>The invariant\<close>

definition inv_ctx :: "'e world \<Rightarrow> bool" where
  "inv_ctx w \<longleftrightarrow> ctx_wf (w_ctxs w) \<and> ps_context w < length (w_ctxs w)"

text \<open>Every connection is a container that knows its own id, and ids were handed out in order.\<close>

definition inv_conns :: "'e world \<Rightarrow> bool" where
  "inv_conns w \<longleftrightarrow>
     finite (dom (ps_connections w)) \<and>
     (\<forall>i r. ps_connections w i = Some r \<longrightarrow>
        r < length (w_pcs w) \<and> pc_id (w_pcs w ! r) = i \<and> i < ps_currentId w)"

text \<open>Every container's context hangs below the spawner's.\<close>

definition inv_pcs :: "'e world \<Rightarrow> bool" where
  "inv_pcs w \<longleftrightarrow>
     (\<forall>r < length (w_pcs w).
        px_ok (pc_px (w_pcs w ! r)) \<and> pc_ctx (w_pcs w ! r) < length (w_ctxs w) \<and>
        ctx_under (w_ctxs w) (ps_context w) (pc_ctx (w_pcs w ! r)))"

text \<open>A closed channel has a dead context, so nobody sends on it.\<close>

definition inv_chans :: "'e world \<Rightarrow> bool" where
  "inv_chans w \<longleftrightarrow>
     distinct (ps_rcChan w) \<and> (\<forall>i \<in> set (ps_rcChan w). i < length (w_chans w)) \<and>
     (\<forall>i < length (w_chans w).
        rc_ctx (w_chans w ! i) < length (w_ctxs w) \<and>
        (rc_closed (w_chans w ! i) \<longrightarrow> Cause (w_ctxs w) (rc_ctx (w_chans w ! i)) \<noteq> None))"

text \<open>A filter callback comes with its context and its cancel function.\<close>

definition inv_cb :: "'e world \<Rightarrow> bool" where
  "inv_cb w \<longleftrightarrow>
     (ps_sendCallback w \<noteq> None \<longrightarrow> ps_callbackCtx w \<noteq> None) \<and>
     ps_callbackCancel w = ps_callbackCtx w \<and>
     (\<forall>c. ps_callbackCtx w = Some c \<longrightarrow> c < length (w_ctxs w)) \<and>
     (\<forall>cb. ps_sendCallback w = Some cb \<longrightarrow> send_cb_ok cb) \<and>
     (\<forall>cb. ps_errorCallback w = Some cb \<longrightarrow> err_cb_ok cb)"

text \<open>What the wait group counts: connections in the table, listeners, and the pruner for ever.\<close>

definition inv_wg :: "'e world \<Rightarrow> bool" where
  "inv_wg w \<longleftrightarrow>
     ps_wg w = int (card (dom (ps_connections w))) + int (w_listeners w) +
               (if w_pruner w = PrunerNotRun then 0 else 1)"

definition sp_inv :: "'e world \<Rightarrow> bool" where
  "sp_inv w \<longleftrightarrow> inv_ctx w \<and> inv_conns w \<and> inv_pcs w \<and> inv_chans w \<and> inv_cb w \<and> inv_wg w"

lemma sp_invD:
  assumes "sp_inv w"
  shows "inv_ctx w" "inv_conns w" "inv_pcs w" "inv_chans w" "inv_cb w" "inv_wg w"
  using assms by (simp_all add: sp_inv_def)

lemmas inv_defs = inv_ctx_def inv_conns_def inv_pcs_def inv_chans_def inv_cb_def inv_wg_def

section \<open>Changes that cannot hurt\<close>

text \<open>Letting the context store grow.\<close>

lemma sp_inv_grow:
  assumes "sp_inv w" "ctx_wf \<sigma>" "ctx_le (w_ctxs w) \<sigma>"
  shows "sp_inv (w\<lparr>w_ctxs := \<sigma>\<rparr>)"
proof -
  have len: "c < length (w_ctxs w) \<Longrightarrow> c < length \<sigma>" for c
    using assms(3) by (rule ctx_le_length)
  have "inv_ctx (w\<lparr>w_ctxs := \<sigma>\<rparr>)" "inv_conns (w\<lparr>w_ctxs := \<sigma>\<rparr>)"
      "inv_cb (w\<lparr>w_ctxs := \<sigma>\<rparr>)" "inv_wg (w\<lparr>w_ctxs := \<sigma>\<rparr>)"
    using assms(1,2) len by (auto simp: sp_inv_def inv_defs)
  moreover have "inv_pcs (w\<lparr>w_ctxs := \<sigma>\<rparr>)"
    using assms(1) len ctx_under_mono [OF _ assms(3)] by (auto simp: sp_inv_def inv_pcs_def)
  moreover have "inv_chans (w\<lparr>w_ctxs := \<sigma>\<rparr>)"
    using assms(1) len ctx_le_dead [OF assms(3)] by (simp add: sp_inv_def inv_chans_def)
  ultimately show ?thesis by (simp add: sp_inv_def)
qed

text \<open>Fields the invariant does not read.\<close>

lemma sp_inv_unread [simp]:
  "sp_inv (w\<lparr>ps_totalSent := n\<rparr>) = sp_inv w"
  "sp_inv (w\<lparr>w_env := e\<rparr>) = sp_inv w"
  "sp_inv (w\<lparr>w_now := t\<rparr>) = sp_inv w"
  by (simp_all add: sp_inv_def inv_defs)

lemma sp_inv_w_put:
  assumes "sp_inv w" "ext_respects f" "x = f (w_ext w)"
  shows "sp_inv (w_put x w)"
proof -
  have "ctx_wf (w_ctxs w)" using assms(1) by (simp add: sp_inv_def inv_ctx_def)
  from ext_respectsD [OF assms(2) this] assms(1,3) have "sp_inv (w\<lparr>w_ctxs := fst x\<rparr>)"
    by (auto intro: sp_inv_grow)
  then have "sp_inv (w\<lparr>w_ctxs := fst x\<rparr>\<lparr>w_env := snd x\<rparr>)" by (simp only: sp_inv_unread)
  then show ?thesis by (simp add: w_put_def)
qed

lemma sp_inv_w_cancel: "sp_inv w \<Longrightarrow> sp_inv (w_cancel c e w)"
  unfolding w_cancel_def
  by (rule sp_inv_grow) (auto simp: sp_inv_def inv_ctx_def cancel_cause_wf)

lemma sp_inv_chans_same:
  assumes "sp_inv w" "length chans = length (w_chans w)"
    and "\<And>j. rc_ctx (chans ! j) = rc_ctx (w_chans w ! j) \<and> rc_closed (chans ! j) = rc_closed (w_chans w ! j)"
  shows "sp_inv (w\<lparr>w_chans := chans\<rparr>)"
proof -
  have "inv_chans (w\<lparr>w_chans := chans\<rparr>)"
    using assms by (simp add: sp_inv_def inv_chans_def)
  with assms(1) show ?thesis by (simp add: sp_inv_def inv_defs)
qed

lemma sp_inv_pcs_same:
  assumes "sp_inv w" "length pcs = length (w_pcs w)"
    and "\<And>j. pc_ctx (pcs ! j) = pc_ctx (w_pcs w ! j) \<and> pc_px (pcs ! j) = pc_px (w_pcs w ! j) \<and> pc_id (pcs ! j) = pc_id (w_pcs w ! j)"
  shows "sp_inv (w\<lparr>w_pcs := pcs\<rparr>)"
proof -
  have "inv_pcs (w\<lparr>w_pcs := pcs\<rparr>)" "inv_conns (w\<lparr>w_pcs := pcs\<rparr>)"
    using assms by (simp_all add: sp_inv_def inv_pcs_def inv_conns_def)
  with assms(1) show ?thesis by (simp add: sp_inv_def inv_ctx_def inv_chans_def inv_cb_def inv_wg_def)
qed

section \<open>The operations keep the invariant\<close>

lemma HandleError_inv:
  assumes "sp_inv w"
  shows "sp_inv (HandleError e p w)"
proof (cases "ps_errorCallback w")
  case (Some cb)
  with assms have "err_cb_ok cb" by (simp add: sp_inv_def inv_cb_def)
  with assms have "sp_inv (w_put (cb e (map_option (pc_view w) p) (w_ext w)) w)"
    by (intro sp_inv_w_put [where f = "cb e (map_option (pc_view w) p)"]) (simp_all add: err_cb_ok_def)
  with Some show ?thesis by (simp add: HandleError_def)
qed (use assms in \<open>simp add: HandleError_def\<close>)

lemma free_callback_inv:
  assumes "sp_inv w" "free_callback w = Some v"
  shows "sp_inv v"
proof -
  from assms(2) obtain c where
    "v = (w_cancel c None w)\<lparr>ps_callbackCancel := None, ps_callbackCtx := None, ps_sendCallback := None\<rparr>"
    by (auto simp: free_callback_def split: option.splits)
  with sp_inv_w_cancel [OF assms(1)] show ?thesis by (simp add: sp_inv_def inv_defs)
qed

lemma run_sendCallback_inv:
  assumes "sp_inv w" "run_sendCallback d f r w = Some (b, v)"
  shows "sp_inv v"
proof (cases "ps_sendCallback w")
  case (Some cb)
  with assms(1) obtain c where c: "ps_callbackCtx w = Some c" and ok: "send_cb_ok cb"
    by (auto simp: sp_inv_def inv_cb_def)
  show ?thesis
  proof (cases "ctx_Err (w_ctxs w) c")
    case None
    with assms(2) Some c have "v = w_put (snd (cb d f (pc_view w r) (w_ext w))) w"
      by (auto simp: run_sendCallback_def split: prod.splits)
    moreover have "sp_inv (w_put (snd (cb d f (pc_view w r) (w_ext w))) w)"
      using assms(1) ok by (intro sp_inv_w_put [where f = "\<lambda>x. snd (cb d f (pc_view w r) x)"]) (simp_all add: send_cb_ok_def)
    ultimately show ?thesis by simp
  next
    case Some
    with assms c \<open>ps_sendCallback w = Some cb\<close> show ?thesis
      by (auto simp: run_sendCallback_def Option.bind_eq_Some_conv intro: free_callback_inv)
  qed
qed (use assms in \<open>simp add: run_sendCallback_def\<close>)

lemma HandleSend_inv:
  assumes "sp_inv w" "HandleSend d f r w = Some (b, v)"
  shows "sp_inv v"
  using assms(2)
proof (cases rule: HandleSend_cases)
  case dropped
  from run_sendCallback_inv [OF _ dropped(2)] assms(1) show ?thesis by simp
next
  case (passed w1 chans)
  from run_sendCallback_inv [OF _ passed(2)] assms(1) have "sp_inv w1" by simp
  then show ?thesis
    unfolding passed(4) using passed(3) send_to_chans_length send_to_chans_ctx_closed
    by (intro sp_inv_chans_same) blast+
qed

lemma pc_account_inv:
  assumes "sp_inv w"
  shows "sp_inv (pc_account r d w)"
  unfolding pc_account_def
proof (rule sp_inv_pcs_same [OF assms])
  fix j
  let ?pc = "(w_pcs w ! r)\<lparr>pc_lastContactTime := w_now w, pc_bytesSent := pc_bytesSent (w_pcs w ! r) + of_nat (length d)\<rparr>"
  show "pc_ctx ((w_pcs w)[r := ?pc] ! j) = pc_ctx (w_pcs w ! j) \<and>
      pc_px ((w_pcs w)[r := ?pc] ! j) = pc_px (w_pcs w ! j) \<and>
      pc_id ((w_pcs w)[r := ?pc] ! j) = pc_id (w_pcs w ! j)"
    by (cases "r < length (w_pcs w)"; cases "r = j") (simp_all add: list_update_beyond)
qed simp

lemma after_send_inv:
  assumes "sp_inv w" "ext_respects f" "snd res = f (w_ext w)"
  shows "sp_inv (pc_after_send HandleError r d res w)"
  using sp_inv_w_put [OF assms]
  by (auto simp: pc_after_send_def intro: HandleError_inv pc_account_inv split: option.splits)

lemma sends_inv:
  assumes "sends HandleSend HandleError r d w v" "sp_inv w" "r < length (w_pcs w)"
  shows "sp_inv v"
  using assms(1)
proof cases
  case (sends_toServer f w1)
  have w1: "sp_inv w1" "w_pcs w1 = w_pcs w"
    using sends_toServer assms(2) by (auto intro: HandleSend_inv dest: HandleSend_frame)
  with assms(3) have "px_ok (pc_px (w_pcs w1 ! r))" by (simp add: sp_inv_def inv_pcs_def)
  then show ?thesis
    unfolding sends_toServer(2)
    by (intro after_send_inv [where f = "\<lambda>x. snd (px_SendToServer (pc_px (w_pcs w1 ! r)) d x)"] w1)
      (simp_all add: px_ok_def)
next
  case (sends_toClient f w1)
  have w1: "sp_inv w1" "w_pcs w1 = w_pcs w"
    using sends_toClient assms(2) by (auto intro: HandleSend_inv dest: HandleSend_frame)
  with assms(3) have "px_ok (pc_px (w_pcs w1 ! r))" by (simp add: sp_inv_def inv_pcs_def)
  then show ?thesis
    unfolding sends_toClient(2)
    by (intro after_send_inv [where f = "\<lambda>x. snd (px_SendToClient (pc_px (w_pcs w1 ! r)) d x)"] w1)
      (simp_all add: px_ok_def)
qed (use assms(2) in \<open>auto intro: HandleSend_inv\<close>)

lemma send_all_keeps:
  assumes send: "\<And>r w e v. P w \<Longrightarrow> r < length (w_pcs w) \<Longrightarrow> send r w = Some (e, v) \<Longrightarrow> P v"
    and conns: "\<And>w. P w \<Longrightarrow> inv_conns w"
  shows "send_all send ks fe w = Some (e, v) \<Longrightarrow> P w \<Longrightarrow> P v"
proof (induction ks arbitrary: fe w)
  case (Cons k ks)
  show ?case
  proof (cases "ps_connections w k")
    case None
    with Cons show ?thesis by simp
  next
    case (Some r)
    with conns [OF Cons.prems(2)] have r: "r < length (w_pcs w)" by (auto simp: inv_conns_def)
    show ?thesis
    proof (cases "pc_IsAlive w r")
      case True
      with Some Cons.prems(1) obtain e1 w1 fe1 where "send r w = Some (e1, w1)"
          "send_all send ks fe1 w1 = Some (e, v)"
        by (auto simp: Option.bind_eq_Some_conv)
      with Cons send r show ?thesis by blast
    next
      case False
      with Some Cons show ?thesis by simp
    qed
  qed
qed simp

section \<open>Adding connections\<close>

text \<open>What \<open>AddConnection\<close> relies on: the maker builds a container with the id it was given.\<close>

locale CreateIProxyContainer_contract =
  fixes maker :: "'e CreateIProxyContainer"
  assumes made: "sp_inv w \<Longrightarrow> px_ok px \<Longrightarrow> maker px i w = (Inr r, v) \<Longrightarrow>
      r < length (w_pcs v) \<and> pc_id (w_pcs v ! r) = i"
    and maker_inv: "sp_inv w \<Longrightarrow> px_ok px \<Longrightarrow> maker px i w = (res, v) \<Longrightarrow> sp_inv v"
    and maker_same: "maker px i w = (res, v) \<Longrightarrow> spawner_same w v"
begin

lemma AddConnection_ok:
  assumes "sp_inv w" "px_ok px" "AddConnection maker px w = (Inr r, v)"
  obtains w1 where "maker px (ps_currentId w) w = (Inr r, w1)"
    and "v = w1\<lparr>ps_currentId := ps_currentId w + 1,
                ps_connections := (ps_connections w)(ps_currentId w \<mapsto> r), ps_wg := ps_wg w + 1\<rparr>"
  using assms maker_same
  by (auto simp: AddConnection_def Let_def spawner_same_def split: option.splits prod.splits sum.splits)

lemma AddConnection_inv:
  assumes "sp_inv w" "px_ok px" "ps_currentId w \<noteq> - 1" "AddConnection maker px w = (res, v)"
  shows "sp_inv v"
proof (cases res)
  case (Inl e)
  with assms(4) consider "v = w"
    | w1 where "maker px (ps_currentId w) w = (Inl e, w1)" "v = HandleError e None w1"
    by (auto simp: AddConnection_def Let_def split: option.splits prod.splits sum.splits)
  then show ?thesis using assms(1,2) by cases (auto intro: HandleError_inv maker_inv)
next
  case (Inr r)
  with assms obtain w1 where m: "maker px (ps_currentId w) w = (Inr r, w1)"
    and v: "v = w1\<lparr>ps_currentId := ps_currentId w + 1,
                ps_connections := (ps_connections w)(ps_currentId w \<mapsto> r), ps_wg := ps_wg w + 1\<rparr>"
    by (auto elim: AddConnection_ok)
  have inv1: "sp_inv w1" and same: "spawner_same w w1"
    using m assms(1,2) maker_inv maker_same by blast+
  have r: "r < length (w_pcs w1)" "pc_id (w_pcs w1 ! r) = ps_currentId w"
    using made [OF assms(1,2) m] by auto
  have next_id: "i < ps_currentId w + 1 \<longleftrightarrow> i \<le> ps_currentId w" for i
    using unat_plus_1_no_wrap [OF assms(3)] by (simp add: word_less_nat_alt word_le_nat_alt less_Suc_eq_le)
  have fresh: "ps_connections w (ps_currentId w) = None"
    using assms(1) by (cases "ps_connections w (ps_currentId w)") (auto simp: sp_inv_def inv_conns_def)
  have old: "ps_connections w1 = ps_connections w" "ps_currentId w1 = ps_currentId w" "ps_wg w1 = ps_wg w"
    using same by (simp_all add: spawner_same_def)
  have "inv_conns v"
    using inv1 r old v by (auto simp: sp_inv_def inv_conns_def next_id intro: order.strict_implies_order)
  moreover have "inv_wg v"
    using inv1 fresh old v by (auto simp: sp_inv_def inv_wg_def inv_conns_def card_dom_insert card_insert_if domIff)
  moreover have "inv_ctx v" "inv_pcs v" "inv_chans v" "inv_cb v"
    using inv1 v by (simp_all add: sp_inv_def inv_ctx_def inv_pcs_def inv_chans_def inv_cb_def)
  ultimately show ?thesis by (simp add: sp_inv_def)
qed

end

lemma NewProxyContainer_cases:
  assumes "NewProxyContainer px i w = (res, v)" "alloc_container px i w = (c, w1)"
  obtains (ok) "res = Inr (length (w_pcs w))" "v = w_put (snd (px_Init px c (w_ext w1))) w1"
  | (failed) e where "res = Inl e" "fst (px_Init px c (w_ext w1)) = Some e"
      "v = w_cancel c (Some (ErrorfV ''failed to initialize: '' e)) (w_put (snd (px_Init px c (w_ext w1))) w1)"
  using assms by (auto simp: NewProxyContainer_def Let_def split: prod.splits option.splits)

lemma alloc_container_facts:
  assumes "alloc_container px i w = (c, w1)"
  shows "c = length (w_ctxs w)" "spawner_same w w1" "length (w_pcs w1) = Suc (length (w_pcs w))"
    "pc_id (w_pcs w1 ! length (w_pcs w)) = i" "pc_ctx (w_pcs w1 ! length (w_pcs w)) = c"
    "\<And>r. r < length (w_pcs w) \<Longrightarrow> w_pcs w1 ! r = w_pcs w ! r"
  using assms by (auto simp: alloc_container_def WithCancelCause_def spawner_same_def nth_append)

lemma alloc_container_inv:
  assumes "sp_inv w" "px_ok px" "alloc_container px i w = (c, w1)"
  shows "sp_inv w1"
proof -
  let ?\<sigma> = "snd (WithCancelCause (Some (ps_context w)) (w_ctxs w))"
  have ctx: "ctx_wf (w_ctxs w)" "ps_context w < length (w_ctxs w)"
    using assms(1) by (auto simp: sp_inv_def inv_ctx_def)
  have new: "WithCancelCause (Some (ps_context w)) (w_ctxs w) = (length (w_ctxs w), ?\<sigma>)"
    by (simp add: WithCancelCause_def)
  have w1: "w1 = w\<lparr>w_ctxs := ?\<sigma>, w_pcs := w_pcs w @ [\<lparr>pc_ctx = length (w_ctxs w), pc_px = px,
      pc_id = i, pc_bytesSent = 0, pc_lastContactTime = 0\<rparr>]\<rparr>"
    using assms(3) by (auto simp: alloc_container_def WithCancelCause_def)
  have le: "ctx_le (w_ctxs w) ?\<sigma>" using new by (rule WithCancelCause_le)
  have wf: "ctx_wf ?\<sigma>" by (rule WithCancelCause_wf [OF new ctx(1)]) (simp add: ctx(2))
  have \<sigma>: "length ?\<sigma> = Suc (length (w_ctxs w))" "ctx_parent (?\<sigma> ! length (w_ctxs w)) = Some (ps_context w)"
    by (simp_all add: WithCancelCause_def)
  have under: "ctx_under ?\<sigma> (ps_context w) (length (w_ctxs w))"
    by (rule ctx_under_parent [of _ _ "ps_context w"]) (simp_all add: \<sigma> ctx(2))
  have inv: "sp_inv (w\<lparr>w_ctxs := ?\<sigma>\<rparr>)" using assms(1) wf le by (rule sp_inv_grow)
  then have "inv_pcs w1"
    using assms(2) under \<sigma>(1) by (simp add: w1 sp_inv_def inv_pcs_def nth_append less_Suc_eq)
  moreover from inv have "inv_conns w1"
    by (auto simp: w1 sp_inv_def inv_conns_def nth_append intro: less_SucI)
  ultimately show ?thesis
    using inv by (simp add: w1 sp_inv_def inv_ctx_def inv_chans_def inv_cb_def inv_wg_def)
qed

interpretation container: CreateIProxyContainer_contract NewProxyContainer
proof
  fix w v :: "'a world" and px i r
  assume "NewProxyContainer px i w = (Inr r, v)"
  moreover obtain c w1 where a: "alloc_container px i w = (c, w1)" by fastforce
  ultimately have "r = length (w_pcs w)" "w_pcs v = w_pcs w1"
    by (auto elim: NewProxyContainer_cases)
  with alloc_container_facts [OF a] show "r < length (w_pcs v) \<and> pc_id (w_pcs v ! r) = i" by simp
next
  fix w v :: "'a world" and px i res
  assume w: "sp_inv w" "px_ok px" and n: "NewProxyContainer px i w = (res, v)"
  obtain c w1 where a: "alloc_container px i w = (c, w1)" by fastforce
  have "sp_inv (w_put (snd (px_Init px c (w_ext w1))) w1)"
    using alloc_container_inv [OF w a] w(2)
    by (intro sp_inv_w_put [where f = "\<lambda>x. snd (px_Init px c x)"]) (simp_all add: px_ok_def)
  then show "sp_inv v"
    using n a by (auto elim!: NewProxyContainer_cases intro: sp_inv_w_cancel)
next
  fix w v :: "'a world" and px i res
  assume n: "NewProxyContainer px i w = (res, v)"
  obtain c w1 where a: "alloc_container px i w = (c, w1)" by fastforce
  have "spawner_same w w1" using a by (rule alloc_container_facts)
  with n a show "spawner_same w v"
    by (auto elim!: NewProxyContainer_cases simp: spawner_same_def)
qed

section \<open>The other operations\<close>

lemma pc_Cancel_inv: "sp_inv w \<Longrightarrow> sp_inv (pc_Cancel r e w)"
  by (simp add: pc_Cancel_def sp_inv_w_cancel)

lemma CloseProxy_inv: "sp_inv w \<Longrightarrow> CloseProxy i w = (e, v) \<Longrightarrow> sp_inv v"
  by (auto simp: CloseProxy_def pc_Cancel_inv split: sum.splits)

lemma set_callback_inv:
  assumes "sp_inv w"
    and "\<And>p. parent = Some p \<Longrightarrow> p < length (w_ctxs w)" "\<And>f. cb = Some f \<Longrightarrow> send_cb_ok f"
  shows "sp_inv (set_callback cb parent w)"
proof -
  obtain c \<sigma> where new: "WithCancelCause parent (w_ctxs w) = (c, \<sigma>)" by fastforce
  have "ctx_wf \<sigma>" using assms(1,2) by (intro WithCancelCause_wf [OF new]) (auto simp: sp_inv_def inv_ctx_def)
  then have "sp_inv (w\<lparr>w_ctxs := \<sigma>\<rparr>)"
    using assms(1) WithCancelCause_le [OF new] by (auto intro: sp_inv_grow)
  moreover have "c < length \<sigma>" using new by (auto simp: WithCancelCause_def)
  ultimately show ?thesis using assms(3) by (simp add: set_callback_def new sp_inv_def inv_defs)
qed

lemma TrySetFilterCallback_cases:
  assumes "TrySetFilterCallback cb parent w = Some (e, v)"
  obtains (busy) c where "v = w" "e = Some (ErrNew ''callback already exists'')"
      "ps_callbackCtx w = Some c" "ctx_Err (w_ctxs w) c = None"
  | (set) w1 where "e = None" "v = set_callback cb parent w1"
      "ps_callbackCtx w = None \<and> w1 = w \<or>
       (\<exists>c. ps_callbackCtx w = Some c \<and> ctx_Err (w_ctxs w) c \<noteq> None) \<and> free_callback w = Some w1"
  using assms
  by (auto simp: TrySetFilterCallback_def Option.bind_eq_Some_conv split: option.splits if_splits)

lemma TrySetFilterCallback_inv:
  assumes "sp_inv w" "TrySetFilterCallback cb parent w = Some (e, v)"
    and "\<And>p. parent = Some p \<Longrightarrow> p < length (w_ctxs w)" "\<And>f. cb = Some f \<Longrightarrow> send_cb_ok f"
  shows "sp_inv v"
  using assms(2)
proof (cases rule: TrySetFilterCallback_cases)
  case (set w1)
  have "sp_inv w1" using set(3) assms(1) by (auto intro: free_callback_inv)
  moreover have "length (w_ctxs w1) = length (w_ctxs w)"
    using set(3) by (auto simp: free_callback_def split: option.splits)
  ultimately show ?thesis
    unfolding set(2) using assms(3,4) by (intro set_callback_inv) auto
qed (use assms(1) in simp)

lemma SetErrorCallback_inv: "sp_inv w \<Longrightarrow> (\<And>f. cb = Some f \<Longrightarrow> err_cb_ok f) \<Longrightarrow> sp_inv (SetErrorCallback cb w)"
  by (simp add: SetErrorCallback_def sp_inv_def inv_defs)

lemma GetRecvChan_inv:
  assumes "sp_inv w" "GetRecvChan parent w = (i, v)" "\<And>p. parent = Some p \<Longrightarrow> p < length (w_ctxs w)"
  shows "sp_inv v"
proof -
  obtain c \<sigma> where new: "WithCancelCause parent (w_ctxs w) = (c, \<sigma>)" by fastforce
  have "ctx_wf \<sigma>" using assms(1,3) by (intro WithCancelCause_wf [OF new]) (auto simp: sp_inv_def inv_ctx_def)
  then have inv: "sp_inv (w\<lparr>w_ctxs := \<sigma>\<rparr>)"
    using assms(1) WithCancelCause_le [OF new] by (auto intro: sp_inv_grow)
  have v: "v = w\<lparr>w_ctxs := \<sigma>,
      w_chans := w_chans w @ [\<lparr>rc_ctx = c, rc_closed = False, rc_parked = 0, rc_got = []\<rparr>],
      ps_rcChan := ps_rcChan w @ [length (w_chans w)]\<rparr>"
    using assms(2) new by (auto simp: GetRecvChan_def Let_def)
  have "c < length \<sigma>" using new by (auto simp: WithCancelCause_def)
  with inv have "inv_chans v"
    by (fastforce simp: v sp_inv_def inv_chans_def nth_append less_Suc_eq)
  with inv show ?thesis by (simp add: v sp_inv_def inv_ctx_def inv_conns_def inv_pcs_def inv_cb_def inv_wg_def)
qed

lemma park_reader_inv: "sp_inv w \<Longrightarrow> sp_inv (park_reader i w)"
  unfolding park_reader_def
proof (rule sp_inv_chans_same)
  fix j
  let ?v = "(w_chans w ! i)\<lparr>rc_parked := Suc (rc_parked (w_chans w ! i))\<rparr>"
  show "rc_ctx ((w_chans w)[i := ?v] ! j) = rc_ctx (w_chans w ! j) \<and> rc_closed ((w_chans w)[i := ?v] ! j) = rc_closed (w_chans w ! j)"
    by (cases "i < length (w_chans w)"; cases "i = j") (simp_all add: list_update_beyond)
qed auto

text \<open>A range loop visits every key once.\<close>

definition range_order :: "goint list \<Rightarrow> (goint \<rightharpoonup> 'v) \<Rightarrow> bool" where
  "range_order ks m \<longleftrightarrow> distinct ks \<and> set ks = dom m"

lemma dead_keys_distinct: "distinct ks \<Longrightarrow> distinct (dead_keys ks w)"
  by (simp add: dead_keys_def)

lemma delete_keys_inv:
  assumes "sp_inv w" "distinct ks" "set ks \<subseteq> dom (ps_connections w)" "delete_keys ks w = Some v"
  shows "sp_inv v"
proof -
  have v: "v = w\<lparr>ps_connections := (ps_connections w) |` (- set ks), ps_wg := ps_wg w - int (length ks)\<rparr>"
    using assms(4) by (rule delete_keys_result)
  have fin: "finite (dom (ps_connections w))" using assms(1) by (simp add: sp_inv_def inv_conns_def)
  have "card (dom (ps_connections v)) = card (dom (ps_connections w) - set ks)"
    by (simp add: v Diff_eq)
  also have "\<dots> = card (dom (ps_connections w)) - length ks"
    using fin assms(2,3) by (simp add: card_Diff_subset distinct_card)
  finally have card: "card (dom (ps_connections v)) = card (dom (ps_connections w)) - length ks" .
  have "length ks \<le> card (dom (ps_connections w))"
    using card_mono [OF fin assms(3)] assms(2) by (simp add: distinct_card)
  with card assms(1) have "inv_wg v" by (simp add: v sp_inv_def inv_wg_def)
  moreover from assms(1) have "inv_conns v"
    by (auto simp: v sp_inv_def inv_conns_def restrict_map_def split: if_splits)
  ultimately show ?thesis
    using assms(1) by (simp add: v sp_inv_def inv_ctx_def inv_pcs_def inv_chans_def inv_cb_def)
qed

lemma prune_chans_inv:
  assumes "sp_inv w" "prune_chans w = Some v"
  shows "sp_inv v"
proof -
  let ?dead = "\<lambda>i. ctx_Err (w_ctxs w) (rc_ctx (w_chans w ! i)) \<noteq> None"
  from assms(2) obtain rc where rc: "swap_delete (hits ?dead (ps_rcChan w)) (ps_rcChan w) = Some rc"
    and v: "v = w\<lparr>ps_rcChan := rc\<rparr>"
    by (auto simp: prune_chans_def dead_chans_hits Option.bind_eq_Some_conv)
  have m: "mset rc = mset (filter (\<lambda>i. \<not> ?dead i) (ps_rcChan w))"
    using rc by (rule swap_delete_hits_mset)
  have "set rc \<subseteq> set (ps_rcChan w)" using mset_eq_setD [OF m] by auto
  moreover have "distinct rc"
    using mset_eq_imp_distinct_iff [OF m] assms(1) by (simp add: sp_inv_def inv_chans_def)
  ultimately have "inv_chans v" using assms(1) by (auto simp: v sp_inv_def inv_chans_def)
  with assms(1) show ?thesis by (simp add: v sp_inv_def inv_ctx_def inv_conns_def inv_pcs_def inv_cb_def inv_wg_def)
qed

lemma pruner_tick_inv:
  assumes "sp_inv w" "range_order ks (ps_connections w)" "pruner_tick ks w = Some v"
  shows "sp_inv v"
proof -
  from assms(3) obtain w1 where d: "delete_keys (dead_keys ks w) w = Some w1" and p: "prune_chans w1 = Some v"
    by (auto simp: pruner_tick_def Option.bind_eq_Some_conv)
  have "sp_inv w1"
    using assms(1) _ _ d
    by (rule delete_keys_inv) (use assms(2) in \<open>auto simp: range_order_def dead_keys_distinct dead_keys_set\<close>)
  then show ?thesis using p by (rule prune_chans_inv)
qed

lemma close_one_inv:
  assumes "sp_inv w" "i < length (w_chans w)"
  shows "sp_inv ((w_cancel (rc_ctx (w_chans w ! i)) None w)
           \<lparr>w_chans := (w_chans w)[i := (w_chans w ! i)\<lparr>rc_closed := True\<rparr>]\<rparr>)" (is "sp_inv ?v")
proof -
  let ?w1 = "w_cancel (rc_ctx (w_chans w ! i)) None w"
  have inv: "sp_inv ?w1" using assms(1) by (rule sp_inv_w_cancel)
  have "rc_ctx (w_chans w ! i) < length (w_ctxs w)" using assms by (simp add: sp_inv_def inv_chans_def)
  then have "Cause (w_ctxs ?w1) (rc_ctx (w_chans w ! i)) \<noteq> None"
    by (auto simp: Cause_cancel_cause split: option.splits)
  with inv assms(2) have "inv_chans ?v"
    by (auto simp: sp_inv_def inv_chans_def nth_list_update)
  with inv show ?thesis by (simp add: sp_inv_def inv_ctx_def inv_conns_def inv_pcs_def inv_cb_def inv_wg_def)
qed

lemma close_chans_inv:
  "close_chans is w = Some v \<Longrightarrow> sp_inv w \<Longrightarrow> \<forall>i \<in> set is. i < length (w_chans w) \<Longrightarrow> sp_inv v"
proof (induction "is" arbitrary: w)
  case (Cons i "is")
  let ?w2 = "(w_cancel (rc_ctx (w_chans w ! i)) None w)
           \<lparr>w_chans := (w_chans w)[i := (w_chans w ! i)\<lparr>rc_closed := True\<rparr>]\<rparr>"
  from Cons.prems have "close_chans is ?w2 = Some v" by (auto simp: Let_def split: if_splits)
  moreover have "sp_inv ?w2" using Cons.prems by (intro close_one_inv) auto
  ultimately show ?case using Cons.prems(3) by (intro Cons.IH [of ?w2]) simp_all
qed simp

lemma Close_start_inv:
  assumes "sp_inv w" "Close_start w = Some v"
  shows "sp_inv v"
proof -
  from assms(2) obtain w1 where c: "close_chans (ps_rcChan w) w = Some w1"
    and v: "v = w_cancel (ps_context w1) (Some ErrSpawnerClosedOk) w1"
    by (auto simp: Close_start_def Option.bind_eq_Some_conv)
  have "sp_inv w1"
    using c assms(1) by (rule close_chans_inv) (use assms(1) in \<open>simp add: sp_inv_def inv_chans_def\<close>)
  then show ?thesis unfolding v by (rule sp_inv_w_cancel)
qed

section \<open>The steps\<close>

text \<open>
  A listener goroutine joins and leaves the wait group (\<open>wg.Add(1)\<close>, deferred \<open>wg.Done()\<close> in
  \<open>addListener\<close>); what it does in between are other steps.
\<close>

definition listener_begin :: "'e world \<Rightarrow> 'e world" where
  "listener_begin w = w\<lparr>ps_wg := ps_wg w + 1, w_listeners := Suc (w_listeners w)\<rparr>"

definition listener_end :: "'e world \<Rightarrow> 'e world" where
  "listener_end w = w\<lparr>ps_wg := ps_wg w - 1, w_listeners := w_listeners w - 1\<rparr>"

text \<open>
  One rule for each thing that can happen next. Operations that panic have no successor.
  A new connection needs an id: the bound \<open>ps_currentId w \<noteq> -1\<close> says that fewer than
  \<open>2^64 - 1\<close> connections have been made. Outside code may at any time extend the context tree
  and change its own state; a cancelled context, a passing clock and a reader blocking on a
  channel are steps of their own.
\<close>

inductive spawner_step :: "'e world \<Rightarrow> 'e world \<Rightarrow> bool" where
  step_add: "px_ok px \<Longrightarrow> ps_currentId w \<noteq> - 1 \<Longrightarrow>
    AddConnection NewProxyContainer px w = (res, v) \<Longrightarrow> spawner_step w v"
| step_to_client: "r < length (w_pcs w) \<Longrightarrow>
    pc_SendToClient HandleSend HandleError r d w = Some (e, v) \<Longrightarrow> spawner_step w v"
| step_to_server: "r < length (w_pcs w) \<Longrightarrow>
    pc_SendToServer HandleSend HandleError r d w = Some (e, v) \<Longrightarrow> spawner_step w v"
| step_packet: "r < length (w_pcs w) \<Longrightarrow>
    handlePacket_data HandleSend HandleError r p w = Some v \<Longrightarrow> spawner_step w v"
| step_all_clients: "range_order ks (ps_connections w) \<Longrightarrow>
    SendToAllClients ks d w = Some (e, v) \<Longrightarrow> spawner_step w v"
| step_all_servers: "range_order ks (ps_connections w) \<Longrightarrow>
    SendToAllServers ks d w = Some (e, v) \<Longrightarrow> spawner_step w v"
| step_close_proxy: "CloseProxy i w = (e, v) \<Longrightarrow> spawner_step w v"
| step_cancel: "spawner_step w (w_cancel c e w)"
| step_filter: "(\<And>p. parent = Some p \<Longrightarrow> p < length (w_ctxs w)) \<Longrightarrow>
    (\<And>f. cb = Some f \<Longrightarrow> send_cb_ok f) \<Longrightarrow>
    TrySetFilterCallback cb parent w = Some (e, v) \<Longrightarrow> spawner_step w v"
| step_error_cb: "(\<And>f. ecb = Some f \<Longrightarrow> err_cb_ok f) \<Longrightarrow> spawner_step w (SetErrorCallback ecb w)"
| step_recv_chan: "(\<And>p. parent = Some p \<Longrightarrow> p < length (w_ctxs w)) \<Longrightarrow>
    GetRecvChan parent w = (i, v) \<Longrightarrow> spawner_step w v"
| step_reader: "spawner_step w (park_reader i w)"
| step_pruner_begin: "w_pruner w = PrunerNotRun \<Longrightarrow> spawner_step w (pruner_begin w)"
| step_pruner_tick: "w_pruner w = PrunerLoops \<Longrightarrow> range_order ks (ps_connections w) \<Longrightarrow>
    pruner_tick ks w = Some v \<Longrightarrow> spawner_step w v"
| step_pruner_return: "w_pruner w = PrunerLoops \<Longrightarrow> ctx_Err (w_ctxs w) (ps_context w) \<noteq> None \<Longrightarrow>
    spawner_step w (pruner_return w)"
| step_listener_begin: "spawner_step w (listener_begin w)"
| step_listener_end: "0 < w_listeners w \<Longrightarrow> spawner_step w (listener_end w)"
| step_close: "Close_start w = Some v \<Longrightarrow> spawner_step w v"
| step_outside: "ext_respects f \<Longrightarrow> spawner_step w (w_put (f (w_ext w)) w)"
| step_clock: "spawner_step w (w\<lparr>w_now := t\<rparr>)"

text \<open>
  A run starts with a spawner whose goroutines have done nothing yet; what the listeners do before the
  constructor returns are the first steps of the run.
\<close>

inductive spawner_init :: "'e world \<Rightarrow> bool" where
  "ctx_wf \<sigma> \<Longrightarrow> (\<And>p. parent = Some p \<Longrightarrow> p < length \<sigma>) \<Longrightarrow>
   NewProxySpawnerWithContainer server proxy parent n (\<lambda>w. w) \<sigma> e now = Inr w \<Longrightarrow> spawner_init w"

inductive_cases spawner_initE: "spawner_init w"

lemma new_spawner_inv:
  assumes "ctx_wf \<sigma>" "\<And>p. parent = Some p \<Longrightarrow> p < length \<sigma>"
  shows "sp_inv (new_spawner server proxy parent \<sigma> e now)"
proof -
  obtain c \<tau> where t: "WithCancelCause parent \<sigma> = (c, \<tau>)" by fastforce
  have "ctx_wf \<tau>" using t assms by (rule WithCancelCause_wf)
  moreover have "c < length \<tau>" using t by (auto simp: WithCancelCause_def)
  ultimately show ?thesis using t by (simp add: new_spawner_def sp_inv_def inv_defs)
qed

lemma constructor_Inr:
  "NewProxySpawnerWithContainer server proxy parent n early \<sigma> e now = Inr w \<longleftrightarrow>
     n \<noteq> 0 \<and> (addr_Network server, addr_String server) \<noteq> (addr_Network proxy, addr_String proxy) \<and>
     w = early (new_spawner server proxy parent \<sigma> e now) \<and> Cause (w_ctxs w) (ps_context w) = None"
  by (auto simp: NewProxySpawnerWithContainer_def Let_def split: option.splits)

lemma spawner_init_inv: "spawner_init w \<Longrightarrow> sp_inv w"
  by (elim spawner_initE) (simp add: constructor_Inr, blast intro: new_spawner_inv)

lemma send_all_clients_inv: "SendToAllClients ks d w = Some (e, v) \<Longrightarrow> sp_inv w \<Longrightarrow> sp_inv v"
  unfolding SendToAllClients_def
  by (rule send_all_keeps [where P = sp_inv])
    (auto intro: sends_inv sp_invD dest: pc_SendToClient_sends)

lemma send_all_servers_inv: "SendToAllServers ks d w = Some (e, v) \<Longrightarrow> sp_inv w \<Longrightarrow> sp_inv v"
  unfolding SendToAllServers_def
  by (rule send_all_keeps [where P = sp_inv])
    (auto intro: sends_inv sp_invD dest: pc_SendToServer_sends)

lemma goroutine_steps_inv:
  assumes "sp_inv w"
  shows "w_pruner w = PrunerNotRun \<Longrightarrow> sp_inv (pruner_begin w)"
    and "w_pruner w = PrunerLoops \<Longrightarrow> sp_inv (pruner_return w)"
    and "sp_inv (listener_begin w)" and "0 < w_listeners w \<Longrightarrow> sp_inv (listener_end w)"
  using assms
  by (simp_all add: sp_inv_def inv_defs pruner_begin_def pruner_return_def listener_begin_def listener_end_def)

lemma spawner_step_inv: "spawner_step w v \<Longrightarrow> sp_inv w \<Longrightarrow> sp_inv v"
proof (induction rule: spawner_step.induct)
  case (step_add px w res v)
  then show ?case using container.AddConnection_inv by blast
next
  case (step_to_client r w d e v)
  then show ?case by (blast intro: sends_inv pc_SendToClient_sends)
next
  case (step_to_server r w d e v)
  then show ?case by (blast intro: sends_inv pc_SendToServer_sends)
next
  case (step_packet r w p v)
  then show ?case by (blast intro: sends_inv handlePacket_data_sends)
next
  case (step_filter parent w cb e v)
  then show ?case by (blast intro: TrySetFilterCallback_inv)
next
  case (step_recv_chan parent w i v)
  then show ?case by (blast intro: GetRecvChan_inv)
next
  case (step_outside f w)
  then show ?case by (blast intro: sp_inv_w_put)
next
  case (step_error_cb ecb w)
  then show ?case by (blast intro: SetErrorCallback_inv)
next
  case (step_pruner_tick w ks v)
  then show ?case by (blast intro: pruner_tick_inv)
next
  case (step_all_clients ks w d e v)
  then show ?case by (blast intro: send_all_clients_inv)
next
  case (step_all_servers ks w d e v)
  then show ?case by (blast intro: send_all_servers_inv)
next
  case (step_close_proxy i w e v)
  then show ?case by (blast intro: CloseProxy_inv)
next
  case (step_cancel w c e)
  then show ?case by (blast intro: sp_inv_w_cancel)
next
  case (step_reader w i)
  then show ?case by (blast intro: park_reader_inv)
next
  case (step_pruner_begin w)
  then show ?case by (blast intro: goroutine_steps_inv(1))
next
  case (step_pruner_return w)
  then show ?case by (blast intro: goroutine_steps_inv(2))
next
  case (step_listener_begin w)
  then show ?case by (blast intro: goroutine_steps_inv(3))
next
  case (step_listener_end w)
  then show ?case by (blast intro: goroutine_steps_inv(4))
next
  case (step_close w v)
  then show ?case by (blast intro: Close_start_inv)
next
  case (step_clock w t)
  then show ?case by simp
qed

interpretation sp: inductive_invariant spawner_init spawner_step sp_inv
  by unfold_locales (auto intro: spawner_init_inv spawner_step_inv)

end
