(* ===== verification/SpawnerRuns.thy ===== *)
theory SpawnerRuns
  imports SpawnerInv "HOL-Library.Sublist"
begin

text \<open>
  How the state evolves along a run: what no step ever takes back. Identifiers are not handed
  out twice, contexts do not come back to life, containers keep their proxy, a receive channel
  keeps what it was handed and gets nothing once its context is dead, and a pruner that has
  started stays in the wait group.
\<close>

section \<open>The order of states\<close>

definition tables_later :: "'e world \<Rightarrow> 'e world \<Rightarrow> bool" where
  "tables_later w v \<longleftrightarrow>
     ps_context v = ps_context w \<and> ps_serverAddr v = ps_serverAddr w \<and>
     ps_proxyAddr v = ps_proxyAddr w \<and> ps_currentId w \<le> ps_currentId v \<and>
     (\<forall>i < ps_currentId w. ps_connections v i = None \<or> ps_connections v i = ps_connections w i) \<and>
     (w_pruner w \<noteq> PrunerNotRun \<longrightarrow> w_pruner v \<noteq> PrunerNotRun)"

definition pcs_later :: "'e world \<Rightarrow> 'e world \<Rightarrow> bool" where
  "pcs_later w v \<longleftrightarrow>
     length (w_pcs w) \<le> length (w_pcs v) \<and>
     (\<forall>r < length (w_pcs w). pc_ctx (w_pcs v ! r) = pc_ctx (w_pcs w ! r) \<and>
        pc_px (w_pcs v ! r) = pc_px (w_pcs w ! r) \<and> pc_id (w_pcs v ! r) = pc_id (w_pcs w ! r))"

definition chans_later :: "'e world \<Rightarrow> 'e world \<Rightarrow> bool" where
  "chans_later w v \<longleftrightarrow>
     length (w_chans w) \<le> length (w_chans v) \<and>
     (\<forall>i < length (w_chans w).
        rc_ctx (w_chans v ! i) = rc_ctx (w_chans w ! i) \<and>
        (rc_closed (w_chans w ! i) \<longrightarrow> rc_closed (w_chans v ! i)) \<and>
        prefix (rc_got (w_chans w ! i)) (rc_got (w_chans v ! i)) \<and>
        (Cause (w_ctxs w) (rc_ctx (w_chans w ! i)) \<noteq> None \<longrightarrow>
           rc_got (w_chans v ! i) = rc_got (w_chans w ! i)))"

definition w_later :: "'e world \<Rightarrow> 'e world \<Rightarrow> bool" where
  "w_later w v \<longleftrightarrow>
     ctx_le (w_ctxs w) (w_ctxs v) \<and> tables_later w v \<and> pcs_later w v \<and> chans_later w v"

lemma w_laterI:
  "ctx_le (w_ctxs w) (w_ctxs v) \<Longrightarrow> tables_later w v \<Longrightarrow> pcs_later w v \<Longrightarrow> chans_later w v \<Longrightarrow> w_later w v"
  by (simp add: w_later_def)

lemma w_laterD:
  assumes "w_later w v"
  shows "ctx_le (w_ctxs w) (w_ctxs v)" "tables_later w v" "pcs_later w v" "chans_later w v"
  using assms by (simp_all add: w_later_def)

lemma tables_later_trans: "tables_later u v \<Longrightarrow> tables_later v w \<Longrightarrow> tables_later u w"
  unfolding tables_later_def by (metis order.trans order.strict_trans2)

lemma pcs_later_trans: "pcs_later u v \<Longrightarrow> pcs_later v w \<Longrightarrow> pcs_later u w"
  unfolding pcs_later_def by auto

lemma chans_later_trans:
  assumes "chans_later u v" "chans_later v w" "ctx_le (w_ctxs u) (w_ctxs v)"
  shows "chans_later u w"
  unfolding chans_later_def
proof (intro conjI allI impI)
  show "length (w_chans u) \<le> length (w_chans w)" using assms(1,2) by (simp add: chans_later_def)
  fix i
  assume i: "i < length (w_chans u)"
  then have i': "i < length (w_chans v)" using assms(1) by (simp add: chans_later_def)
  note uv = assms(1) [unfolded chans_later_def, THEN conjunct2, rule_format, OF i]
  note vw = assms(2) [unfolded chans_later_def, THEN conjunct2, rule_format, OF i']
  show "rc_ctx (w_chans w ! i) = rc_ctx (w_chans u ! i)" using uv vw by simp
  show "rc_closed (w_chans w ! i)" if "rc_closed (w_chans u ! i)" using that uv vw by simp
  show "prefix (rc_got (w_chans u ! i)) (rc_got (w_chans w ! i))"
    using uv vw by (blast intro: prefix_order.order_trans)
  show "rc_got (w_chans w ! i) = rc_got (w_chans u ! i)"
    if "Cause (w_ctxs u) (rc_ctx (w_chans u ! i)) \<noteq> None"
    using that uv vw ctx_le_dead [OF assms(3) that] by simp
qed

lemma w_later_refl [simp]: "w_later w w"
  by (simp add: w_later_def tables_later_def pcs_later_def chans_later_def)

lemma w_later_trans [trans]: "w_later u v \<Longrightarrow> w_later v w \<Longrightarrow> w_later u w"
  unfolding w_later_def
  by (blast intro: ctx_le_trans tables_later_trans pcs_later_trans chans_later_trans)

section \<open>Building blocks\<close>

lemma spawner_same_tables [simp]: "spawner_same w v \<Longrightarrow> tables_later w v"
  by (simp add: spawner_same_def tables_later_def)

lemma pcs_later_same [simp]: "w_pcs v = w_pcs w \<Longrightarrow> pcs_later w v"
  by (simp add: pcs_later_def)

lemma chans_later_same [simp]: "w_chans v = w_chans w \<Longrightarrow> chans_later w v"
  by (simp add: chans_later_def)

lemma w_later_w_put:
  assumes "sp_inv w" "ext_respects f" "x = f (w_ext w)"
  shows "w_later w (w_put x w)"
  using ext_respectsD(2) [OF assms(2), of w] sp_invD(1) [OF assms(1)] assms(3)
  by (intro w_laterI) (simp_all add: inv_ctx_def)

lemma w_later_w_cancel [simp]: "w_later w (w_cancel c e w)"
  by (intro w_laterI) (simp_all add: spawner_same_def)

lemma w_later_ctxs: "ctx_le (w_ctxs w) \<sigma> \<Longrightarrow> w_later w (w\<lparr>w_ctxs := \<sigma>\<rparr>)"
  by (intro w_laterI) (simp_all add: spawner_same_def)

text \<open>Changing fields that the order does not look at.\<close>

lemma w_later_unread [simp]:
  "w_later w (w\<lparr>ps_totalSent := n\<rparr>)" "w_later w (w\<lparr>w_now := t\<rparr>)"
  "w_later w (w\<lparr>ps_errorCallback := ecb\<rparr>)" "w_later w (w\<lparr>ps_wg := k\<rparr>)"
  "w_later w (w\<lparr>ps_rcChan := is\<rparr>)"
  by (simp_all add: w_later_def tables_later_def pcs_later_def chans_later_def)

section \<open>The operations only move forward\<close>

lemma HandleError_later:
  assumes "sp_inv w"
  shows "w_later w (HandleError e p w)"
proof (cases "ps_errorCallback w")
  case (Some cb)
  with assms have "err_cb_ok cb" by (simp add: sp_inv_def inv_cb_def)
  with assms have "w_later w (w_put (cb e (map_option (pc_view w) p) (w_ext w)) w)"
    by (intro w_later_w_put [where f = "cb e (map_option (pc_view w) p)"]) (simp_all add: err_cb_ok_def)
  with Some show ?thesis by (simp add: HandleError_def)
qed (simp add: HandleError_def)

lemma free_callback_later:
  assumes "free_callback w = Some v"
  shows "w_later w v"
proof (rule w_laterI)
  show "ctx_le (w_ctxs w) (w_ctxs v)" using assms by (auto simp: free_callback_def split: option.splits)
qed (use free_callback_frame [OF assms] in simp_all)

lemma run_sendCallback_later:
  assumes "sp_inv w" "run_sendCallback d f r w = Some (b, v)"
  shows "w_later w v"
proof (cases "ps_sendCallback w")
  case (Some cb)
  with assms(1) obtain c where c: "ps_callbackCtx w = Some c" and ok: "send_cb_ok cb"
    by (auto simp: sp_inv_def inv_cb_def)
  show ?thesis
  proof (cases "ctx_Err (w_ctxs w) c")
    case None
    with assms(2) Some c have "v = w_put (snd (cb d f (pc_view w r) (w_ext w))) w"
      by (auto simp: run_sendCallback_def split: prod.splits)
    moreover have "w_later w (w_put (snd (cb d f (pc_view w r) (w_ext w))) w)"
      using assms(1) ok
      by (intro w_later_w_put [where f = "\<lambda>x. snd (cb d f (pc_view w r) x)"]) (simp_all add: send_cb_ok_def)
    ultimately show ?thesis by simp
  next
    case Some
    with assms(2) c \<open>ps_sendCallback w = Some cb\<close> show ?thesis
      by (auto simp: run_sendCallback_def Option.bind_eq_Some_conv intro: free_callback_later)
  qed
qed (use assms in \<open>simp add: run_sendCallback_def\<close>)

lemma handed_later:
  "prefix (rc_got c) (rc_got (handed p \<sigma> c))" "rc_ctx (handed p \<sigma> c) = rc_ctx c"
  "rc_closed (handed p \<sigma> c) = rc_closed c"
  "Cause \<sigma> (rc_ctx c) \<noteq> None \<Longrightarrow> rc_got (handed p \<sigma> c) = rc_got c"
  by (auto simp: handed_def)

lemma send_to_chans_nth:
  assumes "send_to_chans p \<sigma> is chans = Some chans'" "distinct is" "\<forall>i \<in> set is. i < length chans"
  shows "chans' ! j = (if j \<in> set is then handed p \<sigma> (chans ! j) else chans ! j)"
  using assms send_to_chans_spec send_to_chans_other by metis

lemma send_to_chans_later:
  assumes "sp_inv w" "send_to_chans p (w_ctxs w) (ps_rcChan w) (w_chans w) = Some chans"
  shows "w_later w (w\<lparr>w_chans := chans\<rparr>)"
proof (rule w_laterI)
  have nth: "chans ! j = (if j \<in> set (ps_rcChan w) then handed p (w_ctxs w) (w_chans w ! j) else w_chans w ! j)" for j
    using assms(1) by (intro send_to_chans_nth [OF assms(2)]) (auto simp: sp_inv_def inv_chans_def)
  show "chans_later w (w\<lparr>w_chans := chans\<rparr>)"
    unfolding chans_later_def using send_to_chans_length [OF assms(2)]
    by (simp add: nth handed_later)
qed (simp_all add: spawner_same_def)

lemma HandleSend_later:
  assumes "sp_inv w" "HandleSend d f r w = Some (b, v)"
  shows "w_later w v"
proof -
  let ?w0 = "w\<lparr>ps_totalSent := ps_totalSent w + of_nat (length d)\<rparr>"
  have w0: "sp_inv ?w0" "w_later w ?w0" using assms(1) by simp_all
  from assms(2) show ?thesis
  proof (cases rule: HandleSend_cases)
    case dropped
    from w0(2) run_sendCallback_later [OF w0(1) dropped(2)] show ?thesis by (rule w_later_trans)
  next
    case (passed w1 chans)
    have "w_later ?w0 w1" using w0(1) passed(2) by (rule run_sendCallback_later)
    moreover have "w_later w1 v"
      unfolding passed(4) using run_sendCallback_inv [OF w0(1) passed(2)] passed(3) by (rule send_to_chans_later)
    ultimately show ?thesis using w0(2) by (blast intro: w_later_trans)
  qed
qed

lemma pc_account_later [simp]: "w_later w (pc_account r d w)"
proof (rule w_laterI)
  show "pcs_later w (pc_account r d w)"
    by (cases "r < length (w_pcs w)") (auto simp: pcs_later_def pc_account_def list_update_beyond)
qed simp_all

lemma after_send_later:
  assumes "sp_inv w" "ext_respects f" "snd res = f (w_ext w)"
  shows "w_later w (pc_after_send HandleError r d res w)"
proof -
  have put: "w_later w (w_put (snd res) w)" "sp_inv (w_put (snd res) w)"
    using assms by (blast intro: w_later_w_put sp_inv_w_put)+
  show ?thesis
  proof (cases "fst res")
    case None
    then show ?thesis using w_later_trans [OF put(1) pc_account_later] by (simp add: pc_after_send_def)
  next
    case (Some e)
    then show ?thesis
      using w_later_trans [OF put(1) HandleError_later [OF put(2)]] by (simp add: pc_after_send_def)
  qed
qed

lemma sends_later:
  assumes "sends HandleSend HandleError r d w v" "sp_inv w" "r < length (w_pcs w)"
  shows "w_later w v"
proof -
  have after: "w_later w v"
    if "HandleSend d f r w = Some (True, w1)" "v = pc_after_send HandleError r d (op d (w_ext w1)) w1"
      "\<And>px. px_ok px \<Longrightarrow> px = pc_px (w_pcs w1 ! r) \<Longrightarrow> ext_respects (\<lambda>x. snd (op d x))" for f op w1
  proof -
    have w1: "sp_inv w1" "w_pcs w1 = w_pcs w" "w_later w w1"
      using that(1) assms(2) by (auto intro: HandleSend_inv HandleSend_later dest: HandleSend_frame)
    with assms(3) have "px_ok (pc_px (w_pcs w1 ! r))" by (simp add: sp_inv_def inv_pcs_def)
    then have "w_later w1 v"
      unfolding that(2) by (intro after_send_later [OF w1(1) that(3)]) simp_all
    with w1(3) show ?thesis by (rule w_later_trans)
  qed
  from assms(1) show ?thesis
  proof cases
    case (sends_filtered f)
    then show ?thesis using HandleSend_later [OF assms(2)] by blast
  next
    case (sends_toServer f w1)
    then show ?thesis by (rule after) (simp add: px_ok_def)
  next
    case (sends_toClient f w1)
    then show ?thesis by (rule after) (simp add: px_ok_def)
  qed simp
qed

lemma send_all_later:
  assumes "send_all send ks fe w = Some (e, v)" "sp_inv w"
    and send: "\<And>u r e' u'. send r u = Some (e', u') \<Longrightarrow> sends HandleSend HandleError r d u u'"
  shows "w_later w v"
proof -
  have "sp_inv v \<and> w_later w v"
    using assms(1)
  proof (rule send_all_keeps [where P = "\<lambda>u. sp_inv u \<and> w_later w u", rotated -2])
    show "sp_inv w \<and> w_later w w" using assms(2) by simp
  next
    fix r u e' u'
    assume u: "sp_inv u \<and> w_later w u" and r: "r < length (w_pcs u)" and s: "send r u = Some (e', u')"
    from send [OF s] u r have "sp_inv u'" "w_later u u'" by (blast intro: sends_inv sends_later)+
    with u show "sp_inv u' \<and> w_later w u'" by (blast intro: w_later_trans)
  qed (simp add: sp_invD)
  then show ?thesis by simp
qed

lemma alloc_container_later:
  assumes "alloc_container px i w = (c, w1)"
  shows "w_later w w1"
proof (rule w_laterI)
  show "ctx_le (w_ctxs w) (w_ctxs w1)"
    using assms WithCancelCause_le [of "Some (ps_context w)" "w_ctxs w"]
    by (auto simp: alloc_container_def split: prod.splits)
  show "tables_later w w1" using alloc_container_facts(2) [OF assms] by simp
  show "pcs_later w w1" using alloc_container_facts(3,6) [OF assms] by (simp add: pcs_later_def)
  show "chans_later w w1" using assms by (auto simp: alloc_container_def split: prod.splits)
qed

lemma NewProxyContainer_later:
  assumes "sp_inv w" "px_ok px" "NewProxyContainer px i w = (res, v)"
  shows "w_later w v"
proof -
  obtain c w1 where a: "alloc_container px i w = (c, w1)" by fastforce
  have "w_later w1 (w_put (snd (px_Init px c (w_ext w1))) w1)"
    using alloc_container_inv [OF assms(1,2) a] assms(2)
    by (intro w_later_w_put [where f = "\<lambda>x. snd (px_Init px c x)"]) (simp_all add: px_ok_def)
  with alloc_container_later [OF a] have "w_later w (w_put (snd (px_Init px c (w_ext w1))) w1)"
    by (rule w_later_trans)
  with assms(3) a show ?thesis
    by (auto elim!: NewProxyContainer_cases intro: w_later_trans)
qed

lemma AddConnection_later:
  assumes "sp_inv w" "px_ok px" "ps_currentId w \<noteq> - 1" "AddConnection NewProxyContainer px w = (res, v)"
  shows "w_later w v"
proof (cases res)
  case (Inl e)
  with assms(4) consider "v = w"
    | w1 where "NewProxyContainer px (ps_currentId w) w = (Inl e, w1)" "v = HandleError e None w1"
    by (auto simp: AddConnection_def Let_def split: option.splits prod.splits sum.splits)
  then show ?thesis
  proof cases
    case 2
    then have "w_later w w1" "sp_inv w1"
      using assms(1,2) by (blast intro: NewProxyContainer_later container.maker_inv)+
    with 2 HandleError_later show ?thesis by (blast intro: w_later_trans)
  qed simp
next
  case (Inr r)
  with assms obtain w1 where m: "NewProxyContainer px (ps_currentId w) w = (Inr r, w1)"
    and v: "v = w1\<lparr>ps_currentId := ps_currentId w + 1,
                ps_connections := (ps_connections w)(ps_currentId w \<mapsto> r), ps_wg := ps_wg w + 1\<rparr>"
    by (auto elim: container.AddConnection_ok)
  have le: "w_later w w1" using assms(1,2) m by (rule NewProxyContainer_later)
  have same: "spawner_same w w1" using m by (rule container.maker_same)
  have next_id: "ps_currentId w \<le> ps_currentId w + 1"
    using unat_plus_1_no_wrap [OF assms(3)] by (simp add: word_le_nat_alt)
  have "tables_later w v"
    using same next_id by (simp add: v tables_later_def spawner_same_def)
  moreover have "pcs_later w v" "chans_later w v" "ctx_le (w_ctxs w) (w_ctxs v)"
    using le by (simp_all add: v w_later_def pcs_later_def chans_later_def)
  ultimately show ?thesis by (intro w_laterI)
qed

lemma TrySetFilterCallback_later:
  assumes "TrySetFilterCallback cb parent w = Some (e, v)"
  shows "w_later w v"
  using assms
proof (cases rule: TrySetFilterCallback_cases)
  case (set w1)
  then have "w_later w w1" by (auto intro: free_callback_later)
  moreover obtain c \<sigma> where new: "WithCancelCause parent (w_ctxs w1) = (c, \<sigma>)" by fastforce
  moreover have "w_later w1 v"
    unfolding set(2) set_callback_def new using WithCancelCause_le [OF new]
    by (intro w_laterI) (simp_all add: spawner_same_def)
  ultimately show ?thesis by (blast intro: w_later_trans)
qed simp

lemma GetRecvChan_later:
  assumes "GetRecvChan parent w = (i, v)"
  shows "w_later w v"
proof -
  obtain c \<sigma> where new: "WithCancelCause parent (w_ctxs w) = (c, \<sigma>)" by fastforce
  with assms have v: "v = w\<lparr>w_ctxs := \<sigma>,
      w_chans := w_chans w @ [\<lparr>rc_ctx = c, rc_closed = False, rc_parked = 0, rc_got = []\<rparr>],
      ps_rcChan := ps_rcChan w @ [length (w_chans w)]\<rparr>"
    by (auto simp: GetRecvChan_def Let_def)
  show ?thesis
    using WithCancelCause_le [OF new]
    by (intro w_laterI) (simp_all add: v tables_later_def chans_later_def nth_append)
qed

lemma park_reader_later: "w_later w (park_reader i w)"
proof (rule w_laterI)
  show "chans_later w (park_reader i w)"
    by (cases "i < length (w_chans w)") (auto simp: park_reader_def chans_later_def list_update_beyond)
qed (simp_all add: park_reader_def spawner_same_def)

lemma pruner_tick_later:
  assumes "pruner_tick ks w = Some v"
  shows "w_later w v"
proof -
  from assms obtain w1 rc where d: "delete_keys (dead_keys ks w) w = Some w1" and v: "v = w1\<lparr>ps_rcChan := rc\<rparr>"
    by (auto simp: pruner_tick_def prune_chans_def Option.bind_eq_Some_conv)
  show ?thesis
    by (intro w_laterI)
      (simp_all add: v delete_keys_result [OF d] tables_later_def chans_later_def restrict_map_def)
qed

lemma close_chans_later: "close_chans is w = Some v \<Longrightarrow> w_later w v"
proof (induction "is" arbitrary: w)
  case (Cons i "is")
  let ?w1 = "w_cancel (rc_ctx (w_chans w ! i)) None w"
  let ?w2 = "?w1\<lparr>w_chans := (w_chans w)[i := (w_chans w ! i)\<lparr>rc_closed := True\<rparr>]\<rparr>"
  from Cons.prems have rest: "close_chans is ?w2 = Some v" by (auto simp: Let_def split: if_splits)
  have "w_later w ?w2"
  proof (rule w_laterI)
    show "chans_later w ?w2"
      by (cases "i < length (w_chans w)") (auto simp: chans_later_def list_update_beyond)
  qed (simp_all add: spawner_same_def)
  with Cons.IH [OF rest] show ?case by (blast intro: w_later_trans)
qed simp

lemma Close_start_later:
  assumes "Close_start w = Some v"
  shows "w_later w v"
proof -
  from assms obtain w1 where c: "close_chans (ps_rcChan w) w = Some w1"
    and v: "v = w_cancel (ps_context w1) (Some ErrSpawnerClosedOk) w1"
    by (auto simp: Close_start_def Option.bind_eq_Some_conv)
  show ?thesis unfolding v using close_chans_later [OF c] by (rule w_later_trans) simp
qed

section \<open>Runs\<close>

lemma spawner_step_later: "spawner_step w v \<Longrightarrow> sp_inv w \<Longrightarrow> w_later w v"
proof (induction rule: spawner_step.induct)
  case (step_add px w res v)
  then show ?case by (blast intro: AddConnection_later)
next
  case (step_to_client r w d e v)
  then show ?case by (blast intro: sends_later pc_SendToClient_sends)
next
  case (step_to_server r w d e v)
  then show ?case by (blast intro: sends_later pc_SendToServer_sends)
next
  case (step_packet r w p v)
  then show ?case by (blast intro: sends_later handlePacket_data_sends)
next
  case (step_all_clients ks w d e v)
  then show ?case
    unfolding SendToAllClients_def by (blast intro: send_all_later pc_SendToClient_sends)
next
  case (step_all_servers ks w d e v)
  then show ?case
    unfolding SendToAllServers_def by (blast intro: send_all_later pc_SendToServer_sends)
next
  case (step_filter parent w cb e v)
  then show ?case by (blast intro: TrySetFilterCallback_later)
next
  case (step_recv_chan parent w i v)
  then show ?case by (blast intro: GetRecvChan_later)
next
  case (step_pruner_tick w ks v)
  then show ?case by (blast intro: pruner_tick_later)
next
  case (step_close w v)
  then show ?case by (blast intro: Close_start_later)
next
  case (step_outside f w)
  then show ?case by (blast intro: w_later_w_put)
next
  case (step_reader w i)
  then show ?case by (blast intro: park_reader_later)
next
  case (step_close_proxy i w e v)
  then show ?case by (auto simp: CloseProxy_def pc_Cancel_def split: sum.splits)
next
  case (step_error_cb ecb w)
  then show ?case by (simp add: SetErrorCallback_def)
qed (simp_all add: pruner_begin_def pruner_return_def listener_begin_def listener_end_def
  w_later_def tables_later_def pcs_later_def chans_later_def)

lemma spawner_run_later: "spawner_step\<^sup>*\<^sup>* w v \<Longrightarrow> sp_inv w \<Longrightarrow> w_later w v"
proof (induction rule: rtranclp_induct)
  case (step u v)
  have "sp_inv u" using step(1,4) by (rule sp.kept_by_runs)
  with step show ?case by (blast intro: w_later_trans spawner_step_later)
qed simp

text \<open>The states of a spawner, from its construction on.\<close>

abbreviation reachable :: "'e world \<Rightarrow> bool" where
  "reachable \<equiv> reach spawner_init spawner_step"

lemma reachable_run: "reachable w \<Longrightarrow> spawner_step\<^sup>*\<^sup>* w v \<Longrightarrow> w_later w v"
  by (blast intro: spawner_run_later sp.holds_when_reached)

text \<open>Whatever the listeners do while the constructor runs, the spawner it returns is one of these.\<close>

lemma constructor_reachable:
  assumes "ctx_wf \<sigma>" "\<And>p. parent = Some p \<Longrightarrow> p < length \<sigma>"
    and "NewProxySpawnerWithContainer server proxy parent n early \<sigma> e now = Inr w"
    and "\<And>u. sp_inv u \<Longrightarrow> spawner_step\<^sup>*\<^sup>* u (early u)"
  shows "reachable w"
proof -
  let ?s = "new_spawner server proxy parent \<sigma> e now"
  have inv: "sp_inv ?s" using assms(1,2) by (rule new_spawner_inv)
  have run: "spawner_step\<^sup>*\<^sup>* ?s w" using assms(3) assms(4) [OF inv] by (simp add: constructor_Inr)
  have "Cause (w_ctxs ?s) (ps_context ?s) = None"
    using assms(3) w_laterD(1,2) [OF spawner_run_later [OF run inv]]
    by (auto simp: constructor_Inr tables_later_def dest: ctx_le_dead)
  then have "NewProxySpawnerWithContainer server proxy parent n (\<lambda>w. w) \<sigma> e now = Inr ?s"
    using assms(3) by (simp add: constructor_Inr)
  with assms(1,2) have "reachable ?s" by (blast intro: reach_start spawner_init.intros)
  with run show ?thesis by (induction rule: rtranclp_induct) (auto intro: reach_next)
qed

text \<open>What a script or another goroutine may do between two observations: steps of the program.\<close>

definition program_moves :: "('e world \<Rightarrow> 'e world) \<Rightarrow> bool" where
  "program_moves g \<longleftrightarrow> (\<forall>w. sp_inv w \<longrightarrow> sp_inv (g w) \<and> w_later w (g w))"

lemma program_moves_cancel: "program_moves (w_cancel c e)"
  by (simp add: program_moves_def sp_inv_w_cancel)

lemma moved_cancel: "sp_inv v \<and> w_later w v \<Longrightarrow> sp_inv (w_cancel c e v) \<and> w_later w (w_cancel c e v)"
  using sp_inv_w_cancel w_later_w_cancel w_later_trans by metis

lemma moved_trans: "sp_inv u \<and> w_later w u \<Longrightarrow> sp_inv v \<and> w_later u v \<Longrightarrow> sp_inv v \<and> w_later w v"
  by (blast intro: w_later_trans)

text \<open>The same with a bound on the connections it makes.\<close>

definition moves_within :: "nat \<Rightarrow> ('e world \<Rightarrow> 'e world) \<Rightarrow> bool" where
  "moves_within k g \<longleftrightarrow>
     program_moves g \<and> (\<forall>w. sp_inv w \<longrightarrow> unat (ps_currentId (g w)) \<le> unat (ps_currentId w) + k)"

end
