(* ===== verification/Listener.thy ===== *)
theory Listener
  imports SpawnerInv
begin

text \<open>
  \<open>addListener\<close> of \<open>handler/spawner.go\<close>: running a listener, and deciding from the cause its
  context was cancelled with whether to run it again, to leave it, or to bring the spawner
  down. A listener is a function from the context it is given and the state to the state when
  it returns; that includes all that other goroutines did in the meantime.
\<close>

type_synonym 'e IProxyListener = "nat \<Rightarrow> 'e world \<Rightarrow> 'e world"

section \<open>One run of the listener\<close>

definition run_listener :: "'e IProxyListener \<Rightarrow> 'e world \<Rightarrow> nat \<times> 'e world" where
  "run_listener h w =
     (let (ctx, \<sigma>) = WithCancelCause (Some (ps_context w)) (w_ctxs w)
      in (ctx, h ctx (w\<lparr>w_ctxs := \<sigma>\<rparr>)))"

text \<open>Reporting an error and cancelling the spawner's context with a cause.\<close>

definition fail_spawner :: "err \<Rightarrow> err \<Rightarrow> 'e world \<Rightarrow> 'e world" where
  "fail_spawner reported cause w =
     (let w1 = HandleError reported None w in w_cancel (ps_context w1) (Some cause) w1)"

text \<open>
  The loop. Besides the state it returns how often the listener was called. The loop ends
  because \<open>retryCount\<close> grows and is checked against 3 before the next round.
\<close>

function listener_loop :: "'e IProxyListener \<Rightarrow> nat \<Rightarrow> 'e world \<Rightarrow> nat \<times> 'e world" where
  "listener_loop h retryCount w =
     (let (ctx, w1) = run_listener h w in
      case Cause (w_ctxs w1) ctx of
        None \<Rightarrow> (1, w_cancel (ps_context w1)
                     (Some (ErrNew ''listener didn't cancel context after return'')) w1)
      | Some cause \<Rightarrow>
          if errors_Is cause ErrProxyRetry
          then (if 3 \<le> retryCount then (1, fail_spawner ErrProxyMaxRetries cause w1)
                else (let (n, v) = listener_loop h (retryCount + 1) w1 in (Suc n, v)))
          else if errors_Is cause ErrProxyClosedOk then (1, w1)
          else (1, fail_spawner cause cause w1))"
  by pat_completeness auto
termination
  by (relation "measure (\<lambda>(h, retryCount, w). 4 - retryCount)") auto

declare listener_loop.simps [simp del]

definition addListener :: "'e IProxyListener \<Rightarrow> 'e world \<Rightarrow> nat \<times> 'e world" where
  "addListener h w =
     (if ctx_Err (w_ctxs w) (ps_context w) \<noteq> None then (0, w)
      else (let (n, v) = listener_loop h 0 (listener_begin w) in (n, listener_end v)))"

section \<open>Facts about the loop\<close>

text \<open>The ways one round can go.\<close>

lemma listener_loop_cases:
  assumes "run_listener h w = (ctx, w1)"
  obtains (left) "Cause (w_ctxs w1) ctx = None"
      "listener_loop h k w = (1, w_cancel (ps_context w1)
         (Some (ErrNew ''listener didn't cancel context after return'')) w1)"
  | (gave_up) cause where "Cause (w_ctxs w1) ctx = Some cause" "errors_Is cause ErrProxyRetry" "3 \<le> k"
      "listener_loop h k w = (1, fail_spawner ErrProxyMaxRetries cause w1)"
  | (again) cause where "Cause (w_ctxs w1) ctx = Some cause" "errors_Is cause ErrProxyRetry" "k < 3"
      "listener_loop h k w = (Suc (fst (listener_loop h (Suc k) w1)), snd (listener_loop h (Suc k) w1))"
  | (closed) cause where "Cause (w_ctxs w1) ctx = Some cause" "\<not> errors_Is cause ErrProxyRetry"
      "errors_Is cause ErrProxyClosedOk" "listener_loop h k w = (1, w1)"
  | (failed) cause where "Cause (w_ctxs w1) ctx = Some cause" "\<not> errors_Is cause ErrProxyRetry"
      "\<not> errors_Is cause ErrProxyClosedOk" "listener_loop h k w = (1, fail_spawner cause cause w1)"
  using assms listener_loop.simps [of h k w]
  by (auto simp: Let_def case_prod_beta split: option.splits if_splits)

lemma fail_spawner_inv: "sp_inv w \<Longrightarrow> sp_inv (fail_spawner e c w)"
  by (simp add: fail_spawner_def Let_def sp_inv_w_cancel HandleError_inv)

lemma fail_spawner_listeners [simp]: "w_listeners (fail_spawner e c w) = w_listeners w"
  by (simp add: fail_spawner_def Let_def)

lemma fail_spawner_dead:
  assumes "sp_inv w"
  shows "Cause (w_ctxs (fail_spawner e c w)) (ps_context w) \<noteq> None"
proof -
  have "sp_inv (HandleError e None w)" using assms by (rule HandleError_inv)
  then have "ps_context (HandleError e None w) < length (w_ctxs (HandleError e None w))"
    by (simp add: sp_inv_def inv_ctx_def)
  then show ?thesis
    by (auto simp: fail_spawner_def Let_def Cause_cancel_cause split: option.splits)
qed

lemma listener_loop_bounded: "fst (listener_loop h k w) \<le> Suc (3 - k)"
proof (induction "3 - k" arbitrary: k w rule: less_induct)
  case less
  obtain ctx w1 where "run_listener h w = (ctx, w1)" by fastforce
  then show ?case
  proof (cases rule: listener_loop_cases [where k = k])
    case (again cause)
    then have "3 - Suc k < 3 - k" by linarith
    then have "fst (listener_loop h (Suc k) w1) \<le> Suc (3 - Suc k)" by (rule less)
    moreover have "fst (listener_loop h k w) = Suc (fst (listener_loop h (Suc k) w1))"
      using again(4) by simp
    ultimately show ?thesis using again(3) by linarith
  qed simp_all
qed

text \<open>What is asked of a listener: it keeps the invariant and does not stop other listeners.\<close>

definition listener_ok :: "'e IProxyListener \<Rightarrow> bool" where
  "listener_ok h \<longleftrightarrow>
     (\<forall>c w. sp_inv w \<longrightarrow> sp_inv (h c w) \<and> w_listeners w \<le> w_listeners (h c w) \<and> ps_context (h c w) = ps_context w)"

lemma run_listener_ok:
  assumes "run_listener h w = (ctx, w1)" "sp_inv w" "listener_ok h"
  shows "sp_inv w1" "w_listeners w \<le> w_listeners w1" "ps_context w1 = ps_context w"
proof -
  let ?\<sigma> = "snd (WithCancelCause (Some (ps_context w)) (w_ctxs w))"
  have new: "WithCancelCause (Some (ps_context w)) (w_ctxs w) = (length (w_ctxs w), ?\<sigma>)"
    by (simp add: WithCancelCause_def)
  have ctx: "ctx_wf (w_ctxs w)" "ps_context w < length (w_ctxs w)"
    using assms(2) by (auto simp: sp_inv_def inv_ctx_def)
  have "ctx_wf ?\<sigma>" by (rule WithCancelCause_wf [OF new ctx(1)]) (simp add: ctx(2))
  with assms(2) have "sp_inv (w\<lparr>w_ctxs := ?\<sigma>\<rparr>)"
    using WithCancelCause_le [OF new] by (rule sp_inv_grow)
  moreover have "w1 = h (length (w_ctxs w)) (w\<lparr>w_ctxs := ?\<sigma>\<rparr>)"
    using assms(1) by (auto simp: run_listener_def WithCancelCause_def)
  ultimately show "sp_inv w1" "w_listeners w \<le> w_listeners w1" "ps_context w1 = ps_context w"
    using assms(3) unfolding listener_ok_def by fastforce+
qed

lemma listener_loop_ok:
  "sp_inv w \<Longrightarrow> listener_ok h \<Longrightarrow>
   sp_inv (snd (listener_loop h k w)) \<and> w_listeners w \<le> w_listeners (snd (listener_loop h k w))"
proof (induction "3 - k" arbitrary: k w rule: less_induct)
  case less
  obtain ctx w1 where run: "run_listener h w = (ctx, w1)" by fastforce
  note ok = run_listener_ok [OF run less.prems]
  from run show ?case
  proof (cases rule: listener_loop_cases [where k = k])
    case (again cause)
    then have "3 - Suc k < 3 - k" by linarith
    from less(1) [OF this ok(1) less.prems(2)] again ok(2) show ?thesis by auto
  qed (use ok in \<open>simp_all add: fail_spawner_inv sp_inv_w_cancel\<close>)
qed

lemma listener_loop_context:
  "sp_inv w \<Longrightarrow> listener_ok h \<Longrightarrow> ps_context (snd (listener_loop h k w)) = ps_context w"
proof (induction "3 - k" arbitrary: k w rule: less_induct)
  case less
  obtain ctx w1 where run: "run_listener h w = (ctx, w1)" by fastforce
  note ok = run_listener_ok [OF run less.prems]
  from run show ?case
  proof (cases rule: listener_loop_cases [where k = k])
    case (again cause)
    then have "3 - Suc k < 3 - k" by linarith
    from less(1) [OF this ok(1) less.prems(2)] again ok(3) show ?thesis by simp
  qed (use ok in \<open>simp_all add: fail_spawner_def Let_def\<close>)
qed

text \<open>
  A listener that goes on asking for a retry, while the spawner lives, is run \<open>4 - k\<close> more
  times, then the spawner dies.
\<close>

definition always_retries :: "'e IProxyListener \<Rightarrow> bool" where
  "always_retries h \<longleftrightarrow>
     (\<forall>w ctx w1. sp_inv w \<longrightarrow> IsAlive w \<longrightarrow> run_listener h w = (ctx, w1) \<longrightarrow>
        IsAlive w1 \<and> (\<exists>cause. Cause (w_ctxs w1) ctx = Some cause \<and> errors_Is cause ErrProxyRetry))"

lemma listener_loop_retries:
  "sp_inv w \<Longrightarrow> listener_ok h \<Longrightarrow> always_retries h \<Longrightarrow> k \<le> 3 \<Longrightarrow> IsAlive w \<Longrightarrow>
   fst (listener_loop h k w) = 4 - k \<and>
   Cause (w_ctxs (snd (listener_loop h k w))) (ps_context w) \<noteq> None"
proof (induction "3 - k" arbitrary: k w rule: less_induct)
  case less
  obtain ctx w1 where run: "run_listener h w = (ctx, w1)" by fastforce
  note ok = run_listener_ok [OF run less.prems(1,2)]
  obtain cause where c: "Cause (w_ctxs w1) ctx = Some cause" "errors_Is cause ErrProxyRetry" "IsAlive w1"
    using less.prems(1,3,5) run unfolding always_retries_def by blast
  from run show ?case
  proof (cases rule: listener_loop_cases [where k = k])
    case (gave_up cause')
    with fail_spawner_dead [OF ok(1)] ok(3) less.prems(4) show ?thesis by simp
  next
    case (again cause')
    with less(1) [of "Suc k" w1] ok less.prems(2,3) c(3) show ?thesis by auto
  qed (use c in auto)
qed

end
