(* ===== verification/Examples.thy ===== *)
theory Examples
  imports SpawnerRuns Listener
begin

text \<open>
  Concrete states on which the properties of the spawner are exercised: a spawner between two
  addresses, with a connection whose sockets accept everything, with receive channels, and with
  a filter that refuses everything. All of them are reachable.
\<close>

definition ex_client :: addr where "ex_client = \<lparr>addr_Network = ''tcp'', addr_String = ''c:9''\<rparr>"
definition ex_server :: addr where "ex_server = \<lparr>addr_Network = ''tcp'', addr_String = ''s:1''\<rparr>"
definition ex_proxy :: addr where "ex_proxy = \<lparr>addr_Network = ''tcp'', addr_String = ''p:2''\<rparr>"

text \<open>An \<open>IProxy\<close> whose environment is the log of what was written to its sockets.\<close>

definition ex_px :: "bytes list IProxy" where
  "ex_px = \<lparr>px_Init = (\<lambda>c x. (None, x)),
     px_SendToClient = (\<lambda>d x. (None, (fst x, snd x @ [d]))),
     px_SendToServer = (\<lambda>d x. (None, (fst x, snd x @ [d]))),
     px_GetClientAddr = ex_client, px_Network = ''tcp''\<rparr>"

definition ex_refuse :: "bytes list PacketSendCallback" where
  "ex_refuse d f p x = (False, x)"

lemma ex_px_ok [simp]: "px_ok ex_px"
  by (simp add: px_ok_def ex_px_def ext_respects_def)

lemma ex_refuse_ok [simp]: "send_cb_ok ex_refuse"
  by (simp add: send_cb_ok_def ex_refuse_def ext_respects_def)

definition ex_new :: "bytes list world" where
  "ex_new = projr (NewProxySpawnerWithContainer ex_server ex_proxy None 1 (\<lambda>w. w) [] [] 0)"

definition ex_conn :: "bytes list world" where
  "ex_conn = snd (AddConnection NewProxyContainer ex_px ex_new)"

text \<open>Two receive channels, a reader on the first; then both contexts are cancelled.\<close>

definition ex_chans :: "bytes list world" where
  "ex_chans = park_reader 0 (snd (GetRecvChan None (snd (GetRecvChan None ex_conn))))"

definition ex_dead_chans :: "bytes list world" where
  "ex_dead_chans = w_cancel 3 None (w_cancel 2 None ex_chans)"

text \<open>With the refusing filter, and with that filter after its context ended.\<close>

definition ex_filter :: "bytes list world" where
  "ex_filter = snd (the (TrySetFilterCallback (Some ex_refuse) None ex_conn))"

definition ex_stale_filter :: "bytes list world" where
  "ex_stale_filter = w_cancel 2 None ex_filter"

definition ex_closed :: "bytes list world" where
  "ex_closed = the (Close_start ex_chans)"

definition ex_pruning :: "bytes list world" where
  "ex_pruning = pruner_begin ex_conn"

lemmas ex_addrs = ex_client_def ex_server_def ex_proxy_def

lemma ex_new: "ex_new = \<lparr>ps_currentId = 0, ps_connections = Map.empty, ps_totalSent = 0,
    ps_serverAddr = ex_server, ps_proxyAddr = ex_proxy, ps_context = 0, ps_wg = 0,
    ps_sendCallback = None, ps_errorCallback = None, ps_rcChan = [], ps_callbackCtx = None,
    ps_callbackCancel = None, w_ctxs = [\<lparr>ctx_parent = None, ctx_cause = None\<rparr>], w_env = [],
    w_pcs = [], w_chans = [], w_now = 0, w_listeners = 0, w_pruner = PrunerNotRun\<rparr>"
  by (simp add: ex_new_def NewProxySpawnerWithContainer_def new_spawner_def ex_addrs WithCancelCause_def Cause_def)

lemma ex_add: "AddConnection NewProxyContainer ex_px ex_new = (Inr 0, ex_conn)"
  and ex_conn: "ex_conn = ex_new\<lparr>ps_currentId := 1, ps_connections := [0 \<mapsto> 0], ps_wg := 1,
    w_ctxs := [\<lparr>ctx_parent = None, ctx_cause = None\<rparr>, \<lparr>ctx_parent = Some 0, ctx_cause = None\<rparr>],
    w_pcs := [\<lparr>pc_ctx = 1, pc_px = ex_px, pc_id = 0, pc_bytesSent = 0, pc_lastContactTime = 0\<rparr>]\<rparr>"
  by (simp_all add: ex_conn_def ex_new AddConnection_def ctx_Err_def Cause_def NewProxyContainer_def
      alloc_container_def WithCancelCause_def ex_px_def w_put_def w_ext_def)

lemma ex_chans: "ex_chans = ex_conn\<lparr>
    w_ctxs := w_ctxs ex_conn @ [\<lparr>ctx_parent = None, ctx_cause = None\<rparr>, \<lparr>ctx_parent = None, ctx_cause = None\<rparr>],
    w_chans := [\<lparr>rc_ctx = 2, rc_closed = False, rc_parked = 1, rc_got = []\<rparr>,
                \<lparr>rc_ctx = 3, rc_closed = False, rc_parked = 0, rc_got = []\<rparr>],
    ps_rcChan := [0, 1]\<rparr>"
  by (simp add: ex_chans_def ex_conn ex_new GetRecvChan_def WithCancelCause_def park_reader_def)

lemma ex_chans_sel:
  "ps_connections ex_chans = [0 \<mapsto> 0]" "ps_rcChan ex_chans = [0, 1]" "pc_ctx (w_pcs ex_chans ! 0) = 1"
  "rc_ctx (w_chans ex_chans ! 0) = 2" "rc_ctx (w_chans ex_chans ! Suc 0) = 3"
  "Cause (w_ctxs ex_chans) (Suc 0) = None" "Cause (w_ctxs ex_chans) 2 = None" "Cause (w_ctxs ex_chans) 3 = None"
  "length (w_ctxs ex_chans) = 4" "ps_wg ex_chans = 1"
  by (simp_all add: ex_chans ex_conn Cause_def nth_append)

lemma ex_dead_chans_sel:
  "ps_connections ex_dead_chans = [0 \<mapsto> 0]" "ps_rcChan ex_dead_chans = [0, 1]"
  "rc_ctx (w_chans ex_dead_chans ! 0) = 2" "rc_ctx (w_chans ex_dead_chans ! Suc 0) = 3"
  "Cause (w_ctxs ex_dead_chans) 2 = Some Canceled" "Cause (w_ctxs ex_dead_chans) 3 = Some Canceled"
  by (simp_all add: ex_dead_chans_def ex_chans_sel Cause_cancel_cause split: option.splits)

lemma ex_filter_set: "TrySetFilterCallback (Some ex_refuse) None ex_conn = Some (None, ex_filter)"
  and ex_filter: "ex_filter = ex_conn\<lparr>w_ctxs := w_ctxs ex_conn @ [\<lparr>ctx_parent = None, ctx_cause = None\<rparr>],
    ps_sendCallback := Some ex_refuse, ps_callbackCtx := Some 2, ps_callbackCancel := Some 2\<rparr>"
  by (simp_all add: ex_filter_def ex_conn ex_new TrySetFilterCallback_def set_callback_def WithCancelCause_def)

lemma ex_stale_filter_dead: "Cause (w_ctxs ex_stale_filter) 2 = Some Canceled"
proof -
  have "Cause (w_ctxs ex_filter) 2 = None" "length (w_ctxs ex_filter) = 3"
    by (simp_all add: ex_filter ex_conn Cause_def)
  then show ?thesis by (simp add: ex_stale_filter_def Cause_cancel_cause)
qed

section \<open>They are reachable\<close>

lemma ex_new_init: "spawner_init ex_new"
proof (rule spawner_init.intros [of "[]" None])
  show "NewProxySpawnerWithContainer ex_server ex_proxy None 1 (\<lambda>w. w) [] [] 0 = Inr ex_new"
    by (simp add: ex_new NewProxySpawnerWithContainer_def new_spawner_def ex_addrs WithCancelCause_def Cause_def)
qed simp_all

lemma ex_new_reachable [simp]: "reachable ex_new"
  using ex_new_init by (rule reach_start)

lemma ex_conn_step: "spawner_step ex_new ex_conn"
  by (rule step_add [OF ex_px_ok _ ex_add]) (simp add: ex_new)

lemma ex_conn_reachable [simp]: "reachable ex_conn"
  using ex_new_reachable ex_conn_step by (rule reach_next)

lemma ex_chans_reachable [simp]: "reachable ex_chans"
proof -
  obtain i v where a: "GetRecvChan None ex_conn = (i, v)" by fastforce
  obtain j u where b: "GetRecvChan None v = (j, u)" by fastforce
  have "spawner_step ex_conn v" "spawner_step v u" using a b by (auto intro: step_recv_chan)
  then have "reachable u" by (blast intro: reach_next ex_conn_reachable)
  then have "reachable (park_reader 0 u)" using step_reader by (rule reach_next)
  with a b show ?thesis by (simp add: ex_chans_def)
qed

lemma ex_dead_chans_reachable [simp]: "reachable ex_dead_chans"
  unfolding ex_dead_chans_def
  by (rule reach_next [OF reach_next [OF ex_chans_reachable step_cancel] step_cancel])

lemma ex_filter_reachable [simp]: "reachable ex_filter"
  by (rule reach_next [OF ex_conn_reachable step_filter [OF _ _ ex_filter_set]]) auto

lemma ex_stale_filter_step: "spawner_step ex_filter ex_stale_filter"
  by (simp add: ex_stale_filter_def step_cancel)

lemma ex_pruning_step: "spawner_step ex_conn ex_pruning"
  unfolding ex_pruning_def by (rule step_pruner_begin) (simp add: ex_conn ex_new)

lemma ex_stale_filter_reachable [simp]: "reachable ex_stale_filter"
  using ex_filter_reachable ex_stale_filter_step by (rule reach_next)

lemma ex_pruning_reachable [simp]: "reachable ex_pruning"
  using ex_conn_reachable ex_pruning_step by (rule reach_next)

end
