(* ===== verification/SpawnerProps.thy ===== *)
theory SpawnerProps
  imports Examples
begin

text \<open>
  The properties of the spawner and its containers, over all reachable states and all runs,
  each with a concrete instance.
\<close>

section \<open>Facts the properties share\<close>

lemma free_callback_some:
  "sp_inv w \<Longrightarrow> ps_callbackCtx w = Some c \<Longrightarrow>
   free_callback w = Some ((w_cancel c None w)\<lparr>ps_callbackCancel := None, ps_callbackCtx := None, ps_sendCallback := None\<rparr>)"
  by (simp add: free_callback_def sp_inv_def inv_cb_def)

lemma run_sendCallback_total:
  assumes "sp_inv w"
  obtains b v where "run_sendCallback d f r w = Some (b, v)"
proof (cases "ps_sendCallback w")
  case None
  with that show ?thesis by (simp add: run_sendCallback_def)
next
  case (Some cb)
  with assms obtain c where c: "ps_callbackCtx w = Some c" by (auto simp: sp_inv_def inv_cb_def)
  with Some that free_callback_some [OF assms c] show ?thesis
    by (cases "ctx_Err (w_ctxs w) c"; cases "cb d f (pc_view w r) (w_ext w)")
      (auto simp: run_sendCallback_def)
qed

lemma run_sendCallback_unfiltered:
  assumes "sp_inv w" "ps_sendCallback w = None \<or> (\<exists>c. ps_callbackCtx w = Some c \<and> ctx_Err (w_ctxs w) c \<noteq> None)"
  obtains w1 where "run_sendCallback d f r w = Some (True, w1)"
    "w_env w1 = w_env w" "w_ctxs w1 = w_ctxs w" "ps_rcChan w1 = ps_rcChan w"
    "w_chans w1 = w_chans w" "ps_sendCallback w1 = None"
    "ps_sendCallback w \<noteq> None \<longrightarrow> ps_callbackCtx w1 = None \<and> ps_callbackCancel w1 = None"
proof (cases "ps_sendCallback w")
  case None
  then show ?thesis by (intro that [of w]) (simp_all add: run_sendCallback_def)
next
  case (Some cb)
  with assms(2) obtain c where c: "ps_callbackCtx w = Some c" "Cause (w_ctxs w) c \<noteq> None" by auto
  then have same: "cancel_cause c None (w_ctxs w) = w_ctxs w" by (auto simp: cancel_cause_def)
  show ?thesis
    by (rule that [of "(w_cancel c None w)\<lparr>ps_callbackCancel := None, ps_callbackCtx := None, ps_sendCallback := None\<rparr>"])
      (use Some c free_callback_some [OF assms(1) c(1)] same in \<open>auto simp: run_sendCallback_def\<close>)
qed

lemma HandleSend_total:
  assumes "sp_inv w"
  obtains b v where "HandleSend d f r w = Some (b, v)"
proof -
  have inv0: "sp_inv (w\<lparr>ps_totalSent := ps_totalSent w + of_nat (length d)\<rparr>)" using assms by simp
  obtain b w1 where run: "run_sendCallback d f r (w\<lparr>ps_totalSent := ps_totalSent w + of_nat (length d)\<rparr>) = Some (b, w1)"
    using inv0 by (rule run_sendCallback_total)
  have "sp_inv w1" using inv0 run by (rule run_sendCallback_inv)
  then have "\<exists>cs. send_to_chans (packet_of d f (pc_view w r)) (w_ctxs w1) (ps_rcChan w1) (w_chans w1) = Some cs"
    by (intro send_to_chans_no_panic) (auto simp: sp_inv_def inv_chans_def)
  with run that show ?thesis by (cases b) (auto simp: HandleSend_def Let_def)
qed

lemma senders_total:
  assumes "sp_inv w"
  shows "\<exists>x. pc_SendToClient HandleSend HandleError r d w = Some x"
    and "\<exists>x. pc_SendToServer HandleSend HandleError r d w = Some x"
    and "\<exists>v. handlePacket_data HandleSend HandleError r p w = Some v"
proof -
  obtain b1 v1 where h1: "HandleSend d CapFlag_Injected r w = Some (b1, v1)"
    using assms by (rule HandleSend_total)
  obtain b2 v2 where h2: "HandleSend d (CapFlag_ToServer OR CapFlag_Injected) r w = Some (b2, v2)"
    using assms by (rule HandleSend_total)
  obtain b3 v3 where h3: "HandleSend (ppd_Data p) (if ppd_Serverbound p then 0 OR CapFlag_ToServer else 0) r w = Some (b3, v3)"
    using assms by (rule HandleSend_total)
  show "\<exists>x. pc_SendToClient HandleSend HandleError r d w = Some x"
    using h1 by (simp add: pc_SendToClient_def Let_def)
  show "\<exists>x. pc_SendToServer HandleSend HandleError r d w = Some x"
    using h2 by (simp add: pc_SendToServer_def Let_def)
  show "\<exists>v. handlePacket_data HandleSend HandleError r p w = Some v"
    using h3 by (simp add: handlePacket_data_def Let_def)
qed

lemma handlePacket_total:
  "sp_inv w \<Longrightarrow> r < length (w_pcs w) \<Longrightarrow> \<exists>v. handlePacket HandleSend HandleError r evs w = Some v"
proof (induction evs arbitrary: w)
  case (Cons ev evs)
  show ?case
  proof (cases ev)
    case (PcData p)
    obtain w1 where w1: "handlePacket_data HandleSend HandleError r p w = Some w1"
      using senders_total(3) [OF Cons.prems(1)] by blast
    then have "sends HandleSend HandleError r (ppd_Data p) w w1" by (rule handlePacket_data_sends)
    with Cons.prems have "sp_inv w1" "r < length (w_pcs w1)"
      by (auto intro: sends_inv simp: spawner.sends_length)
    with Cons.IH w1 PcData show ?thesis by simp
  qed simp
qed simp

lemma send_all_total:
  assumes "\<And>u r. sp_inv u \<Longrightarrow> \<exists>x. send r u = Some x"
    and "\<And>u r e u'. send r u = Some (e, u') \<Longrightarrow> sends HandleSend HandleError r d u u'"
  shows "sp_inv w \<Longrightarrow> send_all send ks fe w \<noteq> None"
proof (induction ks arbitrary: w fe)
  case (Cons k ks)
  show ?case
  proof (cases "ps_connections w k")
    case (Some r)
    obtain e1 w1 where s: "send r w = Some (e1, w1)" using assms(1) [OF Cons.prems] by fastforce
    have "r < length (w_pcs w)" using Some Cons.prems by (auto simp: sp_inv_def inv_conns_def)
    then have "sp_inv w1" using assms(2) [OF s] Cons.prems by (blast intro: sends_inv)
    then show ?thesis
      using Some s Cons.IH Cons.prems by (simp del: not_None_eq)
  qed (simp add: Cons)
qed simp

lemma range_order_wg:
  assumes "sp_inv w" "range_order ks (ps_connections w)"
  shows "int (length (dead_keys ks w)) \<le> ps_wg w"
proof -
  have fin: "finite (dom (ps_connections w))" using assms(1) by (simp add: sp_inv_def inv_conns_def)
  have "length (dead_keys ks w) \<le> length ks" by (simp add: dead_keys_def)
  also have "\<dots> = card (dom (ps_connections w))" using assms(2) by (metis distinct_card range_order_def)
  finally show ?thesis using assms(1) by (auto simp: sp_inv_def inv_wg_def)
qed

lemma close_chans_panics_iff:
  "distinct is \<Longrightarrow> close_chans is w = None \<longleftrightarrow> (\<exists>i \<in> set is. rc_closed (w_chans w ! i))"
proof (induction "is" arbitrary: w)
  case (Cons i "is")
  show ?case
  proof (cases "rc_closed (w_chans w ! i)")
    case False
    let ?w2 = "(w_cancel (rc_ctx (w_chans w ! i)) None w)
        \<lparr>w_chans := (w_chans w)[i := (w_chans w ! i)\<lparr>rc_closed := True\<rparr>]\<rparr>"
    have "rc_closed (w_chans ?w2 ! j) = rc_closed (w_chans w ! j)" if "j \<in> set is" for j
    proof -
      from that Cons.prems have "i \<noteq> j" by auto
      then show ?thesis by simp
    qed
    with False Cons show ?thesis by (simp add: Let_def)
  qed (simp add: Let_def)
qed simp

lemma close_chans_closes:
  "close_chans is w = Some v \<Longrightarrow> i \<in> set is \<Longrightarrow> i < length (w_chans w) \<Longrightarrow> rc_closed (w_chans v ! i)"
proof (induction "is" arbitrary: w)
  case (Cons k "is")
  let ?w2 = "(w_cancel (rc_ctx (w_chans w ! k)) None w)
      \<lparr>w_chans := (w_chans w)[k := (w_chans w ! k)\<lparr>rc_closed := True\<rparr>]\<rparr>"
  from Cons.prems have rest: "close_chans is ?w2 = Some v" by (auto simp: Let_def split: if_splits)
  show ?case
  proof (cases "i \<in> set is")
    case True
    with Cons.IH [OF rest] Cons.prems(3) show ?thesis by simp
  next
    case False
    then have "rc_closed (w_chans ?w2 ! i)" using Cons.prems by simp
    moreover have "chans_later ?w2 v" using close_chans_later [OF rest] by (rule w_laterD)
    ultimately show ?thesis using Cons.prems(3) by (simp add: chans_later_def)
  qed
qed simp

lemma sp_inv_dead_containers:
  assumes "sp_inv w" "\<not> IsAlive w" "r < length (w_pcs w)"
  shows "\<not> pc_IsAlive w r"
proof -
  have "ctx_under (w_ctxs w) (ps_context w) (pc_ctx (w_pcs w ! r))" "ctx_wf (w_ctxs w)"
    using assms(1,3) by (auto simp: sp_inv_def inv_pcs_def inv_ctx_def)
  then show ?thesis
    using ctx.cause_reaches_below [of "w_ctxs w" "ps_context w" "pc_ctx (w_pcs w ! r)"] assms(2)
    by (simp add: IsAlive_def pc_IsAlive_def)
qed

section \<open>Invariant, and no panic while sending\<close>

text \<open>C1: Every state a spawner can reach, in any interleaving of its operations with the rest of
  the program, each operation taken as one step, satisfies the invariant: the table maps ids that were handed out to containers that
  know their id, containers hang below the spawner's context, a closed channel has a dead context,
  a filter comes with its context, and the wait group counts connections, listeners and pruner.\<close>

theorem reachable_sp_inv: "reachable w \<Longrightarrow> sp_inv w"
  by (rule sp.holds_when_reached)

lemma reachable_sp_inv_witness: "sp_inv ex_chans"
  using reachable_sp_inv [OF ex_chans_reachable] .

text \<open>C2: In a reachable state, with each operation as one step, no send panics: neither the two injecting senders, nor the packet loop
  of a container over any sequence of packets, nor the broadcasts, nor \<open>HandleSend\<close> itself. In
  particular nobody sends on a closed channel or through a filter whose context is missing.\<close>

theorem sending_never_panics:
  assumes "reachable w"
  shows "HandleSend d f r w \<noteq> None \<and>
     pc_SendToClient HandleSend HandleError r d w \<noteq> None \<and>
     pc_SendToServer HandleSend HandleError r d w \<noteq> None \<and>
     (r < length (w_pcs w) \<longrightarrow> handlePacket HandleSend HandleError r evs w \<noteq> None) \<and>
     SendToAllClients ks d w \<noteq> None \<and> SendToAllServers ks d w \<noteq> None"
proof -
  have inv: "sp_inv w" using assms by (rule sp.holds_when_reached)
  obtain b v where "HandleSend d f r w = Some (b, v)" using inv by (rule HandleSend_total)
  moreover have "SendToAllClients ks d w \<noteq> None"
    unfolding SendToAllClients_def using senders_total(1) pc_SendToClient_sends inv
    by (rule send_all_total)
  moreover have "SendToAllServers ks d w \<noteq> None"
    unfolding SendToAllServers_def using senders_total(2) pc_SendToServer_sends inv
    by (rule send_all_total)
  ultimately show ?thesis
    using senders_total(1,2) [OF inv, of r d] handlePacket_total [OF inv, of r evs] by auto
qed

lemma sending_never_panics_witness:
  "HandleSend [1] 0 0 ex_chans \<noteq> None \<and> SendToAllClients [0] [1] ex_chans \<noteq> None \<and>
   handlePacket HandleSend HandleError 0 [PcDone] ex_chans \<noteq> None"
  using sending_never_panics [OF ex_chans_reachable, of "[1]" 0 0 "[PcDone]" "[0]"]
  by (simp add: ex_chans ex_conn)

section \<open>The filter and the receive channels\<close>

text \<open>C8: A live filter decides: \<open>HandleSend\<close> answers the filter's verdict, except that an injected
  packet always passes. Only a packet that passes is handed to receive channels, namely to every
  channel of the spawner with a live context and a waiting reader, once; every other channel is as
  before. The bytes are counted in either case.\<close>

theorem HandleSend_filtered:
  assumes "reachable w" "HandleSend d f r w = Some (b, v)"
    and "ps_sendCallback w = Some cb" "ps_callbackCtx w = Some c" "ctx_Err (w_ctxs w) c = None"
    and "cb d f (pc_view w r) (w_ext w) = (verdict, x)"
  shows "b = (verdict \<or> IsInjected f) \<and> w_env v = snd x \<and> w_ctxs v = fst x \<and>
     ps_totalSent v = ps_totalSent w + of_nat (length d) \<and>
     (\<forall>i. w_chans v ! i = (if b \<and> i \<in> set (ps_rcChan w)
        then handed (packet_of d f (pc_view w r)) (fst x) (w_chans w ! i) else w_chans w ! i))"
proof -
  let ?w0 = "w\<lparr>ps_totalSent := ps_totalSent w + of_nat (length d)\<rparr>"
  have inv: "sp_inv w" using assms(1) by (rule sp.holds_when_reached)
  have view: "pc_view ?w0 r = pc_view w r" "w_ext ?w0 = w_ext w"
    by (simp_all add: pc_view_def pc_GetId_def pc_Network_def pc_GetClientAddr_def pc_GetServerAddr_def w_ext_def)
  have run: "run_sendCallback d f r ?w0 = Some (verdict \<or> IsInjected f, w_put x ?w0)"
    using assms(3-6) by (simp add: run_sendCallback_def view)
  from assms(2) show ?thesis
  proof (cases rule: HandleSend_cases)
    case dropped
    with run show ?thesis by simp
  next
    case (passed w1 chans)
    then have w1: "w1 = w_put x ?w0" using run by simp
    have "chans ! i = (if i \<in> set (ps_rcChan w) then handed (packet_of d f (pc_view w r)) (fst x) (w_chans w ! i)
        else w_chans w ! i)" for i
      using inv passed(3) by (intro send_to_chans_nth) (auto simp: w1 sp_inv_def inv_chans_def)
    with passed run show ?thesis by (simp add: w1)
  qed
qed

lemma HandleSend_filtered_witness:
  "\<exists>v. HandleSend [7, 8] 0 0 ex_filter = Some (False, v) \<and> ps_totalSent v = 2"
proof -
  obtain b v where h: "HandleSend [7, 8] 0 0 ex_filter = Some (b, v)"
    using sp.holds_when_reached [OF ex_filter_reachable] by (rule HandleSend_total)
  have "\<not> b \<and> ps_totalSent v = 2"
    using HandleSend_filtered [OF ex_filter_reachable h, of ex_refuse 2 False "w_ext ex_filter"]
    by (simp add: ex_filter ex_conn ex_new ex_refuse_def Cause_def ctx_Err_def)
  with h show ?thesis by simp
qed

text \<open>C5: Without a filter every packet passes: each receive channel of the spawner gets it that is alive and
  read, the byte counter grows by its length, and nothing else changes, neither outside nor in the
  tables, the contexts or the containers. A filter whose context has ended is not asked: it is freed, together with its context and
  cancel function, and the packet passes the same way.\<close>

theorem HandleSend_unfiltered:
  assumes "reachable w" "HandleSend d f r w = Some (b, v)"
    and "ps_sendCallback w = None \<or> (\<exists>c. ps_callbackCtx w = Some c \<and> ctx_Err (w_ctxs w) c \<noteq> None)"
  shows "b \<and> w_env v = w_env w \<and> w_ctxs v = w_ctxs w \<and> w_pcs v = w_pcs w \<and> spawner_same w v \<and>
     ps_totalSent v = ps_totalSent w + of_nat (length d) \<and> ps_sendCallback v = None \<and>
     (ps_sendCallback w \<noteq> None \<longrightarrow> ps_callbackCtx v = None \<and> ps_callbackCancel v = None) \<and>
     (\<forall>i. w_chans v ! i = (if i \<in> set (ps_rcChan w)
        then handed (packet_of d f (pc_view w r)) (w_ctxs w) (w_chans w ! i) else w_chans w ! i))"
proof -
  let ?w0 = "w\<lparr>ps_totalSent := ps_totalSent w + of_nat (length d)\<rparr>"
  have inv: "sp_inv w" using assms(1) by (rule sp.holds_when_reached)
  have inv0: "sp_inv ?w0" "ps_sendCallback ?w0 = None \<or> (\<exists>c. ps_callbackCtx ?w0 = Some c \<and> ctx_Err (w_ctxs ?w0) c \<noteq> None)"
    using inv assms(3) by simp_all
  obtain w1 where run: "run_sendCallback d f r ?w0 = Some (True, w1)"
    and w1: "w_env w1 = w_env w" "w_ctxs w1 = w_ctxs w" "ps_rcChan w1 = ps_rcChan w"
      "w_chans w1 = w_chans w" "ps_sendCallback w1 = None"
      "ps_sendCallback w \<noteq> None \<longrightarrow> ps_callbackCtx w1 = None \<and> ps_callbackCancel w1 = None"
    using inv0 by (rule run_sendCallback_unfiltered [of ?w0 d f r]) simp
  from assms(2) show ?thesis
  proof (cases rule: HandleSend_cases)
    case dropped
    with run show ?thesis by simp
  next
    case (passed w2 chans)
    with run have w2: "w2 = w1" by simp
    have "chans ! i = (if i \<in> set (ps_rcChan w) then handed (packet_of d f (pc_view w r)) (w_ctxs w) (w_chans w ! i)
        else w_chans w ! i)" for i
      using inv passed(3) by (intro send_to_chans_nth) (auto simp: w1 w2 sp_inv_def inv_chans_def)
    with passed w1 HandleSend_frame [OF assms(2)] show ?thesis by (simp add: w2)
  qed
qed

lemma HandleSend_unfiltered_witness:
  "\<exists>v. HandleSend [7] 0 0 ex_stale_filter = Some (True, v) \<and> ps_sendCallback v = None"
proof -
  obtain b v where h: "HandleSend [7] 0 0 ex_stale_filter = Some (b, v)"
    using sp.holds_when_reached [OF ex_stale_filter_reachable] by (rule HandleSend_total)
  have "ps_callbackCtx ex_stale_filter = Some 2 \<and> ctx_Err (w_ctxs ex_stale_filter) 2 \<noteq> None"
    using ex_stale_filter_dead by (simp add: ex_stale_filter_def ex_filter)
  with HandleSend_unfiltered [OF ex_stale_filter_reachable h] h show ?thesis by auto
qed

text \<open>C15: At most one live filter: while the installed filter's context lives, \<open>TrySetFilterCallback\<close>
  refuses and changes nothing; otherwise it never panics and installs the new callback with a
  fresh context below the caller's, which is alive if the caller's is.\<close>

theorem TrySetFilterCallback_exclusive:
  assumes "reachable w"
  shows "\<exists>e v. TrySetFilterCallback cb parent w = Some (e, v) \<and>
     (if \<exists>c. ps_callbackCtx w = Some c \<and> ctx_Err (w_ctxs w) c = None
      then e = Some (ErrNew ''callback already exists'') \<and> v = w
      else e = None \<and> ps_sendCallback v = cb \<and>
        (\<exists>c. ps_callbackCtx v = Some c \<and> ps_callbackCancel v = Some c \<and>
           length (w_ctxs w) \<le> c \<and>
           Cause (w_ctxs v) c = (case parent of None \<Rightarrow> None | Some p \<Rightarrow> Cause (w_ctxs w) p)))"
proof -
  have inv: "sp_inv w" using assms by (rule sp.holds_when_reached)
  have set: "ps_sendCallback (set_callback cb parent u) = cb \<and>
      ps_callbackCtx (set_callback cb parent u) = Some (length (w_ctxs u)) \<and>
      ps_callbackCancel (set_callback cb parent u) = Some (length (w_ctxs u)) \<and>
      Cause (w_ctxs (set_callback cb parent u)) (length (w_ctxs u)) =
        (case parent of None \<Rightarrow> None | Some p \<Rightarrow> Cause (w_ctxs u) p)" for u
    by (simp add: set_callback_def WithCancelCause_def Cause_append)
  show ?thesis
  proof (cases "ps_callbackCtx w")
    case None
    with set show ?thesis by (simp add: TrySetFilterCallback_def)
  next
    case (Some c)
    show ?thesis
    proof (cases "Cause (w_ctxs w) c")
      case None
      with Some show ?thesis by (simp add: TrySetFilterCallback_def)
    next
      case (Some e)
      then have same: "cancel_cause c None (w_ctxs w) = w_ctxs w" by (auto simp: cancel_cause_def)
      let ?u = "(w_cancel c None w)\<lparr>ps_callbackCancel := None, ps_callbackCtx := None, ps_sendCallback := None\<rparr>"
      from Some \<open>ps_callbackCtx w = Some c\<close> set [of ?u] free_callback_some [OF inv, of c]
      show ?thesis by (cases parent) (simp_all add: TrySetFilterCallback_def same)
    qed
  qed
qed

lemma TrySetFilterCallback_exclusive_witness:
  "\<exists>e. TrySetFilterCallback None None ex_filter = Some (e, ex_filter) \<and> e \<noteq> None"
  using TrySetFilterCallback_exclusive [OF ex_filter_reachable, of None None]
  by (simp add: ex_filter ex_conn ex_new Cause_def)

text \<open>C31: A receive channel whose context has ended is handed nothing more, ever; what it was handed
  is never taken back or reordered, and a closed channel stays closed.\<close>

theorem recv_chan_history:
  assumes "reachable w" "spawner_step\<^sup>*\<^sup>* w v" "i < length (w_chans w)"
  shows "prefix (rc_got (w_chans w ! i)) (rc_got (w_chans v ! i)) \<and>
     (ctx_Err (w_ctxs w) (rc_ctx (w_chans w ! i)) \<noteq> None \<longrightarrow>
        rc_got (w_chans v ! i) = rc_got (w_chans w ! i)) \<and>
     (rc_closed (w_chans w ! i) \<longrightarrow> rc_closed (w_chans v ! i))"
  using w_laterD(4) [OF reachable_run [OF assms(1,2)]] assms(3)
  by (simp add: chans_later_def)

lemma recv_chan_history_witness:
  "rc_got (w_chans (w_cancel 3 None (w_cancel 2 None ex_chans)) ! 0) = [] \<and>
   prefix (rc_got (w_chans ex_chans ! 0)) (rc_got (w_chans ex_dead_chans ! 0))"
proof -
  have "spawner_step\<^sup>*\<^sup>* ex_chans ex_dead_chans"
    unfolding ex_dead_chans_def by (meson step_cancel converse_rtranclp_into_rtranclp rtranclp.rtrancl_refl)
  from recv_chan_history [OF ex_chans_reachable this, of 0] show ?thesis by (simp add: ex_chans)
qed

end
