(* ===== verification/LifecycleProps.thy ===== *)
theory LifecycleProps
  imports SpawnerProps
begin

text \<open>
  Properties of the life of connections, of the spawner and of its listeners: identifiers, the
  pruner, closing, death, retries.
\<close>

section \<open>Connections\<close>

text \<open>C25: A new connection gets the current id, which no connection had, and is found under it with
  that id; its container is a new one; the other ids keep their meaning; the counter moves on.\<close>

theorem AddConnection_fresh:
  assumes "reachable w" "px_ok px" "ps_currentId w \<noteq> - 1"
    and "AddConnection NewProxyContainer px w = (Inr r, v)"
  shows "GetProxy (ps_currentId w) w = Inl (ErrNew ''proxy not found'') \<and>
     GetProxy (ps_currentId w) v = Inr r \<and> pc_GetId v r = ps_currentId w \<and>
     r \<notin> ran (ps_connections w) \<and> ps_currentId v = ps_currentId w + 1 \<and>
     (\<forall>i. i \<noteq> ps_currentId w \<longrightarrow> GetProxy i v = GetProxy i w)"
proof -
  have inv: "sp_inv w" using assms(1) by (rule sp.holds_when_reached)
  obtain w1 where m: "NewProxyContainer px (ps_currentId w) w = (Inr r, w1)"
    and v: "v = w1\<lparr>ps_currentId := ps_currentId w + 1,
                ps_connections := (ps_connections w)(ps_currentId w \<mapsto> r), ps_wg := ps_wg w + 1\<rparr>"
    using inv assms(2,4) by (rule container.AddConnection_ok)
  have "ps_connections w (ps_currentId w) = None"
    using inv by (cases "ps_connections w (ps_currentId w)") (auto simp: sp_inv_def inv_conns_def)
  moreover have "pc_id (w_pcs w1 ! r) = ps_currentId w" using container.made [OF inv assms(2) m] by simp
  moreover have "r = length (w_pcs w)"
    using m by (auto simp: NewProxyContainer_def Let_def split: prod.splits option.splits)
  then have "r \<notin> ran (ps_connections w)" using inv by (auto simp: ran_def sp_inv_def inv_conns_def)
  ultimately show ?thesis by (simp add: v pc_GetId_def) (simp add: GetProxy_def)
qed

lemma AddConnection_fresh_witness: "GetProxy 0 ex_conn = Inr 0 \<and> pc_GetId ex_conn 0 = 0"
  using AddConnection_fresh [OF ex_new_reachable ex_px_ok _ ex_add] by (simp add: ex_new)

text \<open>C26: An id never comes to stand for another connection: whatever an id that was already handed
  out finds later in the run, it found the same container before.\<close>

theorem ids_never_reused:
  assumes "reachable w" "spawner_step\<^sup>*\<^sup>* w v" "i < ps_currentId w" "GetProxy i v = Inr r"
  shows "GetProxy i w = Inr r \<and> pc_GetId v r = i"
proof -
  have "tables_later w v" using reachable_run [OF assms(1,2)] by (rule w_laterD)
  then have "ps_connections v i = None \<or> ps_connections v i = ps_connections w i"
    using assms(3) by (simp add: tables_later_def)
  moreover have "sp_inv v" using sp.holds_when_reached [OF assms(1)] assms(2) by (blast intro: sp.kept_by_runs)
  ultimately show ?thesis using assms(4) by (auto simp: sp_inv_def inv_conns_def pc_GetId_def)
qed

lemma ids_never_reused_witness: "GetProxy 0 ex_conn = Inr 0 \<and> pc_GetId ex_filter 0 = 0"
proof -
  have "spawner_step ex_conn ex_filter" by (rule step_filter [OF _ _ ex_filter_set]) auto
  then have run: "spawner_step\<^sup>*\<^sup>* ex_conn ex_filter" by blast
  show ?thesis by (rule ids_never_reused [OF ex_conn_reachable run]) (simp_all add: ex_filter ex_conn)
qed

text \<open>A connection that cannot be made leaves the table, the id counter and the wait group as they
  were. On a dead spawner nothing happens at all and the error is the context's; otherwise the
  error is what \<open>Init\<close> returned, and the container that was begun is dead.\<close>

theorem AddConnection_refused:
  assumes "reachable w" "px_ok px" "AddConnection NewProxyContainer px w = (Inl e, v)"
  shows "ps_connections v = ps_connections w \<and> ps_currentId v = ps_currentId w \<and> ps_wg v = ps_wg w \<and>
     (if IsAlive w
      then length (w_pcs v) = Suc (length (w_pcs w)) \<and> \<not> pc_IsAlive v (length (w_pcs w))
      else v = w \<and> Some e = ctx_Err (w_ctxs w) (ps_context w))"
proof (cases "IsAlive w")
  case True
  have inv: "sp_inv w" using assms(1) by (rule sp.holds_when_reached)
  have "ctx_Err (w_ctxs w) (ps_context w) = None" using True by (simp only: IsAlive_def)
  then obtain w2 where m: "NewProxyContainer px (ps_currentId w) w = (Inl e, w2)"
    and v: "v = HandleError e None w2"
    using assms(3) by (auto simp: AddConnection_def Let_def ctx_Err_def split: prod.splits sum.splits)
  obtain c w1 where a: "alloc_container px (ps_currentId w) w = (c, w1)" by fastforce
  note f = alloc_container_facts [OF a]
  let ?w1' = "w_put (snd (px_Init px c (w_ext w1))) w1"
  from m a have w2: "\<exists>x. w2 = w_cancel c (Some x) ?w1'" by (auto elim: NewProxyContainer_cases)
  have inv1: "sp_inv w1" using inv assms(2) a by (rule alloc_container_inv)
  then have "sp_inv ?w1'"
    using assms(2) by (intro sp_inv_w_put [where f = "\<lambda>x. snd (px_Init px c x)"]) (simp_all add: px_ok_def)
  then have "c < length (w_ctxs ?w1')" using f(3,5) by (auto simp: sp_inv_def inv_pcs_def)
  then have dead: "Cause (w_ctxs w2) c \<noteq> None" using w2 by (auto simp: Cause_cancel_cause split: option.splits)
  have pcs: "w_pcs w2 = w_pcs w1" using w2 by auto
  have "sp_inv w2" using container.maker_inv [OF inv assms(2) m] .
  then have "ctx_le (w_ctxs w2) (w_ctxs v)" unfolding v using HandleError_later by (blast dest: w_laterD(1))
  then have "Cause (w_ctxs v) c \<noteq> None" using dead by (rule ctx_le_dead)
  moreover have "spawner_same w v"
    unfolding v using container.maker_same [OF m] by (rule spawner_same_trans) simp
  ultimately show ?thesis
    using True f(3,5) pcs by (simp add: v pc_IsAlive_def spawner_same_def)
next
  case False
  with assms(3) show ?thesis
    by (auto simp: AddConnection_def IsAlive_def ctx_Err_def split: option.splits)
qed

lemma AddConnection_refused_witness:
  "AddConnection NewProxyContainer ex_px (w_cancel 0 None ex_new) = (Inl Canceled, w_cancel 0 None ex_new) \<and>
   ps_connections (w_cancel 0 None ex_new) 0 = None"
proof -
  let ?w = "w_cancel 0 None ex_new"
  have dead: "Cause (w_ctxs ?w) 0 = Some Canceled" by (simp add: Cause_cancel_cause) (simp add: ex_new Cause_def)
  have "reachable ?w" by (rule reach_next [OF ex_new_reachable step_cancel])
  moreover have "AddConnection NewProxyContainer ex_px ?w = (Inl Canceled, ?w)"
    using dead by (simp add: AddConnection_def ctx_Err_def) (simp add: ex_new)
  ultimately show ?thesis
    using AddConnection_refused [OF _ ex_px_ok, of ?w] by (simp add: ex_new)
qed

section \<open>Injecting\<close>

text \<open>
  A packet that is injected goes through: \<open>HandleSend\<close> lets it pass with these flags, the method of the proxy is
  called with the data, exactly once, and what it does and returns is what the sender does and
  returns: an error goes to the error callback, a success into the statistics of the container.
\<close>

definition goes_through ::
  "CapFlags \<Rightarrow> (bytes \<Rightarrow> 'e ext \<Rightarrow> err option \<times> 'e ext) \<Rightarrow> nat \<Rightarrow> bytes \<Rightarrow> 'e world \<Rightarrow> err option \<Rightarrow> 'e world \<Rightarrow> bool"
where
  "goes_through flags method r d w e v \<longleftrightarrow>
     (\<exists>w1 x. HandleSend d flags r w = Some (True, w1) \<and> method d (w_ext w1) = (e, x) \<and>
        v = (case e of None \<Rightarrow> pc_account r d (w_put x w1) | Some err \<Rightarrow> HandleError err (Some r) (w_put x w1)))"

text \<open>C18: No filter can stop an injected packet, in either direction: a send on a live container passes
  \<open>HandleSend\<close> with the flag for injected packets (and the flag for the server where it goes
  there), calls the method of the proxy for that direction with the data, exactly once, and returns
  its result. The state afterwards is the one the proxy left, with the error handed to the error
  callback or the statistics brought up to date. The spawner's byte counter grows whether or not
  the proxy accepted the data, the container's only if it did. No other container is touched.\<close>

theorem injection_reaches_proxy:
  assumes "reachable w" "r < length (w_pcs w)" "pc_IsAlive w r"
  defines "px \<equiv> pc_px (w_pcs w ! r)"
  shows "\<exists>e v e' v'. pc_SendToClient HandleSend HandleError r d w = Some (e, v) \<and>
     goes_through CapFlag_Injected (px_SendToClient px) r d w e v \<and>
     pc_SendToServer HandleSend HandleError r d w = Some (e', v') \<and>
     goes_through (CapFlag_ToServer OR CapFlag_Injected) (px_SendToServer px) r d w e' v' \<and>
     ps_totalSent v = ps_totalSent w + of_nat (length d) \<and> ps_totalSent v' = ps_totalSent v \<and>
     pc_bytesSent (w_pcs v ! r) = pc_bytesSent (w_pcs w ! r) + (if e = None then of_nat (length d) else 0) \<and>
     pc_bytesSent (w_pcs v' ! r) = pc_bytesSent (w_pcs w ! r) + (if e' = None then of_nat (length d) else 0) \<and>
     (\<forall>q. q \<noteq> r \<longrightarrow> w_pcs v ! q = w_pcs w ! q \<and> w_pcs v' ! q = w_pcs w ! q)"
proof -
  have inv: "sp_inv w" using assms(1) by (rule sp.holds_when_reached)
  obtain e v where c: "pc_SendToClient HandleSend HandleError r d w = Some (e, v)"
    using senders_total(1) [OF inv, of r d] by fastforce
  obtain e' v' where s: "pc_SendToServer HandleSend HandleError r d w = Some (e', v')"
    using senders_total(2) [OF inv, of r d] by fastforce
  have "goes_through CapFlag_Injected (px_SendToClient px) r d w e v"
    using spawner.SendToClient_live [OF assms(3) c] unfolding goes_through_def px_def pc_after_send_def
    by (metis prod.collapse)
  moreover have "goes_through (CapFlag_ToServer OR CapFlag_Injected) (px_SendToServer px) r d w e' v'"
    using spawner.SendToServer_live [OF assms(3) s] unfolding goes_through_def px_def pc_after_send_def
    by (metis prod.collapse)
  moreover have "\<forall>q. q \<noteq> r \<longrightarrow> w_pcs v ! q = w_pcs w ! q \<and> w_pcs v' ! q = w_pcs w ! q"
    using spawner.sends_others [OF pc_SendToClient_sends [OF c]] spawner.sends_others [OF pc_SendToServer_sends [OF s]]
    by simp
  ultimately show ?thesis
    using c s spawner.SendToClient_counts [OF assms(3,2) c] spawner.SendToServer_counts [OF assms(3,2) s]
    by (intro exI [of _ e] exI [of _ v] exI [of _ e'] exI [of _ v']) simp
qed

lemma injection_reaches_proxy_witness:
  "\<exists>e v e' v'. pc_SendToClient HandleSend HandleError 0 [1, 2, 3] ex_filter = Some (e, v) \<and> ps_totalSent v = 3 \<and>
     pc_SendToServer HandleSend HandleError 0 [1, 2, 3] ex_filter = Some (e', v') \<and>
     goes_through (CapFlag_ToServer OR CapFlag_Injected) (px_SendToServer ex_px) 0 [1, 2, 3] ex_filter e' v'"
proof -
  have "0 < length (w_pcs ex_filter)" "pc_IsAlive ex_filter 0" "pc_px (w_pcs ex_filter ! 0) = ex_px" "ps_totalSent ex_filter = 0"
    by (simp_all add: ex_filter ex_conn ex_new pc_IsAlive_def Cause_def)
  with injection_reaches_proxy [OF ex_filter_reachable this(1,2), of "[1, 2, 3]"] show ?thesis by auto
qed

text \<open>C19: Over a run of a container's packet loop, the spawner's counter moves by the bytes of all packets
  that the loop took, also those that the filter dropped, and the container's by exactly the bytes
  of the packets that passed the filter and that the proxy took without an error, both modulo 2^64.
  So both are exact sums as long as these stay below 2^64, and a counter that has become smaller
  has wrapped around.\<close>

theorem byte_counters_bounds:
  assumes "reachable w" "r < length (w_pcs w)" "handlePacket HandleSend HandleError r evs w = Some v"
  defines "all \<equiv> packet_bytes evs" and "taken \<equiv> taken_bytes HandleSend HandleError r evs w"
  shows "unat (GetBytesSent v) = (unat (GetBytesSent w) + all) mod 2 ^ 64 \<and>
     unat (pc_GetBytesSent v r) = (unat (pc_GetBytesSent w r) + taken) mod 2 ^ 64 \<and> taken \<le> all \<and>
     (all < 2 ^ 64 \<longrightarrow>
        (unat (GetBytesSent v) < unat (GetBytesSent w) \<longleftrightarrow> 2 ^ 64 \<le> unat (GetBytesSent w) + all) \<and>
        (unat (pc_GetBytesSent v r) < unat (pc_GetBytesSent w r) \<longleftrightarrow> 2 ^ 64 \<le> unat (pc_GetBytesSent w r) + taken))"
proof -
  note counts = spawner.handlePacket_counts [OF assms(3,2)]
  then have total: "unat (GetBytesSent v) = (unat (GetBytesSent w) + all) mod 2 ^ 64"
    and own: "unat (pc_GetBytesSent v r) = (unat (pc_GetBytesSent w r) + taken) mod 2 ^ 64"
    by (simp_all only: GetBytesSent_def pc_GetBytesSent_def u64_add_nat all_def taken_def)
  moreover have le: "taken \<le> all" by (simp add: all_def taken_def taken_bytes_le)
  moreover have "unat (GetBytesSent v) < unat (GetBytesSent w) \<longleftrightarrow> 2 ^ 64 \<le> unat (GetBytesSent w) + all"
    if "all < 2 ^ 64"
    unfolding total using u64_bound that by (rule sum_mod_less_iff)
  moreover have "unat (pc_GetBytesSent v r) < unat (pc_GetBytesSent w r) \<longleftrightarrow> 2 ^ 64 \<le> unat (pc_GetBytesSent w r) + taken"
    if "all < 2 ^ 64"
    unfolding own using u64_bound le_less_trans [OF le that] by (rule sum_mod_less_iff)
  ultimately show ?thesis by blast
qed

lemma byte_counters_bounds_witness:
  "\<exists>v. handlePacket HandleSend HandleError 0 [PcData \<lparr>ppd_Serverbound = True, ppd_Source = ex_client,
      ppd_Dest = ex_server, ppd_Data = [1, 2]\<rparr>, PcDone] ex_conn = Some v \<and> unat (GetBytesSent v) = 2 \<and>
      unat (pc_GetBytesSent v 0) = 2"
proof -
  let ?p = "\<lparr>ppd_Serverbound = True, ppd_Source = ex_client, ppd_Dest = ex_server, ppd_Data = [1, 2]\<rparr>"
  let ?evs = "[PcData ?p, PcDone]"
  have r: "0 < length (w_pcs ex_conn)" by (simp add: ex_conn)
  have conn: "ps_sendCallback ex_conn = None" "ps_rcChan ex_conn = []" "pc_px (w_pcs ex_conn ! 0) = ex_px"
    by (simp_all add: ex_conn ex_new)
  have took: "proxy_took HandleSend 0 ?p ex_conn"
    by (simp add: proxy_took_def HandleSend_def run_sendCallback_def conn) (simp add: ex_px_def)
  obtain v where v: "handlePacket HandleSend HandleError 0 ?evs ex_conn = Some v"
    using handlePacket_total [OF sp.holds_when_reached [OF ex_conn_reachable] r] by blast
  then have "taken_bytes HandleSend HandleError 0 ?evs ex_conn = 2"
    using took by (auto simp: Option.bind_eq_Some_conv)
  with v byte_counters_bounds [OF ex_conn_reachable r v] show ?thesis
    by (simp add: ex_conn ex_new GetBytesSent_def pc_GetBytesSent_def)
qed

text \<open>Once a container is dead, sending through it changes nothing and returns the cause its context
  was cancelled with; and it stays so for the rest of the run.\<close>

theorem dead_container_refuses:
  assumes "reachable w" "spawner_step\<^sup>*\<^sup>* w v" "r < length (w_pcs w)" "\<not> pc_IsAlive w r"
  shows "\<exists>cause. Cause (w_ctxs w) (pc_ctx (w_pcs w ! r)) = Some cause \<and>
     pc_SendToClient HandleSend HandleError r d v = Some (Some cause, v) \<and>
     pc_SendToServer HandleSend HandleError r d v = Some (Some cause, v)"
proof -
  have later: "w_later w v" using assms(1,2) by (rule reachable_run)
  obtain cause where c: "Cause (w_ctxs w) (pc_ctx (w_pcs w ! r)) = Some cause"
    using assms(4) by (auto simp: pc_IsAlive_def)
  with w_laterD(1,3) [OF later] assms(3) have "Cause (w_ctxs v) (pc_ctx (w_pcs v ! r)) = Some cause"
    by (auto simp: pcs_later_def intro: ctx_le_Cause)
  with c show ?thesis by (simp add: pc_SendToClient_def pc_SendToServer_def)
qed

lemma dead_container_refuses_witness:
  "pc_SendToClient HandleSend HandleError 0 [1] (snd (CloseProxy 0 ex_conn)) =
     Some (Some ErrProxyClosedOk, snd (CloseProxy 0 ex_conn))"
proof -
  let ?w = "snd (CloseProxy 0 ex_conn)"
  have w: "?w = w_cancel 1 (Some ErrProxyClosedOk) ex_conn" "w_pcs ?w \<noteq> []" "pc_ctx (w_pcs ?w ! 0) = 1"
    by (simp_all add: CloseProxy_def GetProxy_def pc_Cancel_def ex_conn w_cancel_def)
  have c: "Cause (w_ctxs ?w) 1 = Some ErrProxyClosedOk"
    unfolding w(1) by (simp add: Cause_cancel_cause) (simp add: ex_conn Cause_def)
  have "spawner_step ex_conn ?w" by (rule step_close_proxy [of 0 _ "fst (CloseProxy 0 ex_conn)"]) simp
  then have "reachable ?w" by (rule reach_next [OF ex_conn_reachable])
  from dead_container_refuses [OF this rtranclp.rtrancl_refl, of 0 "[1]"] c w
  show ?thesis by (simp add: pc_IsAlive_def)
qed

section \<open>The pruner\<close>

lemma pruner_tick_split:
  assumes "sp_inv w" "range_order ks (ps_connections w)"
  shows "pruner_tick ks w =
     (case swap_delete (hits (\<lambda>i. ctx_Err (w_ctxs w) (rc_ctx (w_chans w ! i)) \<noteq> None) (ps_rcChan w)) (ps_rcChan w) of
        None \<Rightarrow> None
      | Some rc \<Rightarrow> Some (w\<lparr>ps_connections := (ps_connections w) |` (- set (dead_keys ks w)),
                           ps_wg := ps_wg w - int (length (dead_keys ks w)), ps_rcChan := rc\<rparr>))"
proof -
  obtain w1 where d: "delete_keys (dead_keys ks w) w = Some w1"
    using delete_keys_no_panic [OF range_order_wg [OF assms]] by blast
  from delete_keys_result [OF d] have w1: "w1 = w\<lparr>ps_connections := (ps_connections w) |` (- set (dead_keys ks w)),
      ps_wg := ps_wg w - int (length (dead_keys ks w))\<rparr>" .
  have "dead_chans w1 = dead_chans w" by (simp add: w1 dead_chans_def)
  then show ?thesis
    unfolding pruner_tick_def d prune_chans_def dead_chans_hits [symmetric]
    by (simp add: w1 split: option.split)
qed

text \<open>C13: Exactly when a tick of the pruner panics: with \<open>m\<close> dead receive channels among \<open>n\<close>, the deletion
  loop runs out of the slice if and only if a dead channel sits beyond position \<open>n - m\<close>. So one
  dead channel is always removed safely, but two dead channels at the end bring the process down.\<close>

theorem pruner_tick_panics_iff:
  assumes "reachable w" "range_order ks (ps_connections w)"
  defines "dead \<equiv> \<lambda>i. ctx_Err (w_ctxs w) (rc_ctx (w_chans w ! i)) \<noteq> None"
  shows "pruner_tick ks w = None \<longleftrightarrow>
     (\<exists>k < length (ps_rcChan w).
        length (ps_rcChan w) - length (filter dead (ps_rcChan w)) < k \<and> dead (ps_rcChan w ! k))"
  using swap_delete_hits_safe_iff [of dead "ps_rcChan w"]
    pruner_tick_split [OF sp.holds_when_reached [OF assms(1)] assms(2)]
  unfolding dead_def [symmetric] by (auto split: option.splits)

lemma ex_range_order: "range_order [0] (ps_connections ex_dead_chans)" "range_order [0] (ps_connections ex_chans)"
  by (simp_all add: range_order_def ex_chans_sel ex_dead_chans_sel)

text \<open>Two dead channels, and the pruner panics.\<close>

lemma pruner_tick_panics_witness: "pruner_tick [0] ex_dead_chans = None"
proof (rule iffD2 [OF pruner_tick_panics_iff [OF ex_dead_chans_reachable ex_range_order(1)]])
  show "\<exists>k < length (ps_rcChan ex_dead_chans).
      length (ps_rcChan ex_dead_chans) - length (filter (\<lambda>i. ctx_Err (w_ctxs ex_dead_chans) (rc_ctx (w_chans ex_dead_chans ! i)) \<noteq> None)
        (ps_rcChan ex_dead_chans)) < k \<and>
      ctx_Err (w_ctxs ex_dead_chans) (rc_ctx (w_chans ex_dead_chans ! (ps_rcChan ex_dead_chans ! k))) \<noteq> None"
    by (rule exI [of _ 1]) (simp add: ex_dead_chans_sel)
qed

text \<open>C14: When the tick does not panic it does its job: the table keeps exactly the live connections, the
  wait group loses one count for each connection removed, the receive channels that remain are
  exactly those with a live context (in some order), and no other part of the state changes at all.\<close>

theorem pruner_tick_result:
  assumes "reachable w" "range_order ks (ps_connections w)" "pruner_tick ks w = Some v"
  shows "(\<forall>i r. GetProxy i v = Inr r \<longleftrightarrow> GetProxy i w = Inr r \<and> pc_IsAlive w r) \<and>
     ps_wg v = ps_wg w - int (length (filter (\<lambda>i. \<exists>r. GetProxy i w = Inr r \<and> \<not> pc_IsAlive w r) ks)) \<and>
     mset (ps_rcChan v) = mset (filter (\<lambda>i. ctx_Err (w_ctxs w) (rc_ctx (w_chans w ! i)) = None) (ps_rcChan w)) \<and>
     v = w\<lparr>ps_connections := ps_connections v, ps_wg := ps_wg v, ps_rcChan := ps_rcChan v\<rparr>"
proof -
  let ?dead = "\<lambda>i. ctx_Err (w_ctxs w) (rc_ctx (w_chans w ! i)) \<noteq> None"
  from assms(3) obtain rc where
    rc: "swap_delete (hits ?dead (ps_rcChan w)) (ps_rcChan w) = Some rc"
    and v: "v = w\<lparr>ps_connections := (ps_connections w) |` (- set (dead_keys ks w)),
        ps_wg := ps_wg w - int (length (dead_keys ks w)), ps_rcChan := rc\<rparr>"
    unfolding pruner_tick_split [OF sp.holds_when_reached [OF assms(1)] assms(2)]
    by (auto split: option.splits)
  have keys: "dead_keys ks w = filter (\<lambda>i. \<exists>r. ps_connections w i = Some r \<and> \<not> pc_IsAlive w r) ks"
    unfolding dead_keys_def by (rule filter_cong) (auto split: option.splits)
  have "GetProxy i v = Inr r \<longleftrightarrow> GetProxy i w = Inr r \<and> pc_IsAlive w r" for i r
    using assms(2) by (auto simp: v dead_keys_set restrict_map_def range_order_def)
  moreover have "mset rc = mset (filter (\<lambda>i. \<not> ?dead i) (ps_rcChan w))"
    using rc by (rule swap_delete_hits_mset)
  ultimately show ?thesis by (simp add: v) (simp add: keys)
qed

lemma pruner_tick_result_witness:
  "\<exists>v. pruner_tick [0] ex_chans = Some v \<and> GetProxy 0 v = Inr 0 \<and> mset (ps_rcChan v) = {#0, 1#}"
proof -
  obtain v where v: "pruner_tick [0] ex_chans = Some v"
    by (simp add: pruner_tick_def dead_keys_def pc_IsAlive_def prune_chans_def dead_chans_def ex_chans_sel)
  from pruner_tick_result [OF ex_chans_reachable ex_range_order(2) v] v show ?thesis
    by (simp add: ex_chans_sel pc_IsAlive_def)
qed

section \<open>Closing and death\<close>

lemma wait_group_stays_up:
  assumes "reachable w" "w_pruner w \<noteq> PrunerNotRun" "spawner_step\<^sup>*\<^sup>* w v"
  shows "ps_wg v \<noteq> 0"
proof -
  have "w_pruner v \<noteq> PrunerNotRun"
    using reachable_run [OF assms(1,3)] assms(2) by (simp add: w_later_def tables_later_def)
  moreover have "inv_wg v"
    using sp.holds_when_reached [OF assms(1)] assms(3) by (blast intro: sp.kept_by_runs sp_invD)
  ultimately show ?thesis by (simp add: inv_wg_def)
qed

text \<open>C16: Once the pruner goroutine has run, the wait group never gets back to zero, so \<open>Close\<close> always
  reports a timeout, whatever else happens while it waits.\<close>

theorem Close_times_out:
  assumes "reachable w" "w_pruner w \<noteq> PrunerNotRun" "\<forall>v \<in> set seen. spawner_step\<^sup>*\<^sup>* w v"
  shows "Close_result seen = Some (ErrNew ''timed out closing proxies'')"
  using wait_group_stays_up [OF assms(1,2)] assms(3) by (auto simp: Close_result_def list_ex_iff)

lemma Close_times_out_witness:
  "Close_result [ex_pruning, snd (CloseProxy 0 ex_pruning)] = Some (ErrNew ''timed out closing proxies'')"
proof (rule Close_times_out [OF ex_pruning_reachable])
  have "spawner_step ex_pruning (snd (CloseProxy 0 ex_pruning))"
    by (rule step_close_proxy [of 0 _ "fst (CloseProxy 0 ex_pruning)"]) simp
  then show "\<forall>v \<in> set [ex_pruning, snd (CloseProxy 0 ex_pruning)]. spawner_step\<^sup>*\<^sup>* ex_pruning v" by auto
qed (simp add: ex_pruning_def pruner_begin_def)

text \<open>C17: \<open>Close\<close> panics exactly if one of the spawner's receive channels has been closed before. When it
  does not panic, the spawner and all its containers and receive channels are dead and closed, and
  a second \<open>Close\<close> panics if there is any receive channel left.\<close>

theorem Close_effect:
  assumes "reachable w"
  shows "(Close_start w = None \<longleftrightarrow> (\<exists>i \<in> set (ps_rcChan w). rc_closed (w_chans w ! i))) \<and>
     (\<forall>v. Close_start w = Some v \<longrightarrow>
        \<not> IsAlive v \<and> (\<forall>r < length (w_pcs v). \<not> pc_IsAlive v r) \<and>
        (\<forall>i \<in> set (ps_rcChan v). rc_closed (w_chans v ! i) \<and> ctx_Err (w_ctxs v) (rc_ctx (w_chans v ! i)) \<noteq> None) \<and>
        (ps_rcChan v \<noteq> [] \<longrightarrow> Close_start v = None))"
proof -
  have inv: "sp_inv w" using assms by (rule sp.holds_when_reached)
  have panics: "Close_start u = None \<longleftrightarrow> (\<exists>i \<in> set (ps_rcChan u). rc_closed (w_chans u ! i))" if "sp_inv u" for u :: "'a world"
    using that close_chans_panics_iff [of "ps_rcChan u" u]
    by (cases "close_chans (ps_rcChan u) u") (auto simp: Close_start_def sp_inv_def inv_chans_def)
  moreover have "\<not> IsAlive v \<and> (\<forall>r < length (w_pcs v). \<not> pc_IsAlive v r) \<and>
      (\<forall>i \<in> set (ps_rcChan v). rc_closed (w_chans v ! i) \<and> ctx_Err (w_ctxs v) (rc_ctx (w_chans v ! i)) \<noteq> None) \<and>
      (ps_rcChan v \<noteq> [] \<longrightarrow> Close_start v = None)"
    if c: "Close_start w = Some v" for v
  proof -
    have invv: "sp_inv v" using inv c by (rule Close_start_inv)
    from c obtain w1 where c1: "close_chans (ps_rcChan w) w = Some w1"
      and v: "v = w_cancel (ps_context w1) (Some ErrSpawnerClosedOk) w1"
      by (auto simp: Close_start_def Option.bind_eq_Some_conv)
    have "ps_context v < length (w_ctxs v)" using invv by (simp add: sp_inv_def inv_ctx_def)
    then have dead: "\<not> IsAlive v"
      by (auto simp: v IsAlive_def Cause_cancel_cause split: option.splits)
    have same: "ps_rcChan v = ps_rcChan w"
      using close_chans_frame [OF c1] by (simp add: v spawner_same_def)
    have closed: "rc_closed (w_chans v ! i)" if "i \<in> set (ps_rcChan v)" for i
      using close_chans_closes [OF c1] that inv same by (simp add: v sp_inv_def inv_chans_def)
    moreover have "Cause (w_ctxs v) (rc_ctx (w_chans v ! i)) \<noteq> None" if "i \<in> set (ps_rcChan v)" for i
      using closed [OF that] that invv by (simp add: sp_inv_def inv_chans_def)
    moreover have "Close_start v = None" if "ps_rcChan v \<noteq> []"
      using panics [OF invv] closed that by (meson hd_in_set)
    ultimately show ?thesis using dead sp_inv_dead_containers [OF invv dead] by simp
  qed
  ultimately show ?thesis using inv by blast
qed

lemma Close_effect_witness: "\<exists>v. Close_start ex_chans = Some v \<and> \<not> IsAlive v"
  using Close_effect [OF ex_chans_reachable] by (cases "Close_start ex_chans") (auto simp: ex_chans)

text \<open>C27: The death of the spawner is final: its cause never changes, every container it ever made or makes
  is dead, and it accepts no connection and no listener any more.\<close>

theorem spawner_death_final:
  assumes "reachable w" "spawner_step\<^sup>*\<^sup>* w v" "\<not> IsAlive w"
  shows "\<not> IsAlive v \<and> Cause (w_ctxs v) (ps_context v) = Cause (w_ctxs w) (ps_context w) \<and>
     (\<forall>r < length (w_pcs v). \<not> pc_IsAlive v r) \<and>
     AddConnection maker px v = (Inl Canceled, v) \<and> addListener h v = (0, v)"
proof -
  have later: "w_later w v" using assms(1,2) by (rule reachable_run)
  obtain c where c: "Cause (w_ctxs w) (ps_context w) = Some c" using assms(3) by (auto simp: IsAlive_def)
  with w_laterD(1,2) [OF later] have cv: "Cause (w_ctxs v) (ps_context v) = Some c"
    by (simp add: tables_later_def ctx_le_Cause)
  then have dead: "\<not> IsAlive v" by (simp add: IsAlive_def)
  have "sp_inv v" using sp.holds_when_reached [OF assms(1)] assms(2) by (blast intro: sp.kept_by_runs)
  with c cv dead show ?thesis
    by (simp add: sp_inv_dead_containers AddConnection_def addListener_def ctx_Err_def)
qed

lemma spawner_death_final_witness:
  "\<not> IsAlive (w_cancel 0 (Some IoEOF) ex_conn) \<and> \<not> pc_IsAlive (w_cancel 0 (Some IoEOF) ex_conn) 0"
proof -
  let ?w = "w_cancel 0 (Some IoEOF) ex_conn"
  have "Cause (w_ctxs ?w) 0 = Some IoEOF" by (simp add: Cause_cancel_cause) (simp add: ex_conn Cause_def)
  then have dead: "\<not> IsAlive ?w" by (simp add: IsAlive_def) (simp add: ex_conn ex_new)
  have "reachable ?w" by (rule reach_next [OF ex_conn_reachable step_cancel])
  from spawner_death_final [OF this rtranclp.rtrancl_refl dead] show ?thesis by (simp add: ex_conn)
qed

text \<open>The constructor fails without listeners, for equal addresses, or with the cause of the spawner's
  context if that is dead by then, because of the parent or because a listener has failed already;
  otherwise it returns a live spawner, in the state in which the listeners have left it. If they have
  done nothing yet, that is one without connections, channels or callbacks.\<close>

theorem NewProxySpawner_result:
  "let ps = early (new_spawner server proxy parent \<sigma> e now) in
   (case NewProxySpawnerWithContainer server proxy parent n early \<sigma> e now of
     Inl err \<Rightarrow> n = 0 \<and> err = ErrNew ''no listeners given'' \<or>
       n \<noteq> 0 \<and> addr_Network server = addr_Network proxy \<and> addr_String server = addr_String proxy \<and>
         err = ErrNew ''server address and proxy address must be different'' \<or>
       n \<noteq> 0 \<and> (addr_Network server, addr_String server) \<noteq> (addr_Network proxy, addr_String proxy) \<and>
         Cause (w_ctxs ps) (ps_context ps) = Some err
   | Inr w \<Rightarrow> n \<noteq> 0 \<and> (addr_Network server, addr_String server) \<noteq> (addr_Network proxy, addr_String proxy) \<and>
       w = ps \<and> IsAlive w) \<and>
   (early = (\<lambda>w. w) \<longrightarrow> ps_connections ps = Map.empty \<and> ps_rcChan ps = [] \<and> ps_currentId ps = 0 \<and>
       ps_sendCallback ps = None \<and> ps_errorCallback ps = None \<and> GetBytesSent ps = 0)"
  by (auto simp: NewProxySpawnerWithContainer_def new_spawner_def Let_def IsAlive_def GetBytesSent_def
      split: option.splits prod.splits)

lemma NewProxySpawner_result_witness:
  "IsAlive ex_new \<and> NewProxySpawnerWithContainer ex_server ex_proxy None 1 (\<lambda>w. w) [] [] 0 = Inr ex_new"
proof -
  have n: "NewProxySpawnerWithContainer ex_server ex_proxy None 1 (\<lambda>w. w) [] [] 0 = Inr ex_new"
    by (simp add: ex_new NewProxySpawnerWithContainer_def new_spawner_def ex_addrs WithCancelCause_def Cause_def)
  with NewProxySpawner_result [where \<sigma> = "[]" and parent = None and server = ex_server and proxy = ex_proxy
      and n = 1 and early = "\<lambda>w. w" and e = "[] :: bytes list" and now = 0] show ?thesis by (simp add: Let_def)
qed

section \<open>Listeners\<close>

text \<open>C28: However a listener behaves, it is run at most four times, and \<open>addListener\<close> keeps the invariant
  and leaves the wait group's share of the listeners as it found it or larger.\<close>

theorem addListener_bounded:
  assumes "reachable w" "listener_ok h"
  shows "fst (addListener h w) \<le> 4 \<and> sp_inv (snd (addListener h w)) \<and>
     w_listeners w \<le> w_listeners (snd (addListener h w))"
proof (cases "ctx_Err (w_ctxs w) (ps_context w) = None")
  case True
  have inv: "sp_inv w" using assms(1) by (rule sp.holds_when_reached)
  then have "sp_inv (listener_begin w)" by (rule goroutine_steps_inv)
  from listener_loop_ok [OF this assms(2), of 0] have loop: "sp_inv (snd (listener_loop h 0 (listener_begin w)))"
      "Suc (w_listeners w) \<le> w_listeners (snd (listener_loop h 0 (listener_begin w)))"
    by (simp_all add: listener_begin_def)
  have add: "addListener h w = (fst (listener_loop h 0 (listener_begin w)),
      listener_end (snd (listener_loop h 0 (listener_begin w))))"
    using True by (simp add: addListener_def case_prod_beta)
  show ?thesis
    unfolding add fst_conv snd_conv
    using listener_loop_bounded [of h 0 "listener_begin w"] loop goroutine_steps_inv(4) [OF loop(1)]
    by (simp add: listener_end_def)
next
  case False
  with sp.holds_when_reached [OF assms(1)] show ?thesis by (auto simp: addListener_def)
qed

text \<open>A listener that gives up at once, asking for a retry.\<close>

definition ex_retry :: "bytes list IProxyListener" where
  "ex_retry ctx w = w_cancel ctx (Some (ErrorfW ''x'' ErrProxyRetry)) w"

lemma ex_retry_ok: "listener_ok ex_retry"
  by (simp add: listener_ok_def ex_retry_def sp_inv_w_cancel)

lemma addListener_bounded_witness: "fst (addListener ex_retry ex_new) \<le> 4"
  using addListener_bounded [OF ex_new_reachable ex_retry_ok] by blast

text \<open>A listener whose cause is always a retry is run exactly four times (three retries) on a live
  spawner, and then the spawner is dead.\<close>

theorem addListener_gives_up:
  assumes "reachable w" "listener_ok h" "always_retries h" "IsAlive w"
  shows "fst (addListener h w) = 4 \<and> \<not> IsAlive (snd (addListener h w))"
proof -
  have inv: "sp_inv (listener_begin w)"
    using sp.holds_when_reached [OF assms(1)] by (rule goroutine_steps_inv)
  have ctx: "ps_context (snd (listener_loop h 0 (listener_begin w))) = ps_context w"
    using listener_loop_context [OF inv assms(2)] by (simp add: listener_begin_def)
  have alive: "ctx_Err (w_ctxs w) (ps_context w) = None" "IsAlive (listener_begin w)"
    using assms(4) by (simp_all only: IsAlive_def) (simp add: listener_begin_def)
  then have "addListener h w = (fst (listener_loop h 0 (listener_begin w)),
      listener_end (snd (listener_loop h 0 (listener_begin w))))"
    by (simp add: addListener_def case_prod_beta ctx_Err_def)
  with listener_loop_retries [OF inv assms(2,3) _ alive(2), of 0] ctx show ?thesis
    by (simp add: IsAlive_def listener_end_def) (simp add: listener_begin_def)
qed

lemma ex_retry_always: "always_retries ex_retry"
  unfolding always_retries_def
proof (intro allI impI)
  fix w ctx w1
  assume inv: "sp_inv w" and alive: "IsAlive w" and run: "run_listener ex_retry w = (ctx, w1)"
  let ?\<sigma> = "w_ctxs w @ [\<lparr>ctx_parent = Some (ps_context w), ctx_cause = Cause (w_ctxs w) (ps_context w)\<rparr>]"
  have root: "ps_context w < length (w_ctxs w)" "ctx_wf (w_ctxs w)"
    using inv by (simp_all add: sp_inv_def inv_ctx_def)
  from run have c: "ctx = length (w_ctxs w)" "ps_context w1 = ps_context w"
      "w_ctxs w1 = cancel_cause ctx (Some (ErrorfW ''x'' ErrProxyRetry)) ?\<sigma>"
    by (auto simp: run_listener_def WithCancelCause_def ex_retry_def)
  have "\<not> ctx_under ?\<sigma> (length (w_ctxs w)) (ps_context w)"
    using root(1) by (auto dest: ctx_under_le)
  then show "IsAlive w1 \<and> (\<exists>cause. Cause (w_ctxs w1) ctx = Some cause \<and> errors_Is cause ErrProxyRetry)"
    using alive root by (simp add: c IsAlive_def Cause_cancel_cause Cause_append)
qed

lemma addListener_gives_up_witness:
  "fst (addListener ex_retry ex_new) = 4 \<and> \<not> IsAlive (snd (addListener ex_retry ex_new))"
  by (rule addListener_gives_up [OF ex_new_reachable ex_retry_ok ex_retry_always])
    (simp add: ex_new IsAlive_def Cause_def)

text \<open>C30: A listener whose cause is not a retry is run once. If the cause is a normal close, nothing else
  happens; any other cause, the normal close of the spawner included, is reported through
  \<open>HandleError\<close> and cancels the spawner.\<close>

theorem addListener_ends:
  assumes "reachable w" "IsAlive w" "listener_ok h" "run_listener h (listener_begin w) = (ctx, w1)"
    and "Cause (w_ctxs w1) ctx = Some cause" "\<not> errors_Is cause ErrProxyRetry"
  shows "fst (addListener h w) = 1 \<and>
     (if errors_Is cause ErrProxyClosedOk then snd (addListener h w) = listener_end w1
      else \<not> IsAlive (snd (addListener h w)) \<and>
        w_env (snd (addListener h w)) = w_env (HandleError cause None w1))"
proof -
  have "sp_inv (listener_begin w)"
    using sp.holds_when_reached [OF assms(1)] by (rule goroutine_steps_inv)
  from run_listener_ok [OF assms(4) this assms(3)] have inv1: "sp_inv w1" by simp
  have "ctx_Err (w_ctxs w) (ps_context w) = None" using assms(2) by (simp only: IsAlive_def)
  then have add: "addListener h w = (fst (listener_loop h 0 (listener_begin w)),
      listener_end (snd (listener_loop h 0 (listener_begin w))))"
    by (simp add: addListener_def case_prod_beta ctx_Err_def)
  from assms(4) show ?thesis
  proof (cases rule: listener_loop_cases [where k = 0])
    case (failed cause')
    with assms(5) fail_spawner_dead [OF inv1, of cause cause] show ?thesis
      by (simp add: add IsAlive_def listener_end_def) (simp add: fail_spawner_def Let_def)
  qed (use assms(5,6) add in auto)
qed

definition ex_accept_error :: "bytes list IProxyListener" where
  "ex_accept_error ctx w = w_cancel ctx (Some IoEOF) w"

lemma ex_accept_error_facts:
  "listener_ok ex_accept_error"
  "\<exists>w1. run_listener ex_accept_error (listener_begin ex_new) = (1, w1) \<and> Cause (w_ctxs w1) 1 = Some IoEOF"
  by (simp_all add: listener_ok_def ex_accept_error_def sp_inv_w_cancel run_listener_def listener_begin_def ex_new
      WithCancelCause_def Cause_cancel_cause) (simp add: Cause_def)

lemma addListener_ends_witness: "\<not> IsAlive (snd (addListener ex_accept_error ex_new))"
proof -
  obtain w1 where "run_listener ex_accept_error (listener_begin ex_new) = (1, w1)" "Cause (w_ctxs w1) 1 = Some IoEOF"
    using ex_accept_error_facts(2) by blast
  from addListener_ends [OF ex_new_reachable _ ex_accept_error_facts(1) this] show ?thesis
    by (simp add: ex_new IsAlive_def Cause_def)
qed

end
