(* ===== verification/Proxy.thy ===== *)
theory Proxy
  imports Spawner
begin

text \<open>
  Package \<open>proxy\<close>: the TCP and UDP implementations of \<open>IProxy\<close> and their listeners. The network
  is a parameter: what a read, an accept or a dial returns. Whatever other goroutines do to the
  contexts while a read blocks is a change of the context store that comes with the read's result.
\<close>

section \<open>\<open>util.go\<close>\<close>

fun isTimeoutError :: "err option \<Rightarrow> bool" where
  "isTimeoutError (Some (NetError timeout _)) = timeout"
| "isTimeoutError (Some DeadlineExceeded) = True"
| "isTimeoutError _ = False"

definition compareNetAddr :: "addr \<Rightarrow> addr \<Rightarrow> bool" where
  "compareNetAddr left right = (addr_Network left = addr_Network right \<and> addr_String left = addr_String right)"

section \<open>TCP\<close>

text \<open>
  \<open>TcpProxy\<close>: the remote addresses of its two connections, and the context it was initialised
  with (\<open>None\<close>: \<open>pktChan\<close> is nil).
\<close>

record TcpProxy =
  tp_client :: addr
  tp_server :: addr
  tp_ctx :: "nat option"

definition newTcpProxy :: "addr \<Rightarrow> addr \<Rightarrow> TcpProxy" where
  "newTcpProxy client server = \<lparr>tp_client = client, tp_server = server, tp_ctx = None\<rparr>"

definition TcpProxy_Init :: "nat \<Rightarrow> TcpProxy \<Rightarrow> err option \<times> TcpProxy" where
  "TcpProxy_Init ctx t =
     (if tp_ctx t \<noteq> None then (Some (ErrNew ''already initialized''), t) else (None, t\<lparr>tp_ctx := Some ctx\<rparr>))"

text \<open>
  The methods of \<open>IProxy\<close>. \<open>write_client\<close> and \<open>write_server\<close> are \<open>Write\<close> of the two connections, whose
  error is returned; the container calls \<open>Init\<close> once, on a new proxy.
\<close>

type_synonym 'e conn_write = "bytes \<Rightarrow> 'e ext \<Rightarrow> err option \<times> 'e ext"

definition tcp_IProxy :: "'e conn_write \<Rightarrow> 'e conn_write \<Rightarrow> TcpProxy \<Rightarrow> 'e IProxy" where
  "tcp_IProxy write_client write_server t =
     \<lparr>px_Init = (\<lambda>ctx x. (fst (TcpProxy_Init ctx t), x)),
      px_SendToClient = write_client, px_SendToServer = write_server,
      px_GetClientAddr = tp_client t, px_Network = ''tcp''\<rparr>"

text \<open>One read: the change of the contexts while it blocked, and its result.\<close>

type_synonym read_event = "(ctxs \<Rightarrow> ctxs) \<times> (err + bytes)"

definition tcp_packet :: "TcpProxy \<Rightarrow> addr \<Rightarrow> bytes \<Rightarrow> ProxyPacketData" where
  "tcp_packet t c data =
     (if compareNetAddr c (tp_server t)
      then \<lparr>ppd_Serverbound = False, ppd_Source = tp_server t, ppd_Dest = tp_client t, ppd_Data = data\<rparr>
      else \<lparr>ppd_Serverbound = True, ppd_Source = tp_client t, ppd_Dest = tp_server t, ppd_Data = data\<rparr>)"

text \<open>
  \<open>listen\<close> on the connection with remote address \<open>c\<close>: the packets it hands to \<open>pktChan\<close>, and the
  contexts in the end. A read error that is no timeout cancels the proxy's context and ends it.
\<close>

fun tcp_listen :: "TcpProxy \<Rightarrow> addr \<Rightarrow> nat \<Rightarrow> read_event list \<Rightarrow> ctxs \<Rightarrow> ProxyPacketData list \<times> ctxs" where
  "tcp_listen t c ctx [] \<sigma> = ([], \<sigma>)"
| "tcp_listen t c ctx ((g, res) # evs) \<sigma> =
     (if ctx_Err \<sigma> ctx \<noteq> None then ([], \<sigma>)
      else (let \<sigma>1 = g \<sigma> in
        case res of
          Inl err \<Rightarrow>
            if isTimeoutError (Some err) then tcp_listen t c ctx evs \<sigma>1
            else ([], cancel_cause ctx (Some (if err = IoEOF then ErrProxyRetry
                                              else ErrorfV ''failed to read from proxy: '' err)) \<sigma>1)
        | Inr data \<Rightarrow>
            (let (ps, \<sigma>2) = tcp_listen t c ctx evs \<sigma>1 in (tcp_packet t c data # ps, \<sigma>2))))"

text \<open>
  The loop of \<open>TcpListener\<close> after the socket is open. An event is the change of the state while
  \<open>AcceptTCP\<close> blocks, the accepted client or an error, and the result of dialling the server;
  \<open>mk\<close> builds the proxy for a client and a server connection.
\<close>

type_synonym 'e accept_event = "('e world \<Rightarrow> 'e world) \<times> (err + addr) \<times> (err + addr)"

fun tcp_accept_loop ::
  "(addr \<Rightarrow> addr \<Rightarrow> 'e IProxy) \<Rightarrow> nat \<Rightarrow> 'e accept_event list \<Rightarrow> 'e world \<Rightarrow> 'e world"
where
  "tcp_accept_loop mk ctx [] w = w"
| "tcp_accept_loop mk ctx ((g, acc, dial) # evs) w =
     (if ctx_Err (w_ctxs w) ctx \<noteq> None then w
      else (let w1 = g w in
        case acc of
          Inl err \<Rightarrow>
            if isTimeoutError (Some err) then tcp_accept_loop mk ctx evs w1
            else tcp_accept_loop mk ctx evs
                   (w_cancel ctx (Some (ErrorfV ''failed to accept tcp connection: '' err)) w1)
        | Inr c \<Rightarrow>
            if ctx_Err (w_ctxs w1) ctx \<noteq> None then w1
            else (case dial of
              Inl err \<Rightarrow> tcp_accept_loop mk ctx evs
                 (w_cancel ctx (Some (ErrorfV ''failed to create new connection to server: '' err)) w1)
            | Inr s \<Rightarrow> tcp_accept_loop mk ctx evs (snd (AddConnection NewProxyContainer (mk c s) w1)))))"

text \<open>\<open>TcpListener\<close>: resolving the two addresses and opening the socket come first.\<close>

definition TcpListener ::
  "(string \<Rightarrow> err + addr) \<Rightarrow> (addr \<Rightarrow> err option) \<Rightarrow> (addr \<Rightarrow> addr \<Rightarrow> 'e IProxy) \<Rightarrow> 'e accept_event list \<Rightarrow>
   nat \<Rightarrow> 'e world \<Rightarrow> 'e world"
where
  "TcpListener resolve open_socket mk evs ctx w =
     (case resolve (addr_String (ps_proxyAddr w)) of
        Inl err \<Rightarrow> w_cancel ctx (Some (ErrorfV ''failed to resolve proxy addr: '' err)) w
      | Inr pAddr \<Rightarrow>
          (case resolve (addr_String (ps_serverAddr w)) of
             Inl err \<Rightarrow> w_cancel ctx (Some (ErrorfV ''failed to resolve server addr: '' err)) w
           | Inr sAddr \<Rightarrow>
               (case open_socket pAddr of
                  Some err \<Rightarrow> w_cancel ctx (Some (ErrorfV ''failed to listen on proxy: '' err)) w
                | None \<Rightarrow> tcp_accept_loop mk ctx evs w)))"

section \<open>UDP\<close>

record UdpProxy =
  up_client :: addr
  up_server :: addr
  up_ctx :: "nat option"
  up_firstPktData :: bytes

definition newUdpProxy :: "addr \<Rightarrow> addr \<Rightarrow> bytes \<Rightarrow> UdpProxy" where
  "newUdpProxy client server firstPkt =
     \<lparr>up_client = client, up_server = server, up_ctx = None, up_firstPktData = firstPkt\<rparr>"

definition UdpProxy_Init :: "nat \<Rightarrow> UdpProxy \<Rightarrow> err option \<times> UdpProxy" where
  "UdpProxy_Init ctx u =
     (if up_ctx u \<noteq> None then (Some (ErrNew ''already initialized''), u) else (None, u\<lparr>up_ctx := Some ctx\<rparr>))"

text \<open>Both sides of a UDP proxy are written to through the one socket of the listener.\<close>

definition udp_IProxy :: "(addr \<Rightarrow> 'e conn_write) \<Rightarrow> UdpProxy \<Rightarrow> 'e IProxy" where
  "udp_IProxy write_to u =
     \<lparr>px_Init = (\<lambda>ctx x. (fst (UdpProxy_Init ctx u), x)),
      px_SendToClient = write_to (up_client u), px_SendToServer = write_to (up_server u),
      px_GetClientAddr = up_client u, px_Network = ''udp''\<rparr>"

text \<open>What a datagram becomes: nothing if it is from neither side.\<close>

definition udp_packet :: "UdpProxy \<Rightarrow> addr \<Rightarrow> bytes \<Rightarrow> ProxyPacketData option" where
  "udp_packet u source data =
     (if compareNetAddr source (up_client u)
      then Some \<lparr>ppd_Serverbound = True, ppd_Source = source, ppd_Dest = up_server u, ppd_Data = data\<rparr>
      else if compareNetAddr source (up_server u)
      then Some \<lparr>ppd_Serverbound = False, ppd_Source = source, ppd_Dest = up_client u, ppd_Data = data\<rparr>
      else None)"

type_synonym udp_event = "(ctxs \<Rightarrow> ctxs) \<times> (err + addr \<times> bytes)"

fun udp_loop :: "UdpProxy \<Rightarrow> nat \<Rightarrow> udp_event list \<Rightarrow> ctxs \<Rightarrow> ProxyPacketData list \<times> ctxs" where
  "udp_loop u ctx [] \<sigma> = ([], \<sigma>)"
| "udp_loop u ctx ((g, res) # evs) \<sigma> =
     (if ctx_Err \<sigma> ctx \<noteq> None then ([], \<sigma>)
      else (let \<sigma>1 = g \<sigma> in
        case res of
          Inl err \<Rightarrow>
            if isTimeoutError (Some err) then udp_loop u ctx evs \<sigma>1
            else ([], cancel_cause ctx (Some err) \<sigma>1)
        | Inr (source, data) \<Rightarrow>
            (let (ps, \<sigma>2) = udp_loop u ctx evs \<sigma>1
             in ((case udp_packet u source data of None \<Rightarrow> ps | Some p \<Rightarrow> p # ps), \<sigma>2))))"

definition udp_listen :: "UdpProxy \<Rightarrow> nat \<Rightarrow> udp_event list \<Rightarrow> ctxs \<Rightarrow> ProxyPacketData list \<times> ctxs" where
  "udp_listen u ctx evs \<sigma> =
     (let first = \<lparr>ppd_Serverbound = True, ppd_Source = up_client u, ppd_Dest = up_server u,
                   ppd_Data = up_firstPktData u\<rparr>;
          (ps, \<tau>) = udp_loop (u\<lparr>up_firstPktData := []\<rparr>) ctx evs \<sigma>
      in (first # ps, \<tau>))"

text \<open>
  One round of the loop of \<open>UdpListener\<close>, from the variable \<open>id\<close> to its next value; \<open>None\<close> means
  that the listener returns. \<open>relisten\<close> is the result of opening the socket anew, \<open>res\<close> of the read,
  and \<open>g\<close> what the rest of the program does while the round reads or sleeps.
\<close>

definition udp_no_proxy :: goint where "udp_no_proxy = - 1"

definition udp_accept ::
  "(addr \<Rightarrow> bytes \<Rightarrow> 'e IProxy) \<Rightarrow> addr \<Rightarrow> (err + addr \<times> bytes) \<Rightarrow> 'e world \<Rightarrow> goint \<times> 'e world"
where
  "udp_accept mk sAddr res w =
     (case res of
        Inl err \<Rightarrow> (udp_no_proxy, w)
      | Inr (source, data) \<Rightarrow>
          if compareNetAddr sAddr source then (udp_no_proxy, w)
          else (case AddConnection NewProxyContainer (mk source data) w of
            (Inl err, w1) \<Rightarrow> (udp_no_proxy, w1)
          | (Inr pc, w1) \<Rightarrow> (pc_GetId w1 pc, w1)))"

definition udp_round ::
  "(addr \<Rightarrow> bytes \<Rightarrow> 'e IProxy) \<Rightarrow> addr \<Rightarrow> nat \<Rightarrow> err option \<Rightarrow> ('e world \<Rightarrow> 'e world) \<Rightarrow>
   (err + addr \<times> bytes) \<Rightarrow> goint \<Rightarrow> 'e world \<Rightarrow> goint option \<times> 'e world"
where
  "udp_round mk sAddr ctx relisten g res i w =
     (let accept = (let (j, v) = udp_accept mk sAddr res (g w) in (Some j, v)) in
      if i \<noteq> udp_no_proxy
      then (if (case GetProxy i w of Inl _ \<Rightarrow> True | Inr cl \<Rightarrow> \<not> pc_IsAlive w cl)
            then (case relisten of
                    Some err \<Rightarrow> (None, w_cancel ctx (Some (ErrorfV ''failed to re listen on udp proxy: '' err)) w)
                  | None \<Rightarrow> accept)
            else (Some i, g w))
      else accept)"

type_synonym 'e udp_round_event = "err option \<times> ('e world \<Rightarrow> 'e world) \<times> (err + addr \<times> bytes)"

fun udp_rounds ::
  "(addr \<Rightarrow> bytes \<Rightarrow> 'e IProxy) \<Rightarrow> addr \<Rightarrow> nat \<Rightarrow> 'e udp_round_event list \<Rightarrow> goint \<Rightarrow> 'e world \<Rightarrow> 'e world"
where
  "udp_rounds mk sAddr ctx [] i w = w"
| "udp_rounds mk sAddr ctx ((relisten, g, res) # evs) i w =
     (if ctx_Err (w_ctxs w) ctx \<noteq> None then w
      else (case udp_round mk sAddr ctx relisten g res i w of
        (None, v) \<Rightarrow> v
      | (Some j, v) \<Rightarrow> udp_rounds mk sAddr ctx evs j v))"

definition UdpListener ::
  "(string \<Rightarrow> err + addr) \<Rightarrow> (addr \<Rightarrow> err option) \<Rightarrow> (addr \<Rightarrow> bytes \<Rightarrow> 'e IProxy) \<Rightarrow> 'e udp_round_event list \<Rightarrow>
   nat \<Rightarrow> 'e world \<Rightarrow> 'e world"
where
  "UdpListener resolve open_socket mk evs ctx w =
     (case resolve (addr_String (ps_proxyAddr w)) of
        Inl err \<Rightarrow> w_cancel ctx (Some (ErrorfV ''failed to resolve udp proxy address: '' err)) w
      | Inr pAddr \<Rightarrow>
          (case resolve (addr_String (ps_serverAddr w)) of
             Inl err \<Rightarrow> w_cancel ctx (Some (ErrorfV ''failed to resolve udp server address: '' err)) w
           | Inr sAddr \<Rightarrow>
               (case open_socket pAddr of
                  Some err \<Rightarrow> w_cancel ctx (Some (ErrorfV ''failed to listen on udp proxy: '' err)) w
                | None \<Rightarrow> udp_rounds mk sAddr ctx evs udp_no_proxy w)))"

end
