(* ===== verification/Strconv.thy ===== *)
theory Strconv
  imports GoContext
begin

text \<open>
  The conversions of Go's standard library that the API and the configuration rely on:
  \<open>strconv.ParseUint\<close>, \<open>strconv.ParseInt\<close> and the verbs \<open>%x\<close> and \<open>%d\<close> of \<open>fmt.Sprintf\<close>, written out
  with the library's overflow checks on 64-bit words, and related to the value of a digit string.
\<close>

section \<open>Digits\<close>

definition char_byte :: "char \<Rightarrow> byte" where
  "char_byte c = of_char c"

definition lower :: "byte \<Rightarrow> byte" where
  "lower c = (c OR 0x20)"

definition digit_of :: "char \<Rightarrow> nat option" where
  "digit_of ch =
     (let c = char_byte ch in
      if 0x30 \<le> c \<and> c \<le> 0x39 then Some (unat (c - 0x30))
      else if 0x61 \<le> lower c \<and> lower c \<le> 0x7a then Some (unat (lower c - 0x61 + 10))
      else None)"

section \<open>ParseUint\<close>

definition syntaxError :: err where "syntaxError = ErrNew ''invalid syntax''"
definition rangeError :: err where "rangeError = ErrNew ''value out of range''"

definition cutoff :: "nat \<Rightarrow> u64" where
  "cutoff base = of_nat ((2 ^ 64 - 1) div base + 1)"

text \<open>The loop over the digits; the flag in the result says whether an underscore was seen.\<close>

fun parse_loop :: "bool \<Rightarrow> nat \<Rightarrow> u64 \<Rightarrow> bool \<Rightarrow> string \<Rightarrow> err + u64 \<times> bool" where
  "parse_loop base0 base n us [] = Inr (n, us)"
| "parse_loop base0 base n us (c # s) =
     (if c = CHR ''_'' \<and> base0 then parse_loop base0 base n True s
      else case digit_of c of
        None \<Rightarrow> Inl syntaxError
      | Some d \<Rightarrow>
          if base \<le> d then Inl syntaxError
          else if cutoff base \<le> n then Inl rangeError
          else (let m = n * of_nat base; n1 = m + of_nat d
                in if n1 < m then Inl rangeError else parse_loop base0 base n1 us s))"

definition base_prefix :: "string \<Rightarrow> nat \<times> string" where
  "base_prefix s =
     (case s of
        CHR ''0'' # c # rest \<Rightarrow>
          if rest \<noteq> [] \<and> lower (char_byte c) = char_byte (CHR ''b'') then (2, rest)
          else if rest \<noteq> [] \<and> lower (char_byte c) = char_byte (CHR ''o'') then (8, rest)
          else if rest \<noteq> [] \<and> lower (char_byte c) = char_byte (CHR ''x'') then (16, rest)
          else (8, c # rest)
      | [CHR ''0''] \<Rightarrow> (8, [])
      | _ \<Rightarrow> (10, s))"

text \<open>\<open>underscoreOK\<close>: what the last character seen was.\<close>

datatype seen = SeenStart | SeenDigit | SeenUnderscore | SeenOther

fun underscore_loop :: "bool \<Rightarrow> seen \<Rightarrow> string \<Rightarrow> bool" where
  "underscore_loop hex saw [] = (saw \<noteq> SeenUnderscore)"
| "underscore_loop hex saw (c # s) =
     (let b = char_byte c in
      if 0x30 \<le> b \<and> b \<le> 0x39 \<or> hex \<and> 0x61 \<le> lower b \<and> lower b \<le> 0x66
      then underscore_loop hex SeenDigit s
      else if c = CHR ''_''
      then (if saw = SeenDigit then underscore_loop hex SeenUnderscore s else False)
      else if saw = SeenUnderscore then False
      else underscore_loop hex SeenOther s)"

definition underscoreOK :: "string \<Rightarrow> bool" where
  "underscoreOK s0 =
     (let s = (case s0 of c # r \<Rightarrow> if c = CHR ''-'' \<or> c = CHR ''+'' then r else s0 | [] \<Rightarrow> []) in
      case s of
        CHR ''0'' # c # r \<Rightarrow>
          if lower (char_byte c) \<in> {char_byte (CHR ''b''), char_byte (CHR ''o''), char_byte (CHR ''x'')}
          then underscore_loop (lower (char_byte c) = char_byte (CHR ''x'')) SeenDigit r
          else underscore_loop False SeenStart s
      | _ \<Rightarrow> underscore_loop False SeenStart s)"

text \<open>Base 0 stands for "find out from the prefix"; the code uses bases 0 and 16.\<close>

definition ParseUint :: "string \<Rightarrow> nat \<Rightarrow> err + u64" where
  "ParseUint s base =
     (if s = [] then Inl syntaxError
      else (let (b, digits) = (if base = 0 then base_prefix s else (base, s)) in
            case parse_loop (base = 0) b 0 False digits of
              Inl e \<Rightarrow> Inl e
            | Inr (n, us) \<Rightarrow> if us \<and> \<not> underscoreOK s then Inl syntaxError else Inr n))"

definition ParseInt :: "string \<Rightarrow> nat \<Rightarrow> err + goint" where
  "ParseInt s0 base =
     (case s0 of
        [] \<Rightarrow> Inl syntaxError
      | c # r \<Rightarrow>
          (let neg = (c = CHR ''-''); s = (if c = CHR ''+'' \<or> neg then r else s0) in
           case ParseUint s base of
             Inl e \<Rightarrow> Inl e
           | Inr un \<Rightarrow>
               if \<not> neg \<and> 2 ^ 63 \<le> un then Inl rangeError
               else if neg \<and> 2 ^ 63 < un then Inl rangeError
               else Inr (if neg then - un else un)))"

section \<open>Sprintf\<close>

definition digit_char :: "nat \<Rightarrow> char" where
  "digit_char d = ''0123456789abcdef'' ! d"

fun digits_nat :: "nat \<Rightarrow> nat \<Rightarrow> string" where
  "digits_nat base n =
     (if base < 2 \<or> n < base then [digit_char n]
      else digits_nat base (n div base) @ [digit_char (n mod base)])"

declare digits_nat.simps [simp del]

definition Sprintf_x :: "u64 \<Rightarrow> string" where
  "Sprintf_x k = digits_nat 16 (unat k)"

definition Sprintf_d :: "int \<Rightarrow> string" where
  "Sprintf_d i = (if i < 0 then CHR ''-'' # digits_nat 10 (nat (- i)) else digits_nat 10 (nat i))"

text \<open>A string between apostrophes, as in the verb sequence \<open>'%s'\<close>.\<close>

definition squoted :: "string \<Rightarrow> string" where
  "squoted s = [CHR 0x27] @ s @ [CHR 0x27]"

section \<open>Reference: the value of a digit string\<close>

definition digits_value :: "nat \<Rightarrow> nat list \<Rightarrow> nat" where
  "digits_value base ds = foldl (\<lambda>n d. n * base + d) 0 ds"

lemma foldl_grows: "0 < (base :: nat) \<Longrightarrow> n \<le> foldl (\<lambda>n d. n * base + d) n ds"
proof (induction ds arbitrary: n)
  case (Cons d ds)
  have "n \<le> n * base + d" using Cons.prems by (simp add: trans_le_add1)
  also have "\<dots> \<le> foldl (\<lambda>n d. n * base + d) (n * base + d) ds" using Cons by blast
  finally show ?case by simp
qed simp

lemma cutoff_iff:
  assumes "2 \<le> base"
  shows "cutoff base \<le> n \<longleftrightarrow> 2 ^ 64 \<le> unat n * base"
proof -
  have "(2 ^ 64 - 1) div base + 1 < (2 ^ 64 :: nat)"
    using assms div_le_mono2 [of 2 base "2 ^ 64 - 1 :: nat"] by simp
  then have "unat (cutoff base) = (2 ^ 64 - 1) div base + 1"
    unfolding cutoff_def by (rule u64_of_nat)
  then have "cutoff base \<le> n \<longleftrightarrow> (2 ^ 64 - 1) div base < unat n"
    by (simp add: word_le_nat_alt Suc_le_eq)
  also have "\<dots> \<longleftrightarrow> 2 ^ 64 - 1 < unat n * base"
    using assms by (simp add: div_less_iff_less_mult)
  finally show ?thesis by auto
qed

text \<open>One step of the loop: the two checks together detect exactly the overflow.\<close>

lemma parse_step:
  assumes "2 \<le> base" "base \<le> 36" "d < base"
  shows "(cutoff base \<le> n \<or> n * of_nat base + of_nat d < n * of_nat base) \<longleftrightarrow> 2 ^ 64 \<le> unat n * base + d"
    and "unat n * base + d < 2 ^ 64 \<Longrightarrow> unat (n * of_nat base + of_nat d) = unat n * base + d"
proof -
  let ?m = "n * of_nat base :: u64"
  have small: "unat (of_nat base :: u64) = base" "unat (of_nat d :: u64) = d"
    using assms by (simp_all add: u64_of_nat)
  have m: "unat ?m = unat n * base" if "unat n * base < 2 ^ 64"
    using that by (simp add: unat_word_ariths small)
  have sum: "unat (?m + of_nat d) = (unat ?m + d) mod 2 ^ 64"
    by (simp add: unat_word_ariths small)
  show "unat (?m + of_nat d) = unat n * base + d" if "unat n * base + d < 2 ^ 64"
    using that m sum by simp
  show "(cutoff base \<le> n \<or> ?m + of_nat d < ?m) \<longleftrightarrow> 2 ^ 64 \<le> unat n * base + d"
  proof (cases "2 ^ 64 \<le> unat n * base")
    case True
    then show ?thesis using cutoff_iff [OF assms(1)] by simp
  next
    case False
    have "d < 2 ^ 64" using assms by simp
    then have "(unat ?m + d) mod 2 ^ 64 < unat ?m \<longleftrightarrow> 2 ^ 64 \<le> unat ?m + d"
      using u64_bound [of ?m] by (intro sum_mod_less_iff)
    then show ?thesis
      using False m cutoff_iff [OF assms(1)] by (simp only: word_less_nat_alt sum not_le) simp
  qed
qed

text \<open>The digits of a string, if it consists of digits below the base.\<close>

definition digits_in :: "nat \<Rightarrow> string \<Rightarrow> nat list option" where
  "digits_in base s =
     (if \<forall>c \<in> set s. \<exists>d < base. digit_of c = Some d then Some (map (\<lambda>c. the (digit_of c)) s) else None)"

lemma digits_in_simps [simp]:
  "digits_in base [] = Some []"
  "digits_in base (c # s) =
     (case digit_of c of
        None \<Rightarrow> None
      | Some d \<Rightarrow> if d < base then map_option (Cons d) (digits_in base s) else None)"
  by (auto simp: digits_in_def split: option.splits)

lemma parse_loop_value:
  assumes "2 \<le> base" "base \<le> 36"
  shows "parse_loop False base n us s = Inr r \<longleftrightarrow>
     (\<exists>ds. digits_in base s = Some ds \<and> foldl (\<lambda>n d. n * base + d) (unat n) ds < 2 ^ 64 \<and>
        r = (of_nat (foldl (\<lambda>n d. n * base + d) (unat n) ds), us))"
proof (induction s arbitrary: n)
  case Nil
  show ?case using u64_bound [of n] by auto
next
  case (Cons c s)
  show ?case
  proof (cases "\<exists>d < base. digit_of c = Some d")
    case False
    then show ?thesis by (auto split: option.splits)
  next
    case True
    then obtain d where d: "digit_of c = Some d" "d < base" by blast
    note step = parse_step [OF assms d(2)]
    let ?n1 = "n * of_nat base + of_nat d" and ?F = "foldl (\<lambda>n d. n * base + d)"
    have ds: "digits_in base (c # s) = map_option (Cons d) (digits_in base s)" using d by simp
    show ?thesis
    proof (cases "2 ^ 64 \<le> unat n * base + d")
      case True
      then have "parse_loop False base n us (c # s) \<noteq> Inr r"
        using step(1) d by (auto simp: Let_def)
      moreover have "\<not> ?F (unat n * base + d) ds < 2 ^ 64" for ds
        using True foldl_grows [of base "unat n * base + d" ds] assms(1) by linarith
      ultimately show ?thesis unfolding ds by (cases "digits_in base s") (simp_all del: parse_loop.simps)
    next
      case False
      then have "parse_loop False base n us (c # s) = parse_loop False base ?n1 us s"
        using step(1) d by (auto simp: Let_def)
      moreover have "unat ?n1 = unat n * base + d" using step(2) False by simp
      ultimately have "parse_loop False base n us (c # s) = Inr r \<longleftrightarrow>
          (\<exists>ds. digits_in base s = Some ds \<and> ?F (unat n * base + d) ds < 2 ^ 64 \<and> r = (of_nat (?F (unat n * base + d) ds), us))"
        by (simp only: Cons.IH)
      then show ?thesis unfolding ds by (cases "digits_in base s") (simp_all del: parse_loop.simps)
    qed
  qed
qed

lemma ParseUint_value:
  assumes "2 \<le> base" "base \<le> 36"
  shows "ParseUint s base = Inr k \<longleftrightarrow>
     s \<noteq> [] \<and> (\<exists>ds. digits_in base s = Some ds \<and> digits_value base ds < 2 ^ 64 \<and> k = of_nat (digits_value base ds))"
proof -
  have us: "parse_loop False base 0 False s = Inr (n, us) \<Longrightarrow> \<not> us" for n us
    using parse_loop_value [OF assms, of 0 False s] by auto
  have "ParseUint s base = Inr k \<longleftrightarrow> s \<noteq> [] \<and> parse_loop False base 0 False s = Inr (k, False)"
    using assms us by (auto simp: ParseUint_def split: sum.splits prod.splits)
  then show ?thesis
    unfolding parse_loop_value [OF assms] digits_value_def by auto
qed

section \<open>Printing and parsing\<close>

lemma digit_of_hex: "d < 16 \<Longrightarrow> digit_of (digit_char d) = Some d"
proof -
  assume "d < 16"
  then have "d \<in> set [0..<16]" by simp
  moreover have "\<forall>d \<in> set [0..<16]. digit_of (digit_char d) = Some d" by code_simp
  ultimately show ?thesis by blast
qed

lemma digits_in_append:
  "digits_in base (s @ t) =
     (case (digits_in base s, digits_in base t) of (Some a, Some b) \<Rightarrow> Some (a @ b) | _ \<Rightarrow> None)"
  by (auto simp: digits_in_def)

lemma digits_nat_value:
  "2 \<le> base \<Longrightarrow> base \<le> 16 \<Longrightarrow> \<exists>ds. digits_in base (digits_nat base n) = Some ds \<and> digits_value base ds = n"
proof (induction n rule: less_induct)
  case (less n)
  show ?case
  proof (cases "n < base")
    case True
    then show ?thesis using less.prems
      by (simp add: digits_nat.simps [of base n] digit_of_hex digits_value_def)
  next
    case False
    then have "n div base < n" using less.prems(1) by (intro div_less_dividend) auto
    with less obtain ds where ds: "digits_in base (digits_nat base (n div base)) = Some ds"
        "digits_value base ds = n div base" by blast
    have small: "n mod base < base" "n mod base < 16" using less.prems mod_less_divisor [of base n] by linarith+
    have "digits_in base (digits_nat base n) = Some (ds @ [n mod base])"
      using False less.prems(1) ds(1) digit_of_hex [OF small(2)] small(1)
      by (simp add: digits_nat.simps [of base n] digits_in_append)
    moreover have "digits_value base (ds @ [n mod base]) = n"
      using ds(2) by (simp add: digits_value_def)
    ultimately show ?thesis by blast
  qed
qed

lemma digits_nat_not_Nil [simp]: "digits_nat base n \<noteq> []"
  by (simp add: digits_nat.simps [of base n])

lemma ParseUint_Sprintf_x: "ParseUint (Sprintf_x k) 16 = Inr k"
proof -
  obtain ds where "digits_in 16 (digits_nat 16 (unat k)) = Some ds" "digits_value 16 ds = unat k"
    using digits_nat_value [of 16 "unat k"] by auto
  then show ?thesis
    unfolding Sprintf_x_def ParseUint_value [of 16, simplified]
    using u64_bound [of k] by simp
qed

end
