(* ===== verification/Auth.thy ===== *)
theory Auth
  imports Strconv Handler
begin

text \<open>
  \<open>api/auth.go\<close> and \<open>api/util.go\<close>: permission bit fields, the table of API keys, the extraction and
  check of a request's key, and how responses are written. The random source of new keys is a
  parameter. The table is used through the contract \<open>key_store\<close>.
\<close>

section \<open>Requests and responses\<close>

text \<open>
  What the API reads of an \<open>http.Request\<close>: method, path, the parsed query (\<open>url.Values\<close>), and the
  body as \<open>io.ReadAll\<close> returns it.
\<close>

record request =
  r_Method :: string
  r_Path :: string
  r_query :: "string \<rightharpoonup> string list"
  r_body :: "bytes \<times> err option"

definition qr_Has :: "request \<Rightarrow> string \<Rightarrow> bool" where
  "qr_Has r k = (r_query r k \<noteq> None)"

definition qr_Get :: "request \<Rightarrow> string \<Rightarrow> string" where
  "qr_Get r k = (case r_query r k of Some (v # vs) \<Rightarrow> v | _ \<Rightarrow> '''')"

text \<open>The structs that the endpoints put in the \<open>Data\<close> field of a response.\<close>

record handlerStatus =
  hs_ConnectionCount :: int
  hs_Alive :: bool
  hs_BytesSent :: u64
  hs_ProxyAddress :: string
  hs_ServerAddress :: string

record proxyStatus =
  st_Id :: goint
  st_Alive :: bool
  st_Address :: string
  st_Network :: string
  st_BytesSent :: u64
  st_LastContactAgo :: int

record newKeyData =
  nk_Key :: string
  nk_Perms :: goint

record authValue =
  av_Value :: goint
  av_CanCheckStatus :: bool
  av_CanClose :: bool
  av_CanUseWebsocket :: bool
  av_CanFilter :: bool
  av_CanInject :: bool
  av_CanMakeKeys :: bool
  av_CanDuplicateKeys :: bool
  av_Admin :: bool

datatype rsp_data =
    DString string
  | DHandlerStatus handlerStatus
  | DProxies "proxyStatus list"
  | DNewKey newKeyData
  | DAuthValue authValue

record baseResponse =
  br_Status :: int
  br_Data :: rsp_data

text \<open>
  What ends up in the \<open>ResponseWriter\<close>: the status line and a body, which is a JSON object or
  plain bytes. \<open>json.Marshal\<close> of these structs (strings, numbers, booleans and lists of them)
  has no error case.
\<close>

datatype response = RspJson int baseResponse | RspPlain int string

definition StatusOK :: int where "StatusOK = 200"
definition StatusNoContent :: int where "StatusNoContent = 204"
definition StatusBadRequest :: int where "StatusBadRequest = 400"
definition StatusUnauthorized :: int where "StatusUnauthorized = 401"
definition StatusForbidden :: int where "StatusForbidden = 403"
definition StatusNotFound :: int where "StatusNotFound = 404"
definition StatusMethodNotAllowed :: int where "StatusMethodNotAllowed = 405"
definition StatusRequestTimeout :: int where "StatusRequestTimeout = 408"
definition StatusConflict :: int where "StatusConflict = 409"
definition StatusGone :: int where "StatusGone = 410"
definition StatusInternalServerError :: int where "StatusInternalServerError = 500"

lemmas status_defs = StatusOK_def StatusNoContent_def StatusBadRequest_def StatusUnauthorized_def
  StatusForbidden_def StatusNotFound_def StatusMethodNotAllowed_def StatusRequestTimeout_def
  StatusConflict_def StatusGone_def StatusInternalServerError_def

text \<open>\<open>writeResponse\<close>: the status goes into the JSON body, the status line is always 200.\<close>

definition writeResponse :: "int \<Rightarrow> rsp_data \<Rightarrow> response" where
  "writeResponse status data = RspJson 200 \<lparr>br_Status = status, br_Data = data\<rparr>"

fun status_line :: "response \<Rightarrow> int" where
  "status_line (RspJson c _) = c"
| "status_line (RspPlain c _) = c"

section \<open>Permissions\<close>

type_synonym authPerms = goint

definition AuthCanCheckStatus :: authPerms where "AuthCanCheckStatus = push_bit 0 1"
definition AuthCanClose :: authPerms where "AuthCanClose = push_bit 1 1"
definition AuthCanUseWebsocket :: authPerms where "AuthCanUseWebsocket = push_bit 2 1"
definition AuthCanFilter :: authPerms where "AuthCanFilter = push_bit 3 1"
definition AuthCanInject :: authPerms where "AuthCanInject = push_bit 4 1"
definition AuthCanMakeKeys :: authPerms where "AuthCanMakeKeys = push_bit 5 1"
definition AuthCanDuplicateKeys :: authPerms where "AuthCanDuplicateKeys = push_bit 6 1"
definition AuthAll :: authPerms where "AuthAll = 0xfffffffffffffff"
definition AuthAllButMakeKeys :: authPerms where "AuthAllButMakeKeys = 0xfffffffffffffdf"

lemmas perm_defs = AuthCanCheckStatus_def AuthCanClose_def AuthCanUseWebsocket_def AuthCanFilter_def
  AuthCanInject_def AuthCanMakeKeys_def AuthCanDuplicateKeys_def

definition checkPermission :: "goint \<Rightarrow> authPerms \<Rightarrow> bool" where
  "checkPermission val code = (val AND code \<noteq> 0)"

lemma checkPermission_push: "checkPermission v (push_bit n 1) = bit v n"
  using and_mask_nonzero [of v n] by (simp add: checkPermission_def push_bit_of_1)

lemma checkPermission_bits [simp]:
  "checkPermission v AuthCanCheckStatus = bit v 0" "checkPermission v AuthCanClose = bit v 1"
  "checkPermission v AuthCanUseWebsocket = bit v 2" "checkPermission v AuthCanFilter = bit v 3"
  "checkPermission v AuthCanInject = bit v 4" "checkPermission v AuthCanMakeKeys = bit v 5"
  "checkPermission v AuthCanDuplicateKeys = bit v 6"
  by (simp_all only: perm_defs checkPermission_push)

section \<open>The table of keys\<close>

type_synonym authLookup = "u64 \<rightharpoonup> goint"

definition newAuthLookup :: authLookup where
  "newAuthLookup = Map.empty"

definition addKeyInt :: "u64 \<Rightarrow> goint \<Rightarrow> authLookup \<Rightarrow> err + authLookup" where
  "addKeyInt key perms l =
     (case l key of
        Some _ \<Rightarrow> Inl (ErrNew ''key already exists'')
      | None \<Rightarrow> Inr (l(key \<mapsto> perms)))"

definition addKey :: "u64 \<Rightarrow> authPerms list \<Rightarrow> authLookup \<Rightarrow> err + authLookup" where
  "addKey key perms l =
     (case l key of
        Some _ \<Rightarrow> Inl (ErrNew ''key already exists'')
      | None \<Rightarrow> addKeyInt key (foldl (\<lambda>pVal v. pVal OR v) 0 perms) l)"

text \<open>
  The loop of \<open>newKeyInt\<close>: \<open>rnd i\<close> is what the random source gives in round \<open>i\<close>, \<open>n\<close> the rounds left.
  A failing source and a thousand collisions panic. The table is reached through \<open>add\<close>.
\<close>

fun new_key_tries ::
  "(u64 \<Rightarrow> goint \<Rightarrow> 's \<Rightarrow> err + 's) \<Rightarrow> (nat \<Rightarrow> err + u64) \<Rightarrow> nat \<Rightarrow> nat \<Rightarrow> goint \<Rightarrow> 's \<Rightarrow> (u64 \<times> 's) may_panic"
where
  "new_key_tries add rnd i 0 perms l = None"
| "new_key_tries add rnd i (Suc n) perms l =
     (case rnd i of
        Inl _ \<Rightarrow> None
      | Inr val \<Rightarrow>
          (case add val perms l of
             Inr l' \<Rightarrow> Some (val, l')
           | Inl _ \<Rightarrow> new_key_tries add rnd (Suc i) n perms l))"

definition newKeyInt :: "(nat \<Rightarrow> err + u64) \<Rightarrow> goint \<Rightarrow> authLookup \<Rightarrow> (u64 \<times> authLookup) may_panic" where
  "newKeyInt rnd perms l = new_key_tries addKeyInt rnd 0 1000 perms l"

section \<open>The key of a request\<close>

definition getKey :: "request \<Rightarrow> response + u64" where
  "getKey r =
     (if \<not> qr_Has r ''key''
      then Inl (writeResponse StatusUnauthorized (DString ''no 'key' query parameter''))
      else case ParseUint (qr_Get r ''key'') 16 of
        Inl _ \<Rightarrow> Inl (writeResponse StatusBadRequest (DString ''invalid 'key' parameter''))
      | Inr key \<Rightarrow> Inr key)"

definition getAuthValues :: "authLookup \<Rightarrow> request \<Rightarrow> response + u64 \<times> goint" where
  "getAuthValues l r =
     (case getKey r of
        Inl rsp \<Rightarrow> Inl rsp
      | Inr key \<Rightarrow>
          (case l key of
             Some value \<Rightarrow> Inr (key, value)
           | None \<Rightarrow> Inl (writeResponse StatusUnauthorized (DString ''unknown api key''))))"

text \<open>\<open>None\<close> is the result \<open>true\<close>; otherwise the response that was written.\<close>

definition authLookup_checkPermission :: "authLookup \<Rightarrow> request \<Rightarrow> authPerms list \<Rightarrow> response option" where
  "authLookup_checkPermission l r requires =
     (if \<not> qr_Has r ''key''
      then Some (writeResponse StatusUnauthorized (DString ''missing 'key' parameter''))
      else case ParseUint (qr_Get r ''key'') 16 of
        Inl _ \<Rightarrow> Some (writeResponse StatusUnauthorized (DString ''invalid 'key' parameter''))
      | Inr key \<Rightarrow>
          (case l key of
             None \<Rightarrow> Some (writeResponse StatusUnauthorized (DString ''unknown api key''))
           | Some value \<Rightarrow>
               if list_ex (\<lambda>p. \<not> checkPermission value p) requires
               then Some (writeResponse StatusForbidden (DString ''invalid permissions''))
               else None))"

section \<open>The contract of the table\<close>

text \<open>
  What the key generator needs: a free key can be added and then has its permissions, a used one
  is refused, and no other key is touched.
\<close>

locale key_store =
  fixes lookup :: "'s \<Rightarrow> u64 \<Rightarrow> goint option"
    and add :: "u64 \<Rightarrow> goint \<Rightarrow> 's \<Rightarrow> err + 's"
  assumes add_free: "lookup s k = None \<Longrightarrow> \<exists>t. add k p s = Inr t \<and> lookup t k = Some p"
    and add_used: "lookup s k \<noteq> None \<Longrightarrow> \<exists>e. add k p s = Inl e"
    and add_others: "add k p s = Inr t \<Longrightarrow> j \<noteq> k \<Longrightarrow> lookup t j = lookup s j"
begin

lemma add_result:
  assumes "add k p s = Inr t"
  shows "lookup s k = None" "lookup t = (lookup s)(k \<mapsto> p)"
proof -
  show free: "lookup s k = None" using add_used [of s k p] assms by (cases "lookup s k") auto
  then have "lookup t k = Some p" using add_free [of s k p] assms by auto
  with add_others [OF assms] show "lookup t = (lookup s)(k \<mapsto> p)" by (auto simp: fun_eq_iff)
qed

lemma tries_result:
  "new_key_tries add rnd i n p s = Some (k, t) \<Longrightarrow>
   \<exists>j. i \<le> j \<and> j < i + n \<and> rnd j = Inr k \<and> lookup s k = None \<and> lookup t = (lookup s)(k \<mapsto> p)"
proof (induction n arbitrary: i)
  case (Suc n)
  then obtain v where v: "rnd i = Inr v" by (cases "rnd i") auto
  show ?case
  proof (cases "add v p s")
    case (Inl e)
    with Suc.prems v have "new_key_tries add rnd (Suc i) n p s = Some (k, t)" by simp
    from Suc.IH [OF this] show ?thesis by (metis Suc_leD add_Suc_shift)
  next
    case (Inr t')
    with Suc.prems v have "t' = t" "v = k" by auto
    with Inr v add_result [of v p s t'] show ?thesis by (intro exI [of _ i]) auto
  qed
qed simp

text \<open>With a working source, the loop fails only if every round drew a key in use.\<close>

lemma tries_panic_iff:
  "\<forall>j < n. \<exists>v. rnd (i + j) = Inr v \<Longrightarrow>
   new_key_tries add rnd i n p s = None \<longleftrightarrow> (\<forall>j < n. \<exists>v. rnd (i + j) = Inr v \<and> lookup s v \<noteq> None)"
proof (induction n arbitrary: i)
  case (Suc n)
  from Suc.prems obtain v where v: "rnd i = Inr v" by (metis add.right_neutral zero_less_Suc)
  have rest: "\<forall>j < n. \<exists>v. rnd (Suc i + j) = Inr v" using Suc.prems by (metis Suc_less_eq add_Suc_shift)
  show ?case
  proof (cases "lookup s v")
    case None
    with add_free obtain t where "add v p s = Inr t" by blast
    with v None show ?thesis by (auto intro!: exI [of _ 0])
  next
    case (Some x)
    with add_used [of s v p] obtain e where "add v p s = Inl e" by auto
    with v Suc.IH [OF rest] Some show ?thesis by (auto simp: less_Suc_eq_0_disj)
  qed
qed simp

end

interpretation keys: key_store "\<lambda>l. l" addKeyInt
  by unfold_locales (auto simp: addKeyInt_def split: option.splits)

end
