(* ===== verification/Endpoints.thy ===== *)
theory Endpoints
  imports Auth Spawner
begin

text \<open>
  \<open>api/endpoints.go\<close>: the guard around every endpoint and the endpoints themselves. An endpoint
  is a function of the request, the API's own state and the spawner's state; it returns what it
  wrote to the client (\<open>None\<close>: nothing) with the new states. The decoding of JSON bodies and the
  random source of keys are parameters.
\<close>

section \<open>State\<close>

record apiEndpoint =
  ae_Endpoint :: string
  ae_Version :: int
  ae_Perms :: goint
  ae_Method :: string
  ae_Desc :: string

text \<open>
  \<open>WebApi\<close>; \<open>wa_auth\<close> is \<open>None\<close> when authentication is disabled, \<open>wa_ctx\<close> also stands for
  \<open>cancelFunc\<close>, and a connected web socket is known by its contexts.
\<close>

record WebApi =
  wa_auth :: "authLookup option"
  wa_ctx :: nat
  wa_wsocks :: "(nat \<times> nat option) list"
  wa_endpoints :: "apiEndpoint list"

type_synonym 'e HandlerFunc =
  "request \<Rightarrow> WebApi \<Rightarrow> 'e world \<Rightarrow> (response option \<times> WebApi \<times> 'e world) may_panic"

section \<open>The guard\<close>

definition addEndpoint_guard :: "string \<Rightarrow> authPerms list \<Rightarrow> 'e HandlerFunc \<Rightarrow> 'e HandlerFunc" where
  "addEndpoint_guard method perms handler r a w =
     (if r_Method r \<noteq> method
      then Some (Some (RspPlain StatusMethodNotAllowed (''Method must be '' @ method)), a, w)
      else case wa_auth a of
        None \<Rightarrow> handler r a w
      | Some l \<Rightarrow>
          (case authLookup_checkPermission l r perms of
             Some rsp \<Rightarrow> Some (Some rsp, a, w)
           | None \<Rightarrow> handler r a w))"

definition documentEndpoint :: "string \<Rightarrow> string \<Rightarrow> int \<Rightarrow> string \<Rightarrow> goint \<Rightarrow> WebApi \<Rightarrow> WebApi" where
  "documentEndpoint name desc version method perms a =
     a\<lparr>wa_endpoints := wa_endpoints a @ [\<lparr>ae_Endpoint = name, ae_Version = version, ae_Perms = perms,
        ae_Method = method, ae_Desc = desc\<rparr>]\<rparr>"

section \<open>Status and list of proxies\<close>

definition epStatus :: "goint list \<Rightarrow> 'e HandlerFunc" where
  "epStatus ks r a w =
     Some (Some (writeResponse 200 (DHandlerStatus
       \<lparr>hs_ConnectionCount = int (length (GetAllProxies ks w)), hs_Alive = IsAlive w,
        hs_BytesSent = GetBytesSent w, hs_ProxyAddress = addr_String (ps_proxyAddr w),
        hs_ServerAddress = addr_String (ps_serverAddr w)\<rparr>)), a, w)"

text \<open>\<open>Duration.Milliseconds\<close> of a duration in nanoseconds truncates towards zero.\<close>

definition Milliseconds :: "int \<Rightarrow> int" where
  "Milliseconds d = (if d < 0 then - ((- d) div 1000000) else d div 1000000)"

definition status_of :: "'e world \<Rightarrow> nat \<Rightarrow> proxyStatus" where
  "status_of w v =
     \<lparr>st_Id = pc_GetId w v, st_Alive = pc_IsAlive w v, st_Address = addr_String (pc_GetClientAddr w v),
      st_Network = addr_Network (pc_GetClientAddr w v), st_BytesSent = pc_GetBytesSent w v,
      st_LastContactAgo = Milliseconds (pc_LastContactTimeAgo w v)\<rparr>"

definition epProxyList :: "goint list \<Rightarrow> 'e HandlerFunc" where
  "epProxyList ks r a w =
     Some (Some (writeResponse 200 (DProxies (map (status_of w) (GetAllProxies ks w)))), a, w)"

section \<open>Injection\<close>

record injectData =
  ij_Id :: goint
  ij_Data :: bytes
  ij_ToClient :: bool
  ij_ToServer :: bool

text \<open>A call made only if a flag is set, its error ignored.\<close>

definition when_send :: "bool \<Rightarrow> ('e world \<Rightarrow> (err option \<times> 'e world) may_panic) \<Rightarrow> 'e world \<Rightarrow> 'e world may_panic" where
  "when_send b send w = (if b then map_option snd (send w) else Some w)"

text \<open>
  \<open>unmarshal\<close> decodes the JSON body; \<open>ks\<close> and \<open>ks'\<close> are the orders in which the two broadcasts
  range over the connections.
\<close>

definition epInject :: "(bytes \<Rightarrow> injectData option) \<Rightarrow> goint list \<Rightarrow> goint list \<Rightarrow> 'e HandlerFunc" where
  "epInject unmarshal ks ks' r a w =
     (case r_body r of
        (data, Some _) \<Rightarrow> Some (Some (RspPlain StatusInternalServerError (map (\<lambda>b. char_of (unat b)) data)), a, w)
      | (data, None) \<Rightarrow>
          (case unmarshal data of
             None \<Rightarrow> Some (Some (writeResponse StatusBadRequest (DString ''Invalid JSON data'')), a, w)
           | Some d \<Rightarrow>
               if \<not> ij_ToClient d \<and> \<not> ij_ToServer d
               then Some (Some (writeResponse StatusBadRequest (DString ''ToClient and/or ToServer must be true'')), a, w)
               else if ij_Id d = - 1
               then do {
                 w1 \<leftarrow> when_send (ij_ToClient d) (SendToAllClients ks (ij_Data d)) w;
                 w2 \<leftarrow> when_send (ij_ToServer d) (SendToAllServers ks' (ij_Data d)) w1;
                 Some (Some (writeResponse 200 (DString '''')), a, w2)
               }
               else (case GetProxy (ij_Id d) w of
                 Inl err \<Rightarrow> Some (Some (writeResponse StatusNotFound
                              (DString (''proxy not found: '' @ err_Error err))), a, w)
               | Inr px \<Rightarrow> do {
                   w1 \<leftarrow> when_send (ij_ToClient d) (pc_SendToClient HandleSend HandleError px (ij_Data d)) w;
                   w2 \<leftarrow> when_send (ij_ToServer d) (pc_SendToServer HandleSend HandleError px (ij_Data d)) w1;
                   Some (Some (writeResponse 200 (DString '''')), a, w2)
                 })))"

section \<open>Keys\<close>

definition isValidCreationPerm :: "goint \<Rightarrow> goint \<Rightarrow> goint \<Rightarrow> authPerms \<Rightarrow> goint \<times> bool" where
  "isValidCreationPerm currentValue userPerms desiredPerms perm =
     (if \<not> checkPermission desiredPerms perm then (currentValue, True)
      else if \<not> checkPermission userPerms perm then (0, False)
      else (currentValue OR perm, True))"

text \<open>One call of it in \<open>createNewPerms\<close>, with the error of that call.\<close>

definition creation_step :: "goint \<Rightarrow> goint \<Rightarrow> authPerms \<Rightarrow> string \<Rightarrow> goint \<Rightarrow> err + goint" where
  "creation_step userPerms desiredPerms perm name value =
     (let (v, ok) = isValidCreationPerm value userPerms desiredPerms perm
      in if ok then Inr v else Inl (ErrNew name))"

definition bind_res :: "err + 'a \<Rightarrow> ('a \<Rightarrow> err + 'b) \<Rightarrow> err + 'b" where
  "bind_res x f = (case x of Inl e \<Rightarrow> Inl e | Inr v \<Rightarrow> f v)"

definition createNewPerms :: "goint \<Rightarrow> goint \<Rightarrow> err + goint" where
  "createNewPerms userPerms desiredPerms =
     bind_res (creation_step userPerms desiredPerms AuthCanCheckStatus ''CanCheckStatus'' 0) (\<lambda>v1.
     bind_res (creation_step userPerms desiredPerms AuthCanClose ''CanClose'' v1) (\<lambda>v2.
     bind_res (creation_step userPerms desiredPerms AuthCanUseWebsocket ''CanUseWebsocket'' v2) (\<lambda>v3.
     bind_res (creation_step userPerms desiredPerms AuthCanFilter ''CanFilter'' v3) (\<lambda>v4.
     bind_res (creation_step userPerms desiredPerms AuthCanInject ''CanInject'' v4) (\<lambda>v5.
     bind_res (if checkPermission desiredPerms AuthCanMakeKeys
               then (if \<not> checkPermission userPerms AuthCanDuplicateKeys
                     then Inl (ErrNew ''CanMakeKeys'') else Inr (v5 OR AuthCanMakeKeys))
               else Inr v5) (\<lambda>v6.
     creation_step userPerms desiredPerms AuthCanDuplicateKeys ''CanInject'' v6))))))"

definition epGetKey :: "(nat \<Rightarrow> err + u64) \<Rightarrow> 'e HandlerFunc" where
  "epGetKey rnd r a w =
     (case wa_auth a of
        None \<Rightarrow> Some (Some (writeResponse StatusNoContent (DString ''Authentication is disabled'')), a, w)
      | Some l \<Rightarrow>
          if \<not> qr_Has r ''perms''
          then Some (Some (writeResponse StatusBadRequest (DString ''requires 'perms' field'')), a, w)
          else case ParseInt (qr_Get r ''perms'') 0 of
            Inl _ \<Rightarrow> Some (Some (writeResponse StatusBadRequest (DString ''invalid perms field'')), a, w)
          | Inr newPerms \<Rightarrow>
              (case getAuthValues l r of
                 Inl rsp \<Rightarrow> Some (Some rsp, a, w)
               | Inr (key, ourPerms) \<Rightarrow>
                   (case createNewPerms ourPerms newPerms of
                      Inl err \<Rightarrow> Some (Some (writeResponse StatusForbidden
                        (DString (''lacking permission to add '' @ squoted (err_Error err) @ '' permission''))), a, w)
                    | Inr validPerms \<Rightarrow>
                        if validPerms = 0
                        then Some (Some (writeResponse StatusBadRequest (DString ''no permissions were added'')), a, w)
                        else do {
                          (newKey, l') \<leftarrow> newKeyInt rnd validPerms l;
                          Some (Some (writeResponse 200 (DNewKey
                            \<lparr>nk_Key = Sprintf_x newKey, nk_Perms = validPerms\<rparr>)), a\<lparr>wa_auth := Some l'\<rparr>, w)
                        })))"

definition auth_value :: "goint \<Rightarrow> authValue" where
  "auth_value value =
     \<lparr>av_Value = value, av_CanCheckStatus = checkPermission value AuthCanCheckStatus,
      av_CanClose = checkPermission value AuthCanClose,
      av_CanUseWebsocket = checkPermission value AuthCanUseWebsocket,
      av_CanFilter = checkPermission value AuthCanFilter, av_CanInject = checkPermission value AuthCanInject,
      av_CanMakeKeys = checkPermission value AuthCanMakeKeys,
      av_CanDuplicateKeys = checkPermission value AuthCanDuplicateKeys, av_Admin = (value = AuthAll)\<rparr>"

definition epGetAuthValue :: "'e HandlerFunc" where
  "epGetAuthValue r a w =
     (case wa_auth a of
        None \<Rightarrow> Some (Some (writeResponse StatusNoContent (DString ''Authentication is disabled'')), a, w)
      | Some l \<Rightarrow>
          (case getAuthValues l r of
             Inl rsp \<Rightarrow> Some (Some rsp, a, w)
           | Inr (key, value) \<Rightarrow> Some (Some (writeResponse 200 (DAuthValue (auth_value value))), a, w)))"

end
