(* ===== verification/Websocket.thy ===== *)
theory Websocket
  imports Endpoints
begin

text \<open>
  \<open>api/websocket.go\<close> and \<open>api/ws_client.go\<close>: one web socket connection. What the socket wrote is
  kept as a log; whether a write succeeds is decided by the connection, a parameter. A packet that
  waits for the client's verdict is a state of its own, advanced by the events its \<open>select\<close> can see.
\<close>

section \<open>Data\<close>

datatype wsServerTypes = wsServerError | wsServerPacket

datatype wsFilterValue = wsFilterDrop | wsFilterWait | wsFilterAllow

record wsPacket =
  wp_PktNum :: goint
  wp_ProxyId :: goint
  wp_Network :: string
  wp_Source :: string
  wp_Dest :: string
  wp_Data :: bytes
  wp_Flags :: CapFlags

datatype ws_payload = WsText string | WsPkt wsPacket

text \<open>The JSON object on the wire: an error carries its text directly, a success a typed message.\<close>

datatype ws_msg = WsErrorMsg int ws_payload | WsServerMsg int wsServerTypes ws_payload

text \<open>\<open>wsApi\<close>; \<open>ws_ctx\<close> also stands for \<open>cancel\<close>, \<open>ws_recv\<close> for \<open>recvChan\<close> and \<open>recvCancel\<close>; \<open>ws_log\<close> is what was written.\<close>

record wsApi =
  ws_ctx :: nat
  ws_canInject :: bool
  ws_canFilter :: bool
  ws_canClose :: bool
  ws_filterMap :: "goint \<rightharpoonup> wsFilterValue"
  ws_pktId :: goint
  ws_defaultAction :: wsFilterValue
  ws_networkFilter :: string
  ws_recv :: "nat option"
  ws_log :: "ws_msg list"

text \<open>Go reads a missing key of the map as the zero value, \<open>wsFilterWait\<close>.\<close>

definition filterMap_get :: "wsApi \<Rightarrow> goint \<Rightarrow> wsFilterValue" where
  "filterMap_get ws k = (case ws_filterMap ws k of Some v \<Rightarrow> v | None \<Rightarrow> wsFilterWait)"

section \<open>Writing\<close>

text \<open>\<open>wr\<close> is the result of \<open>ws.Write\<close>. Sending a \<open>wsServerError\<close> with status 200 panics.\<close>

definition ws_sendRaw ::
  "(ws_msg \<Rightarrow> err option) \<Rightarrow> int \<Rightarrow> wsServerTypes \<Rightarrow> ws_payload \<Rightarrow> wsApi \<Rightarrow> (err option \<times> wsApi) may_panic"
where
  "ws_sendRaw wr status wsType data ws =
     (if status = 200 \<and> wsType = wsServerError then None
      else (let msg = (if status \<noteq> 200 then WsErrorMsg status data else WsServerMsg status wsType data)
            in Some (wr msg, if wr msg = None then ws\<lparr>ws_log := ws_log ws @ [msg]\<rparr> else ws)))"

definition ws_sendPacket :: "(ws_msg \<Rightarrow> err option) \<Rightarrow> wsPacket \<Rightarrow> wsApi \<Rightarrow> (err option \<times> wsApi) may_panic" where
  "ws_sendPacket wr pkt ws = ws_sendRaw wr 200 wsServerPacket (WsPkt pkt) ws"

definition ws_sendError :: "(ws_msg \<Rightarrow> err option) \<Rightarrow> int \<Rightarrow> string \<Rightarrow> wsApi \<Rightarrow> (err option \<times> wsApi) may_panic" where
  "ws_sendError wr status msg ws = ws_sendRaw wr status wsServerError (WsText msg) ws"

definition ws_Close :: "wsApi \<Rightarrow> 'e world \<Rightarrow> 'e world" where
  "ws_Close ws w =
     (let w1 = w_cancel (ws_ctx ws) None w in
      case ws_recv ws of None \<Rightarrow> w1 | Some i \<Rightarrow> w_cancel (rc_ctx (w_chans w1 ! i)) None w1)"

section \<open>Packets to the client\<close>

definition matchesNetworkFilter :: "wsApi \<Rightarrow> pc_info \<Rightarrow> bool" where
  "matchesNetworkFilter ws p = (ws_networkFilter ws = [] \<or> ws_networkFilter ws = pi_Network p)"

definition ws_packet :: "goint \<Rightarrow> bytes \<Rightarrow> CapFlags \<Rightarrow> pc_info \<Rightarrow> wsPacket" where
  "ws_packet num data flags p =
     \<lparr>wp_PktNum = num, wp_ProxyId = pi_GetId p, wp_Network = pi_Network p,
      wp_Source = addr_String (if IsServerbound flags then pi_GetClientAddr p else pi_GetServerAddr p),
      wp_Dest = addr_String (if IsServerbound flags then pi_GetServerAddr p else pi_GetClientAddr p),
      wp_Data = data, wp_Flags = flags\<rparr>"

definition sendPkt ::
  "(ws_msg \<Rightarrow> err option) \<Rightarrow> bool \<Rightarrow> bytes \<Rightarrow> CapFlags \<Rightarrow> pc_info \<Rightarrow> wsApi \<Rightarrow>
   (wsPacket \<times> err option \<times> wsApi) may_panic"
where
  "sendPkt wr addId data flags p ws =
     (let num = (if addId then ws_pktId ws else - 1);
          ws1 = (if addId then ws\<lparr>ws_pktId := ws_pktId ws + 1\<rparr> else ws);
          ws2 = (if addId \<and> ws_canFilter ws \<and> \<not> IsInjected flags
                 then ws1\<lparr>ws_filterMap := (ws_filterMap ws1)(num \<mapsto> wsFilterWait)\<rparr> else ws1);
          pkt = ws_packet num data flags p
      in do { (e, ws3) \<leftarrow> ws_sendPacket wr pkt ws2; Some (pkt, e, ws3) })"

definition handleRecv :: "(ws_msg \<Rightarrow> err option) \<Rightarrow> bytes \<Rightarrow> CapFlags \<Rightarrow> pc_info \<Rightarrow> wsApi \<Rightarrow> wsApi may_panic" where
  "handleRecv wr data flags p ws =
     (if \<not> matchesNetworkFilter ws p then Some ws
      else do { (pkt, e, ws1) \<leftarrow> sendPkt wr False data flags p ws; Some ws1 })"

text \<open>The body of \<open>recv\<close> for a packet from the receive channel; a packet of an unknown proxy is skipped.\<close>

definition ws_recv_packet :: "(ws_msg \<Rightarrow> err option) \<Rightarrow> PacketChanData \<Rightarrow> 'e world \<Rightarrow> wsApi \<Rightarrow> wsApi may_panic" where
  "ws_recv_packet wr pkt w ws =
     (case GetProxy (pcd_ProxyId pkt) w of
        Inl _ \<Rightarrow> Some ws
      | Inr px \<Rightarrow> handleRecv wr (pcd_Data pkt) (pcd_Flags pkt) (pc_view w px) ws)"

section \<open>Filtering\<close>

text \<open>A call of \<open>handleRecvFilter\<close>: decided, or waiting in its \<open>select\<close> with the number of its packet.\<close>

datatype filter_call = FDecided bool | FWaiting goint

definition default_verdict :: "wsApi \<Rightarrow> bool" where
  "default_verdict ws = (ws_defaultAction ws = wsFilterAllow)"

definition handleRecvFilter_start ::
  "(ws_msg \<Rightarrow> err option) \<Rightarrow> bytes \<Rightarrow> CapFlags \<Rightarrow> pc_info \<Rightarrow> wsApi \<Rightarrow> (filter_call \<times> wsApi) may_panic"
where
  "handleRecvFilter_start wr data flags p ws =
     (if \<not> matchesNetworkFilter ws p then Some (FDecided (default_verdict ws), ws)
      else do {
        (pkt, e, ws1) \<leftarrow> sendPkt wr True data flags p ws;
        if e \<noteq> None then Some (FDecided (default_verdict ws1), ws1)
        else if IsInjected (wp_Flags pkt) then Some (FDecided True, ws1)
        else Some (FWaiting (wp_PktNum pkt), ws1)
      })"

datatype filter_event = EvDone | EvTimer | EvSignal

definition handleRecvFilter_event ::
  "(ws_msg \<Rightarrow> err option) \<Rightarrow> filter_event \<Rightarrow> goint \<Rightarrow> wsApi \<Rightarrow> (filter_call \<times> wsApi) may_panic"
where
  "handleRecvFilter_event wr ev num ws =
     (case ev of
        EvDone \<Rightarrow> Some (FDecided (default_verdict ws), ws)
      | EvTimer \<Rightarrow> do {
          (e, ws1) \<leftarrow> ws_sendError wr StatusRequestTimeout ''packet timed out'' ws;
          Some (FDecided (default_verdict ws1), ws1)
        }
      | EvSignal \<Rightarrow>
          (case filterMap_get ws num of
             wsFilterAllow \<Rightarrow> Some (FDecided True, ws)
           | wsFilterDrop \<Rightarrow> Some (FDecided False, ws)
           | wsFilterWait \<Rightarrow> Some (FWaiting num, ws)))"

text \<open>\<open>handleSend\<close>, the callback given to the spawner, up to its first wait.\<close>

definition handleSend_start ::
  "(ws_msg \<Rightarrow> err option) \<Rightarrow> bytes \<Rightarrow> CapFlags \<Rightarrow> pc_info \<Rightarrow> wsApi \<Rightarrow> (filter_call \<times> wsApi) may_panic"
where
  "handleSend_start wr data flags p ws =
     (if ws_canFilter ws then handleRecvFilter_start wr data flags p ws
      else do { ws1 \<leftarrow> handleRecv wr data flags p ws; Some (FDecided True, ws1) })"

section \<open>Messages of the client\<close>

definition wsReqInject :: goint where "wsReqInject = 1"
definition wsReqClose :: goint where "wsReqClose = 2"
definition wsReqFilter :: goint where "wsReqFilter = 3"
definition wsTargetAll :: goint where "wsTargetAll = - 1"
definition wsInjToClient :: u64 where "wsInjToClient = push_bit 0 1"
definition wsInjToServer :: u64 where "wsInjToServer = push_bit 1 1"
definition wsFilterShouldSend :: u64 where "wsFilterShouldSend = push_bit 0 1"

record wsClientMsg =
  cm_Type :: goint
  cm_Target :: goint
  cm_Data :: bytes
  cm_Extra :: u64

text \<open>
  The result of an action: the socket, the spawner, and whether the reading goroutine now blocks
  on the unbuffered \<open>filterChan\<close>.
\<close>

type_synonym 'e action_result = "(bool \<times> wsApi \<times> 'e world) may_panic"

definition answer_error :: "(ws_msg \<Rightarrow> err option) \<Rightarrow> int \<Rightarrow> string \<Rightarrow> wsApi \<Rightarrow> 'e world \<Rightarrow> 'e action_result" where
  "answer_error wr status msg ws w =
     do { (e, ws1) \<leftarrow> ws_sendError wr status msg ws; Some (False, ws1, w) }"

definition action_inject ::
  "(ws_msg \<Rightarrow> err option) \<Rightarrow> goint list \<Rightarrow> goint list \<Rightarrow> wsClientMsg \<Rightarrow> wsApi \<Rightarrow> 'e world \<Rightarrow> 'e action_result"
where
  "action_inject wr ks ks' m ws w =
     (if \<not> ws_canInject ws then answer_error wr StatusForbidden ''Missing permissions to inject'' ws w
      else (let toServer = (cm_Extra m AND wsInjToServer \<noteq> 0); toClient = (cm_Extra m AND wsInjToClient \<noteq> 0) in
        if \<not> toServer \<and> \<not> toClient
        then answer_error wr StatusBadRequest (''toClient and/or toServer must be set in '' @ squoted ''Extra'') ws w
        else if cm_Target m = wsTargetAll
        then do {
          w1 \<leftarrow> when_send toServer (SendToAllServers ks (cm_Data m)) w;
          w2 \<leftarrow> when_send toClient (SendToAllClients ks' (cm_Data m)) w1;
          Some (False, ws, w2)
        }
        else (case GetProxy (cm_Target m) w of
          Inl err \<Rightarrow> answer_error wr StatusNotFound (''proxy not found: '' @ err_Error err) ws w
        | Inr px \<Rightarrow> do {
            w1 \<leftarrow> when_send toServer (pc_SendToServer HandleSend HandleError px (cm_Data m)) w;
            w2 \<leftarrow> when_send toClient (pc_SendToClient HandleSend HandleError px (cm_Data m)) w1;
            Some (False, ws, w2)
          })))"

definition action_close ::
  "(ws_msg \<Rightarrow> err option) \<Rightarrow> goint list \<Rightarrow> wsClientMsg \<Rightarrow> wsApi \<Rightarrow> 'e world \<Rightarrow> 'e action_result"
where
  "action_close wr ks m ws w =
     (if \<not> ws_canClose ws then answer_error wr StatusForbidden ''Missing permissions to close'' ws w
      else if cm_Target m = wsTargetAll
      then Some (False, ws, foldl (\<lambda>w v. pc_Cancel v (Some ErrProxyClosedOk) w) w (GetAllProxies ks w))
      else (case GetProxy (cm_Target m) w of
        Inl err \<Rightarrow> answer_error wr StatusNotFound (''proxy not found: '' @ err_Error err) ws w
      | Inr px \<Rightarrow> Some (False, ws, pc_Cancel px (Some ErrProxyClosedOk) w)))"

definition action_filter :: "(ws_msg \<Rightarrow> err option) \<Rightarrow> wsClientMsg \<Rightarrow> wsApi \<Rightarrow> 'e world \<Rightarrow> 'e action_result" where
  "action_filter wr m ws w =
     (if \<not> ws_canFilter ws then answer_error wr StatusForbidden ''Missing permissions to inject'' ws w
      else if ws_filterMap ws (cm_Target m) = None then answer_error wr StatusNotFound ''packet not found'' ws w
      else if filterMap_get ws (cm_Target m) \<noteq> wsFilterWait then answer_error wr StatusGone ''packet already handled'' ws w
      else (let v = (if cm_Extra m AND wsFilterShouldSend = 0 then wsFilterDrop else wsFilterAllow)
            in Some (True, ws\<lparr>ws_filterMap := (ws_filterMap ws)(cm_Target m \<mapsto> v)\<rparr>, w)))"

definition handleClientAction ::
  "(ws_msg \<Rightarrow> err option) \<Rightarrow> (bytes \<Rightarrow> wsClientMsg option) \<Rightarrow> goint list \<Rightarrow> goint list \<Rightarrow>
   bool \<Rightarrow> bytes \<Rightarrow> wsApi \<Rightarrow> 'e world \<Rightarrow> 'e action_result"
where
  "handleClientAction wr unmarshal ks ks' isText data ws w =
     (if \<not> isText then answer_error wr StatusBadRequest ''Data type must be Text JSON'' ws w
      else case unmarshal data of
        None \<Rightarrow> answer_error wr StatusBadRequest ''Bad JSON data'' ws w
      | Some m \<Rightarrow>
          if cm_Type m = wsReqInject then action_inject wr ks ks' m ws w
          else if cm_Type m = wsReqClose then action_close wr ks m ws w
          else if cm_Type m = wsReqFilter then action_filter wr m ws w
          else answer_error wr StatusBadRequest ''Unknown Type'' ws w)"

section \<open>Creating a socket\<close>

definition new_ws :: "nat \<Rightarrow> wsApi" where
  "new_ws ctx = \<lparr>ws_ctx = ctx, ws_canInject = False, ws_canFilter = False, ws_canClose = False,
     ws_filterMap = Map.empty, ws_pktId = 0, ws_defaultAction = wsFilterAllow, ws_networkFilter = [],
     ws_recv = None, ws_log = []\<rparr>"

text \<open>The permissions the query asks for; \<open>Inl\<close> is the refusal that was written.\<close>

definition ws_permissions :: "goint \<Rightarrow> request \<Rightarrow> wsApi \<Rightarrow> response + wsApi" where
  "ws_permissions val r ws =
     (if qr_Has r ''close'' \<and> \<not> checkPermission val AuthCanClose
      then Inl (RspPlain StatusForbidden (''missing permissions for '' @ squoted ''close''))
      else if qr_Has r ''inject'' \<and> \<not> checkPermission val AuthCanInject
      then Inl (RspPlain StatusForbidden (''missing permissions for '' @ squoted ''inject''))
      else if qr_Has r ''filter'' \<and> \<not> checkPermission val AuthCanFilter
      then Inl (RspPlain StatusForbidden (''missing permissions for '' @ squoted ''filter''))
      else if qr_Has r ''filter'' \<and> qr_Has r ''default'' \<and> qr_Get r ''default'' \<notin> {''drop'', ''allow''}
      then Inl (RspPlain StatusBadRequest (squoted ''default'' @ '' value is invalid, must be 'drop' or 'allow''))
      else Inr (ws\<lparr>ws_canClose := qr_Has r ''close'', ws_canInject := qr_Has r ''inject'',
                   ws_canFilter := qr_Has r ''filter'',
                   ws_defaultAction := (if qr_Has r ''filter'' \<and> qr_Has r ''default'' \<and> qr_Get r ''default'' = ''drop''
                                        then wsFilterDrop else wsFilterAllow)\<rparr>))"

text \<open>
  \<open>newWebSocket\<close> up to \<open>websocket.Accept\<close>; \<open>cb\<close> gives the method \<open>handleSend\<close> of the
  socket with a given context as a filter callback. Every early return runs the deferred \<open>Close\<close>.
\<close>

definition newWebSocket_setup ::
  "(nat \<Rightarrow> 'e PacketSendCallback) \<Rightarrow> request \<Rightarrow> WebApi \<Rightarrow> 'e world \<Rightarrow>
   ((response \<times> 'e world) + (wsApi \<times> 'e world)) may_panic"
where
  "newWebSocket_setup cb r a w =
     (let (ctx, \<sigma>) = WithCancelCause (Some (wa_ctx a)) (w_ctxs w); w1 = w\<lparr>w_ctxs := \<sigma>\<rparr>; ws = new_ws ctx in
      case (case wa_auth a of None \<Rightarrow> Inr (0, AuthAll) | Some l \<Rightarrow> getAuthValues l r) of
        Inl rsp \<Rightarrow> Some (Inl (rsp, ws_Close ws w1))
      | Inr (key, val) \<Rightarrow>
          (case ws_permissions val r ws of
             Inl rsp \<Rightarrow> Some (Inl (rsp, ws_Close ws w1))
           | Inr ws1 \<Rightarrow>
               do {
                 (err, ws2, w2) \<leftarrow>
                   (if ws_canFilter ws1
                    then do { (e, v) \<leftarrow> TrySetFilterCallback (Some (cb ctx)) (Some ctx) w1; Some (e, ws1, v) }
                    else (let (i, v) = GetRecvChan (Some (wa_ctx a)) w1
                          in Some (None, ws1\<lparr>ws_recv := Some i\<rparr>, v)));
                 if err \<noteq> None
                 then Some (Inl (RspPlain StatusConflict ''Filterer already exists'', ws_Close ws2 w2))
                 else (let ws3 = ws2\<lparr>ws_networkFilter := qr_Get r ''network''\<rparr> in
                   if ws_networkFilter ws3 \<notin> {[], ''tcp'', ''udp''}
                   then Some (Inl (RspPlain StatusBadRequest ''network must be 'tcp', 'udp' or left empty'', ws_Close ws3 w2))
                   else Some (Inr (ws3, w2)))
               }))"

text \<open>
  The rest: \<open>accept\<close> says whether the upgrade succeeds, \<open>session\<close> is all that happens while
  \<open>listen\<close> runs; then the deferred \<open>Close\<close>.
\<close>

definition newWebSocket ::
  "(nat \<Rightarrow> 'e PacketSendCallback) \<Rightarrow> bool \<Rightarrow> (wsApi \<Rightarrow> 'e world \<Rightarrow> 'e world) \<Rightarrow> 'e HandlerFunc"
where
  "newWebSocket cb accept session r a w =
     do {
       res \<leftarrow> newWebSocket_setup cb r a w;
       (case res of
          Inl (rsp, v) \<Rightarrow> Some (Some rsp, a, v)
        | Inr (ws, v) \<Rightarrow>
            Some (None, a, ws_Close ws (if accept then session ws v else v)))
     }"

end
