(* ===== verification/Api.thy ===== *)
theory Api
  imports Websocket
begin

text \<open>
  \<open>api/api.go\<close>: the API as a whole, with its routes, its self-documentation and its end. What
  comes from outside (random source, JSON decoding, map orders, the web socket upgrade and what
  happens during a socket's session) is bundled in a record of parameters.
\<close>

section \<open>Keys and documentation\<close>

definition AddAuth :: "u64 \<Rightarrow> authPerms list \<Rightarrow> WebApi \<Rightarrow> err + WebApi" where
  "AddAuth key perms a =
     (case wa_auth a of
        None \<Rightarrow> Inl (ErrNew ''auth is disabled'')
      | Some l \<Rightarrow> bind_res (addKey key perms l) (\<lambda>l'. Inr (a\<lparr>wa_auth := Some l'\<rparr>)))"

definition perm_item :: "goint \<Rightarrow> authPerms \<Rightarrow> string \<Rightarrow> string" where
  "perm_item perms p name =
     (if checkPermission perms p then ''<li>'' @ name @ '' ('' @ Sprintf_d (sint p) @ '')</li>'' else [])"

definition endpoint_html :: "apiEndpoint \<Rightarrow> string" where
  "endpoint_html v =
     ''<a><b>'' @ ae_Endpoint v @ ''</b><p>'' @ ae_Desc v @ ''</p><ul><li>Version: '' @ Sprintf_d (ae_Version v) @
     ''</li><li>Method : '' @ ae_Method v @ ''</li><li>Permissions:</li><ul>'' @
     perm_item (ae_Perms v) AuthCanCheckStatus ''AuthCanCheckStatus'' @
     perm_item (ae_Perms v) AuthCanClose ''AuthCanClose'' @
     perm_item (ae_Perms v) AuthCanUseWebsocket ''AuthCanUseWebsocket'' @
     perm_item (ae_Perms v) AuthCanFilter ''AuthCanFilter'' @
     perm_item (ae_Perms v) AuthCanInject ''AuthCanInject'' @
     perm_item (ae_Perms v) AuthCanMakeKeys ''AuthCanMakeKeys'' @
     perm_item (ae_Perms v) AuthCanDuplicateKeys ''AuthCanDuplicateKeys'' @
     ''</ul></ul></a>''"

definition homePage :: "request \<Rightarrow> WebApi \<Rightarrow> response" where
  "homePage r a =
     (if r_Path r \<noteq> ''/'' then RspPlain StatusNotFound ''404 page not found''
      else RspPlain StatusOK (''<html><h1>EzProxy API</h1>'' @ concat (map endpoint_html (wa_endpoints a)) @ ''</html>''))"

section \<open>Routes\<close>

record 'e api_params =
  ap_rnd :: "nat \<Rightarrow> err + u64"
  ap_unmarshal :: "bytes \<Rightarrow> injectData option"
  ap_order :: "goint list"
  ap_order2 :: "goint list"
  ap_handleSend :: "nat \<Rightarrow> 'e PacketSendCallback"
  ap_accept :: bool
  ap_session :: "wsApi \<Rightarrow> 'e world \<Rightarrow> 'e world"

definition endpoint_path :: "string \<Rightarrow> int \<Rightarrow> string" where
  "endpoint_path name version = ''/api/'' @ Sprintf_d version @ ''/'' @ name"

definition addEndpoint :: "string \<Rightarrow> int \<Rightarrow> string \<Rightarrow> 'e HandlerFunc \<Rightarrow> authPerms list \<Rightarrow> string \<times> 'e HandlerFunc" where
  "addEndpoint name version method handler perms =
     (endpoint_path name version, addEndpoint_guard method perms handler)"

definition api_routes :: "'e api_params \<Rightarrow> (string \<times> 'e HandlerFunc) list" where
  "api_routes P =
     [addEndpoint ''status'' 1 ''GET'' (epStatus (ap_order P)) [AuthCanCheckStatus],
      addEndpoint ''proxies'' 1 ''GET'' (epProxyList (ap_order P)) [AuthCanCheckStatus],
      addEndpoint ''inject'' 1 ''POST'' (epInject (ap_unmarshal P) (ap_order P) (ap_order2 P)) [AuthCanInject],
      addEndpoint ''newkey'' 1 ''GET'' (epGetKey (ap_rnd P)) [AuthCanMakeKeys],
      addEndpoint ''keyinfo'' 1 ''GET'' epGetAuthValue [],
      addEndpoint ''socket'' 2 ''GET'' (newWebSocket (ap_handleSend P) (ap_accept P) (ap_session P)) [AuthCanUseWebsocket]]"

text \<open>The mux: an exact path goes to its endpoint, everything else to the pattern \<open>/\<close>.\<close>

definition serve :: "'e api_params \<Rightarrow> 'e HandlerFunc" where
  "serve P r a w =
     (case map_of (api_routes P) (r_Path r) of
        Some h \<Rightarrow> h r a w
      | None \<Rightarrow> Some (Some (homePage r a), a, w))"

section \<open>Construction and end\<close>

definition NewWebApi :: "bool \<Rightarrow> ctxs \<Rightarrow> WebApi \<times> ctxs" where
  "NewWebApi useAuth \<sigma> =
     (let (c, \<tau>) = WithCancelCause None \<sigma>;
          wa = \<lparr>wa_auth = (if useAuth then Some newAuthLookup else None), wa_ctx = c, wa_wsocks = [], wa_endpoints = []\<rparr>
      in (documentEndpoint ''socket'' ''Create a new WebSocket (TODO: Document the rest of this)'' 2 ''GET'' AuthCanUseWebsocket
          (documentEndpoint ''keyinfo'' ''Get info about this API key'' 1 ''GET'' 0
          (documentEndpoint ''newkey'' ''Create a new key with your permissions.'' 1 ''GET'' AuthCanMakeKeys
          (documentEndpoint ''inject'' ''Inject data to a target, send JSON data to inject. (TODO: Better document)'' 1 ''POST'' AuthCanInject
          (documentEndpoint ''proxies'' ''Get status of all connected clients'' 1 ''GET'' AuthCanCheckStatus
          (documentEndpoint ''status'' ''Get status of the Proxy Spawner'' 1 ''GET'' AuthCanCheckStatus wa))))), \<tau>))"

definition close_socket :: "nat \<times> nat option \<Rightarrow> 'e world \<Rightarrow> 'e world" where
  "close_socket s w =
     (let w1 = w_cancel (fst s) None w in case snd s of None \<Rightarrow> w1 | Some c \<Rightarrow> w_cancel c None w1)"

definition WebApi_Close :: "WebApi \<Rightarrow> 'e world \<Rightarrow> 'e world" where
  "WebApi_Close a w = fold close_socket (wa_wsocks a) (w_cancel (wa_ctx a) None w)"

end
