(* ===== verification/Helpers.thy ===== *)
theory Helpers
  imports Api
begin

text \<open>
  \<open>helpers.go\<close>: version numbers, the configuration and how the program is put together from it.
  Reading the file, decoding YAML, the local address and address resolution are parameters.
\<close>

section \<open>Versions\<close>

definition versionExperimental :: u32 where "versionExperimental = 0x80000000"

definition versionToString :: "u32 \<Rightarrow> string" where
  "versionToString v =
     (let suffix = (if v AND versionExperimental \<noteq> 0 then ''e'' else []);
          major = (drop_bit 16 v) AND 0xff; minor = (drop_bit 8 v) AND 0xff; rev = v AND 0xff
      in Sprintf_d (uint major) @ ''.'' @ Sprintf_d (uint minor) @ ''r'' @ Sprintf_d (uint rev) @ suffix)"

section \<open>Configuration\<close>

record ConfigAddress =
  ca_Address :: string
  ca_Port :: "16 word"

definition ConfigAddress_IsEmpty :: "ConfigAddress \<Rightarrow> bool" where
  "ConfigAddress_IsEmpty c = (ca_Address c \<noteq> [] \<or> ca_Port c \<noteq> 0)"

text \<open>\<open>strings.Split(s, ":")[0]\<close>; \<open>local\<close> is the result of \<open>getLocalIp\<close>, whose failure panics.\<close>

definition before_colon :: "string \<Rightarrow> string" where
  "before_colon s = takeWhile (\<lambda>c. c \<noteq> CHR '':'') s"

definition ConfigAddress_ToString :: "err + addr \<Rightarrow> ConfigAddress \<Rightarrow> string may_panic" where
  "ConfigAddress_ToString local c =
     (if ca_Address c = []
      then (case local of
              Inl _ \<Rightarrow> None
            | Inr a \<Rightarrow> Some (before_colon (addr_String a) @ '':'' @ Sprintf_d (uint (ca_Port c))))
      else Some (ca_Address c @ '':'' @ Sprintf_d (uint (ca_Port c))))"

datatype slog_Level = LevelDebug | LevelInfo | LevelWarn | LevelError

text \<open>\<open>slog.Level\<close> is an ordered integer type: -4, 0, 4, 8. A logger keeps the records from its level on.\<close>

fun slog_num :: "slog_Level \<Rightarrow> int" where
  "slog_num LevelDebug = - 4"
| "slog_num LevelInfo = 0"
| "slog_num LevelWarn = 4"
| "slog_num LevelError = 8"

lemma slog_num_inj: "slog_num a = slog_num b \<Longrightarrow> a = b"
  by (cases a; cases b) simp_all

instantiation slog_Level :: linorder
begin

definition less_eq_slog_Level :: "slog_Level \<Rightarrow> slog_Level \<Rightarrow> bool" where
  "less_eq_slog_Level a b = (slog_num a \<le> slog_num b)"

definition less_slog_Level :: "slog_Level \<Rightarrow> slog_Level \<Rightarrow> bool" where
  "less_slog_Level a b = (slog_num a < slog_num b)"

instance
  by standard (auto simp: less_eq_slog_Level_def less_slog_Level_def slog_num_inj)

end

definition LevelToSlog :: "string \<Rightarrow> slog_Level may_panic" where
  "LevelToSlog level =
     (if level = ''debug'' then Some LevelDebug else if level = ''info'' then Some LevelInfo
      else if level = ''warn'' then Some LevelWarn else if level = ''error'' then Some LevelError
      else None)"

record ConfigData =
  cd_ProxyAddress :: ConfigAddress
  cd_ServerAddress :: ConfigAddress
  cd_Api_Enable :: bool
  cd_Api_UseAuth :: bool
  cd_Api_Address :: ConfigAddress
  cd_Logging_Level :: string
  cd_Lua_Enable :: bool
  cd_Lua_Path :: string
  cd_Lua_Mode :: string
  cd_Debug_Enable :: bool
  cd_Debug_ApiKey :: u64

definition ConfigData_IsEmpty :: "ConfigData \<Rightarrow> bool" where
  "ConfigData_IsEmpty c =
     (if \<not> ConfigAddress_IsEmpty (cd_ProxyAddress c) then False
      else if \<not> ConfigAddress_IsEmpty (cd_ServerAddress c) then False
      else if \<not> ConfigAddress_IsEmpty (cd_Api_Address c) \<or> cd_Api_Enable c \<or> cd_Api_UseAuth c then False
      else if cd_Logging_Level c \<noteq> [] then False
      else if cd_Debug_Enable c \<or> cd_Debug_ApiKey c \<noteq> 0 then False
      else True)"

definition loadCfg :: "err + bytes \<Rightarrow> (bytes \<Rightarrow> err + ConfigData) \<Rightarrow> ConfigData option" where
  "loadCfg file unmarshal =
     (case file of
        Inl _ \<Rightarrow> None
      | Inr cfgData \<Rightarrow>
          (case unmarshal cfgData of
             Inl _ \<Rightarrow> None
           | Inr cfg \<Rightarrow> if ConfigData_IsEmpty cfg then None else Some cfg))"

section \<open>Putting the program together\<close>

text \<open>
  \<open>setupSpawnerAndApi\<close>: the result is \<open>None\<close> inside when the Go function returns nil. \<open>log\<close> is the
  error callback it installs, \<open>early\<close> what the two listeners do while the spawner is created. Starting the HTTP server is input and output only. \<open>setup_api\<close> is its
  last part, from the check of \<open>cfg.Api.Enable\<close> on.
\<close>

definition setup_api ::
  "err + addr \<Rightarrow> ConfigData \<Rightarrow> 'e world \<Rightarrow> ('e world \<times> WebApi option) option may_panic"
where
  "setup_api local cfg ps =
     (if \<not> cd_Api_Enable cfg then Some (Some (ps, None))
      else (let (web, \<rho>) = NewWebApi (cd_Api_UseAuth cfg) (w_ctxs ps); ps1 = ps\<lparr>w_ctxs := \<rho>\<rparr> in
        case (if cd_Debug_Enable cfg \<and> cd_Api_UseAuth cfg
              then AddAuth (cd_Debug_ApiKey cfg) [AuthAll] web else Inr web) of
          Inl _ \<Rightarrow> Some None
        | Inr web1 \<Rightarrow> do {
            apiStr \<leftarrow> ConfigAddress_ToString local (cd_Api_Address cfg);
            Some (Some (ps1, Some web1))
          }))"

definition setupSpawnerAndApi ::
  "err + addr \<Rightarrow> (string \<Rightarrow> err + addr) \<Rightarrow> 'e ProxyErrorCallback \<Rightarrow> ('e world \<Rightarrow> 'e world) \<Rightarrow> ConfigData \<Rightarrow> ctxs \<Rightarrow> 'e \<Rightarrow> int \<Rightarrow>
   ('e world \<times> WebApi option) option may_panic"
where
  "setupSpawnerAndApi local resolve log early cfg \<sigma> e now =
     do {
       proxyStr \<leftarrow> ConfigAddress_ToString local (cd_ProxyAddress cfg);
       (case resolve proxyStr of
          Inl _ \<Rightarrow> Some None
        | Inr pxAddr \<Rightarrow> do {
            serverStr \<leftarrow> ConfigAddress_ToString local (cd_ServerAddress cfg);
            (case resolve serverStr of
               Inl _ \<Rightarrow> Some None
             | Inr svAddr \<Rightarrow>
                 (let (ctx, \<tau>) = WithCancelCause None \<sigma> in
                  case NewProxySpawnerWithContainer svAddr pxAddr (Some ctx) 2 early \<tau> e now of
                    Inl _ \<Rightarrow> Some None
                  | Inr ps \<Rightarrow> setup_api local cfg (SetErrorCallback (Some log) ps)))
          })
     }"

end
