(* ===== verification/WsFilter.thy ===== *)
theory WsFilter
  imports Websocket
begin

text \<open>
  The filter of one web socket as a system of goroutines: any number of senders, each waiting in
  \<open>handleRecvFilter\<close> for the verdict on its packet, and the one goroutine that reads the client's
  messages and, after storing a reply, sends on the unbuffered \<open>filterChan\<close>, which any one of the
  waiting senders may receive.
\<close>

datatype filter_history = HReply goint bool | HVerdict goint bool filter_event

record filter_sys =
  fs_ws :: wsApi
  fs_waiting :: "goint set"
  fs_blocked :: bool
  fs_history :: "filter_history list"

text \<open>What a message contributes to the history: a reply was stored iff the reader blocks after it.\<close>

definition reply_of :: "wsApi \<Rightarrow> wsApi \<Rightarrow> bool \<Rightarrow> wsClientMsg \<Rightarrow> filter_history list" where
  "reply_of ws ws' blk m = (if blk then [HReply (cm_Target m) (cm_Extra m AND wsFilterShouldSend \<noteq> 0)] else [])"

inductive filter_step :: "(ws_msg \<Rightarrow> err option) \<Rightarrow> filter_sys \<Rightarrow> filter_sys \<Rightarrow> bool" for wr where
  fs_arrive_waits: "ws_pktId (fs_ws s) \<noteq> - 1 \<Longrightarrow>
    handleSend_start wr d f p (fs_ws s) = Some (FWaiting n, ws') \<Longrightarrow>
    filter_step wr s (s\<lparr>fs_ws := ws', fs_waiting := insert n (fs_waiting s)\<rparr>)"
| fs_arrive_decided: "ws_pktId (fs_ws s) \<noteq> - 1 \<Longrightarrow>
    handleSend_start wr d f p (fs_ws s) = Some (FDecided b, ws') \<Longrightarrow>
    filter_step wr s (s\<lparr>fs_ws := ws'\<rparr>)"
| fs_default: "n \<in> fs_waiting s \<Longrightarrow> ev \<noteq> EvSignal \<Longrightarrow>
    handleRecvFilter_event wr ev n (fs_ws s) = Some (FDecided b, ws') \<Longrightarrow>
    filter_step wr s (s\<lparr>fs_ws := ws', fs_waiting := fs_waiting s - {n}, fs_history := fs_history s @ [HVerdict n b ev]\<rparr>)"
| fs_signal_decides: "fs_blocked s \<Longrightarrow> n \<in> fs_waiting s \<Longrightarrow>
    handleRecvFilter_event wr EvSignal n (fs_ws s) = Some (FDecided b, ws') \<Longrightarrow>
    filter_step wr s (s\<lparr>fs_ws := ws', fs_waiting := fs_waiting s - {n}, fs_blocked := False,
      fs_history := fs_history s @ [HVerdict n b EvSignal]\<rparr>)"
| fs_signal_again: "fs_blocked s \<Longrightarrow> n \<in> fs_waiting s \<Longrightarrow>
    handleRecvFilter_event wr EvSignal n (fs_ws s) = Some (FWaiting n, ws') \<Longrightarrow>
    filter_step wr s (s\<lparr>fs_ws := ws', fs_blocked := False\<rparr>)"
| fs_message: "\<not> fs_blocked s \<Longrightarrow> unmarshal data = Some m \<Longrightarrow>
    handleClientAction wr unmarshal ks ks' True data (fs_ws s) (w :: unit world) = Some (blk, ws', w') \<Longrightarrow>
    filter_step wr s (s\<lparr>fs_ws := ws', fs_blocked := blk, fs_history := fs_history s @ reply_of (fs_ws s) ws' blk m\<rparr>)"

definition filter_init :: "filter_sys \<Rightarrow> bool" where
  "filter_init s \<longleftrightarrow> fs_waiting s = {} \<and> \<not> fs_blocked s \<and> fs_history s = [] \<and>
     ws_filterMap (fs_ws s) = Map.empty"

definition verdict_nums :: "filter_history list \<Rightarrow> goint list" where
  "verdict_nums h = List.map_filter (\<lambda>x. case x of HVerdict n b ev \<Rightarrow> Some n | HReply n b \<Rightarrow> None) h"

lemma verdict_nums_simps [simp]:
  "verdict_nums [] = []" "verdict_nums (h @ h') = verdict_nums h @ verdict_nums h'"
  "verdict_nums [HVerdict n b ev] = [n]" "verdict_nums [HReply n b] = []"
  by (simp_all add: verdict_nums_def List.map_filter_def)

lemma in_verdict_nums: "n \<in> set (verdict_nums h) \<longleftrightarrow> (\<exists>b ev. HVerdict n b ev \<in> set h)"
  by (force simp: verdict_nums_def List.map_filter_def split: filter_history.splits)

definition reply_nums :: "filter_history list \<Rightarrow> goint list" where
  "reply_nums h = List.map_filter (\<lambda>x. case x of HReply n b \<Rightarrow> Some n | HVerdict n b ev \<Rightarrow> None) h"

lemma reply_nums_simps [simp]:
  "reply_nums [] = []" "reply_nums (h @ h') = reply_nums h @ reply_nums h'"
  "reply_nums [HReply n b] = [n]" "reply_nums [HVerdict n b ev] = []"
  by (simp_all add: reply_nums_def List.map_filter_def)

lemma in_reply_nums: "n \<in> set (reply_nums h) \<longleftrightarrow> (\<exists>b. HReply n b \<in> set h)"
  by (force simp: reply_nums_def List.map_filter_def split: filter_history.splits)

section \<open>What the operations do to the socket\<close>

definition verdict_value :: "bool \<Rightarrow> wsFilterValue" where
  "verdict_value b = (if b then wsFilterAllow else wsFilterDrop)"

lemma verdict_value_inject [simp]: "verdict_value b = verdict_value c \<longleftrightarrow> b = c" "verdict_value b \<noteq> wsFilterWait"
    "wsFilterWait \<noteq> verdict_value b"
  by (auto simp: verdict_value_def)

lemma sendRaw_log:
  "ws_sendRaw wr st ty d ws = Some (e, ws') \<Longrightarrow> \<exists>l. ws' = ws\<lparr>ws_log := l\<rparr>"
  by (auto simp: ws_sendRaw_def Let_def split: if_splits) (metis wsApi.surjective wsApi.update_convs(10))+

lemma sendRaw_fields:
  assumes "ws_sendRaw wr st ty d ws = Some (e, ws')"
  shows "ws_filterMap ws' = ws_filterMap ws" "ws_pktId ws' = ws_pktId ws"
    "ws_defaultAction ws' = ws_defaultAction ws" "ws_canFilter ws' = ws_canFilter ws"
  using sendRaw_log [OF assms] by auto

lemmas sendError_fields = sendRaw_fields [where ty = wsServerError and st = st and d = "WsText m" for st m, folded ws_sendError_def]

text \<open>The socket after a packet came in: possibly one id used up, possibly one map entry.\<close>

lemma sendPkt_result:
  assumes "sendPkt wr addId d f p ws = Some (pkt, e, ws')"
  shows "ws_defaultAction ws' = ws_defaultAction ws" "ws_canFilter ws' = ws_canFilter ws"
    "ws_pktId ws' = (if addId then ws_pktId ws + 1 else ws_pktId ws)"
    "ws_filterMap ws' = (if addId \<and> ws_canFilter ws \<and> \<not> IsInjected f
       then (ws_filterMap ws)(ws_pktId ws \<mapsto> wsFilterWait) else ws_filterMap ws)"
    "wp_PktNum pkt = (if addId then ws_pktId ws else - 1)" "wp_Flags pkt = f"
proof -
  let ?num = "if addId then ws_pktId ws else - 1"
  let ?ws1 = "if addId then ws\<lparr>ws_pktId := ws_pktId ws + 1\<rparr> else ws"
  let ?ws2 = "if addId \<and> ws_canFilter ws \<and> \<not> IsInjected f
      then ?ws1\<lparr>ws_filterMap := (ws_filterMap ?ws1)(?num \<mapsto> wsFilterWait)\<rparr> else ?ws1"
  have raw: "ws_sendRaw wr 200 wsServerPacket (WsPkt pkt) ?ws2 = Some (e, ws')" and pkt: "pkt = ws_packet ?num d f p"
    using assms by (auto simp: sendPkt_def Let_def ws_sendPacket_def Option.bind_eq_Some_conv)
  show "wp_PktNum pkt = ?num" "wp_Flags pkt = f" by (simp_all add: pkt ws_packet_def)
  show "ws_defaultAction ws' = ws_defaultAction ws" "ws_canFilter ws' = ws_canFilter ws"
    "ws_pktId ws' = (if addId then ws_pktId ws + 1 else ws_pktId ws)"
    "ws_filterMap ws' = (if addId \<and> ws_canFilter ws \<and> \<not> IsInjected f
       then (ws_filterMap ws)(ws_pktId ws \<mapsto> wsFilterWait) else ws_filterMap ws)"
    unfolding sendRaw_fields [OF raw] by simp_all
qed

definition arrived :: "wsApi \<Rightarrow> wsApi \<Rightarrow> bool" where
  "arrived ws ws' \<longleftrightarrow> ws_defaultAction ws' = ws_defaultAction ws \<and> ws_pktId ws' \<in> {ws_pktId ws, ws_pktId ws + 1} \<and>
     (ws_filterMap ws' = ws_filterMap ws \<or>
      ws_pktId ws' = ws_pktId ws + 1 \<and> ws_filterMap ws' = (ws_filterMap ws)(ws_pktId ws \<mapsto> wsFilterWait))"

lemma handleSend_start_result:
  assumes "handleSend_start wr d f p ws = Some (c, ws')"
  shows "arrived ws ws'"
    "c = FWaiting n \<Longrightarrow> n = ws_pktId ws \<and> ws_pktId ws' = ws_pktId ws + 1 \<and>
       ws_filterMap ws' = (ws_filterMap ws)(n \<mapsto> wsFilterWait)"
  using assms
  by (auto simp: handleSend_start_def handleRecvFilter_start_def handleRecv_def arrived_def Option.bind_eq_Some_conv
      sendPkt_result split: if_splits)

lemma event_result:
  assumes "handleRecvFilter_event wr ev n ws = Some (c, ws')"
  shows "ws_filterMap ws' = ws_filterMap ws" "ws_pktId ws' = ws_pktId ws" "ws_defaultAction ws' = ws_defaultAction ws"
    "ev \<noteq> EvSignal \<Longrightarrow> c = FDecided (default_verdict ws)"
    "ev = EvSignal \<Longrightarrow> c = FDecided b \<Longrightarrow> ws_filterMap ws n = Some (verdict_value b)"
    "ev = EvSignal \<Longrightarrow> c = FWaiting k \<Longrightarrow> ws_filterMap ws n \<noteq> Some (verdict_value b')"
  using assms
  by (auto simp: verdict_value_def handleRecvFilter_event_def default_verdict_def filterMap_get_def sendError_fields
      Option.bind_eq_Some_conv split: filter_event.splits wsFilterValue.splits option.splits)

text \<open>A message that stores no reply leaves the filter alone; one that does changes one entry.\<close>

definition quiet :: "bool \<Rightarrow> wsApi \<Rightarrow> wsApi \<Rightarrow> bool" where
  "quiet blk ws ws' \<longleftrightarrow> \<not> blk \<and> ws_filterMap ws' = ws_filterMap ws \<and> ws_pktId ws' = ws_pktId ws \<and>
     ws_defaultAction ws' = ws_defaultAction ws"

definition replied :: "bool \<Rightarrow> wsClientMsg \<Rightarrow> wsApi \<Rightarrow> wsApi \<Rightarrow> bool" where
  "replied blk m ws ws' \<longleftrightarrow> blk \<and> ws_pktId ws' = ws_pktId ws \<and> ws_defaultAction ws' = ws_defaultAction ws \<and>
     ws_filterMap ws (cm_Target m) = Some wsFilterWait \<and>
     ws_filterMap ws' = (ws_filterMap ws)(cm_Target m \<mapsto> verdict_value (cm_Extra m AND wsFilterShouldSend \<noteq> 0))"

lemma quiet_refl [simp]: "quiet False ws ws"
  by (simp add: quiet_def)

lemma answer_error_quiet: "answer_error wr st m ws w = Some (blk, ws', w') \<Longrightarrow> quiet blk ws ws' \<and> w' = w"
  by (auto simp: answer_error_def quiet_def Option.bind_eq_Some_conv sendError_fields)

lemma action_inject_quiet: "action_inject wr ks ks' m ws w = Some (blk, ws', w') \<Longrightarrow> quiet blk ws ws'"
  by (auto simp: action_inject_def Let_def Option.bind_eq_Some_conv dest: answer_error_quiet split: if_splits sum.splits)

lemma action_close_quiet: "action_close wr ks m ws w = Some (blk, ws', w') \<Longrightarrow> quiet blk ws ws'"
  by (auto simp: action_close_def dest: answer_error_quiet split: if_splits sum.splits)

lemma action_filter_result:
  "action_filter wr m ws w = Some (blk, ws', w') \<Longrightarrow> w' = w \<and> (quiet blk ws ws' \<or> replied blk m ws ws')"
  by (auto simp: verdict_value_def action_filter_def Let_def replied_def filterMap_get_def dest: answer_error_quiet split: if_splits)

lemma action_result:
  assumes "handleClientAction wr um ks ks' True data ws w = Some (blk, ws', w')" "um data = Some m"
  shows "quiet blk ws ws' \<or> replied blk m ws ws'"
  using assms
  by (auto simp: handleClientAction_def dest: answer_error_quiet action_inject_quiet action_close_quiet
      action_filter_result split: if_splits)

section \<open>The invariant\<close>

definition filter_inv :: "filter_sys \<Rightarrow> bool" where
  "filter_inv s \<longleftrightarrow>
     (\<forall>n. ws_filterMap (fs_ws s) n \<noteq> None \<longrightarrow> n < ws_pktId (fs_ws s)) \<and>
     (\<forall>n \<in> fs_waiting s. ws_filterMap (fs_ws s) n \<noteq> None) \<and>
     (\<forall>n b. HReply n b \<in> set (fs_history s) \<longleftrightarrow>
        ws_filterMap (fs_ws s) n = Some (verdict_value b)) \<and>
     (\<forall>n b. HVerdict n b EvSignal \<in> set (fs_history s) \<longrightarrow> ws_filterMap (fs_ws s) n = Some (verdict_value b)) \<and>
     (\<forall>n b ev. HVerdict n b ev \<in> set (fs_history s) \<longrightarrow> ev \<noteq> EvSignal \<longrightarrow> b = default_verdict (fs_ws s)) \<and>
     (\<forall>n \<in> set (verdict_nums (fs_history s)). ws_filterMap (fs_ws s) n \<noteq> None \<and> n \<notin> fs_waiting s) \<and>
     distinct (verdict_nums (fs_history s)) \<and> distinct (reply_nums (fs_history s))"

lemma filter_init_inv: "filter_init s \<Longrightarrow> filter_inv s"
  by (simp add: filter_init_def filter_inv_def)

lemma filter_inv_same:
  assumes "filter_inv s" "ws_filterMap ws' = ws_filterMap (fs_ws s)" "ws_pktId ws' = ws_pktId (fs_ws s)"
    "ws_defaultAction ws' = ws_defaultAction (fs_ws s)"
  shows "filter_inv (s\<lparr>fs_ws := ws', fs_blocked := b\<rparr>)"
  using assms unfolding filter_inv_def default_verdict_def by simp

lemma arrived_inv:
  assumes "filter_inv s" "arrived (fs_ws s) ws'" "ws_pktId (fs_ws s) \<noteq> - 1"
    and "N = fs_waiting s \<or> N = insert (ws_pktId (fs_ws s)) (fs_waiting s) \<and>
      ws_filterMap ws' = (ws_filterMap (fs_ws s))(ws_pktId (fs_ws s) \<mapsto> wsFilterWait)"
    and "ws_filterMap ws' \<noteq> ws_filterMap (fs_ws s) \<Longrightarrow> ws_pktId ws' = ws_pktId (fs_ws s) + 1"
  shows "filter_inv (s\<lparr>fs_ws := ws', fs_waiting := N\<rparr>)"
proof -
  let ?ws = "fs_ws s" and ?k = "ws_pktId (fs_ws s)"
  have next_id: "n < ?k + 1 \<longleftrightarrow> n \<le> ?k" for n
    using unat_plus_1_no_wrap [OF assms(3)] by (simp add: word_less_nat_alt word_le_nat_alt less_Suc_eq_le)
  have old: "ws_filterMap ?ws n \<noteq> None \<Longrightarrow> n < ?k" for n using assms(1) by (simp add: filter_inv_def)
  then have fresh: "ws_filterMap ?ws ?k = None" by (metis less_irrefl)
  have same: "ws_filterMap ws' n = ws_filterMap ?ws n" if "n \<noteq> ?k" for n
    using assms(2) that by (auto simp: arrived_def)
  have at_k: "ws_filterMap ws' ?k \<in> {None, Some wsFilterWait}"
    using assms(2) fresh by (auto simp: arrived_def)
  have le: "?k \<le> ws_pktId ws'" using assms(2) next_id [of ?k] by (auto simp: arrived_def intro: less_imp_le)
  have bound: "n < ws_pktId ws'" if "ws_filterMap ws' n \<noteq> None" for n
  proof (cases "n = ?k")
    case True
    with that fresh have "ws_filterMap ws' \<noteq> ws_filterMap ?ws" by auto
    then show ?thesis using assms(5) next_id True by simp
  next
    case False
    with that same old le show ?thesis by (metis order.strict_trans2)
  qed
  have dv: "default_verdict ws' = default_verdict ?ws" using assms(2) by (simp add: arrived_def default_verdict_def)
  have reply: "ws_filterMap ws' n = Some (verdict_value b) \<longleftrightarrow> ws_filterMap ?ws n = Some (verdict_value b)" for n b
    using same [of n] at_k fresh by (cases "n = ?k") auto
  have some: "ws_filterMap ?ws n \<noteq> None \<Longrightarrow> ws_filterMap ws' n \<noteq> None" for n
    using same [of n] fresh by (cases "n = ?k") auto
  have waits: "n \<in> N \<Longrightarrow> ws_filterMap ws' n \<noteq> None" for n
    using assms(1,4) some by (auto simp: filter_inv_def split: if_splits)
  have "n \<notin> N" if "n \<in> set (verdict_nums (fs_history s))" for n
    using that assms(1,4) fresh by (auto simp: filter_inv_def)
  with assms(1) bound waits reply some dv show ?thesis by (simp add: filter_inv_def)
qed

lemma verdict_inv:
  assumes "filter_inv s" "n \<in> fs_waiting s" "ws_filterMap ws' = ws_filterMap (fs_ws s)"
    "ws_pktId ws' = ws_pktId (fs_ws s)" "ws_defaultAction ws' = ws_defaultAction (fs_ws s)"
    and "ev \<noteq> EvSignal \<Longrightarrow> b = default_verdict (fs_ws s)"
    and "ev = EvSignal \<Longrightarrow> ws_filterMap (fs_ws s) n = Some (verdict_value b)"
  shows "filter_inv (s\<lparr>fs_ws := ws', fs_waiting := fs_waiting s - {n}, fs_blocked := bl,
      fs_history := fs_history s @ [HVerdict n b ev]\<rparr>)"
  using assms by (auto simp: filter_inv_def default_verdict_def)

lemma reply_inv:
  assumes "filter_inv s" "replied blk m (fs_ws s) ws'"
  shows "filter_inv (s\<lparr>fs_ws := ws', fs_blocked := blk,
      fs_history := fs_history s @ reply_of (fs_ws s) ws' blk m\<rparr>)"
proof -
  let ?t = "cm_Target m" and ?v = "cm_Extra m AND wsFilterShouldSend \<noteq> 0" and ?ws = "fs_ws s"
  have r: "blk" "ws_pktId ws' = ws_pktId ?ws" "ws_defaultAction ws' = ws_defaultAction ?ws"
      "ws_filterMap ?ws ?t = Some wsFilterWait" "ws_filterMap ws' = (ws_filterMap ?ws)(?t \<mapsto> verdict_value ?v)"
    using assms(2) by (auto simp: replied_def)
  have h: "reply_of ?ws ws' blk m = [HReply ?t ?v]" using r(1) by (simp add: reply_of_def)
  have dv: "default_verdict ws' = default_verdict ?ws" using r(3) by (simp add: default_verdict_def)
  have inv: "\<forall>n. ws_filterMap ?ws n \<noteq> None \<longrightarrow> n < ws_pktId ?ws"
      "\<forall>n \<in> fs_waiting s. ws_filterMap ?ws n \<noteq> None"
      "\<forall>n b. HReply n b \<in> set (fs_history s) \<longleftrightarrow> ws_filterMap ?ws n = Some (verdict_value b)"
      "\<forall>n b. HVerdict n b EvSignal \<in> set (fs_history s) \<longrightarrow> ws_filterMap ?ws n = Some (verdict_value b)"
      "\<forall>n b ev. HVerdict n b ev \<in> set (fs_history s) \<longrightarrow> ev \<noteq> EvSignal \<longrightarrow> b = default_verdict ?ws"
      "\<forall>n \<in> set (verdict_nums (fs_history s)). ws_filterMap ?ws n \<noteq> None \<and> n \<notin> fs_waiting s"
      "distinct (verdict_nums (fs_history s))" "distinct (reply_nums (fs_history s))"
    using assms(1) unfolding filter_inv_def by blast+
  have first: "?t \<notin> set (reply_nums (fs_history s))" using inv(3) r(4) by (auto simp: in_reply_nums)
  have none: "ws_filterMap ws' n \<noteq> None \<longleftrightarrow> ws_filterMap ?ws n \<noteq> None" for n using r(4,5) by auto
  have "n = ?t \<and> b = ?v \<or> HReply n b \<in> set (fs_history s) \<longleftrightarrow> ws_filterMap ws' n = Some (verdict_value b)" for n b
    using inv(3) r(4,5) by (cases "n = ?t") auto
  moreover have "ws_filterMap ws' n = Some (verdict_value b)" if "HVerdict n b EvSignal \<in> set (fs_history s)" for n b
  proof -
    from that inv(4) have "ws_filterMap ?ws n = Some (verdict_value b)" by blast
    with r(4) have "n \<noteq> ?t" by auto
    with \<open>ws_filterMap ?ws n = Some (verdict_value b)\<close> r(5) show ?thesis by simp
  qed
  ultimately show ?thesis
    using inv none first unfolding filter_inv_def h by (simp add: r(2) dv inv(3) del: not_None_eq)
qed

lemma filter_step_inv: "filter_step wr s t \<Longrightarrow> filter_inv s \<Longrightarrow> filter_inv t"
proof (induction rule: filter_step.induct)
  case (fs_arrive_waits s d f p n ws')
  note r = handleSend_start_result(1) [OF fs_arrive_waits(2)] handleSend_start_result(2) [OF fs_arrive_waits(2) refl]
  show ?case using fs_arrive_waits.prems r fs_arrive_waits(1) by (intro arrived_inv) auto
next
  case (fs_arrive_decided s d f p b ws')
  note r = handleSend_start_result(1) [OF fs_arrive_decided(2)]
  have "filter_inv (s\<lparr>fs_ws := ws', fs_waiting := fs_waiting s\<rparr>)"
    using fs_arrive_decided.prems r fs_arrive_decided(1) by (rule arrived_inv) (use r in \<open>auto simp: arrived_def\<close>)
  then show ?case by simp
next
  case (fs_default n s ev b ws')
  note r = event_result [OF fs_default(3)]
  have "filter_inv (s\<lparr>fs_ws := ws', fs_waiting := fs_waiting s - {n}, fs_blocked := fs_blocked s,
      fs_history := fs_history s @ [HVerdict n b ev]\<rparr>)"
    using fs_default.prems fs_default(1) r(1-3) by (rule verdict_inv) (use r(4) fs_default(2) in auto)
  then show ?case by simp
next
  case (fs_signal_decides s n b ws')
  note r = event_result [OF fs_signal_decides(3)]
  show ?case
    using fs_signal_decides.prems fs_signal_decides(2) r(1-3) by (rule verdict_inv) (use r(5) in auto)
next
  case (fs_signal_again s n ws')
  then show ?case using event_result [OF fs_signal_again(3)] by (intro filter_inv_same)
next
  case (fs_message s unmarshal data m ks ks' w blk ws' w')
  from action_result [OF fs_message(3,2)] show ?case
  proof
    assume q: "quiet blk (fs_ws s) ws'"
    then have "filter_inv (s\<lparr>fs_ws := ws', fs_blocked := blk\<rparr>)"
      using fs_message.prems by (intro filter_inv_same) (simp_all add: quiet_def)
    with q show ?thesis by (simp add: reply_of_def quiet_def)
  next
    assume "replied blk m (fs_ws s) ws'"
    with fs_message.prems show ?thesis by (rule reply_inv)
  qed
qed

text \<open>
  The same system restricted to runs in which never two packets wait at the same time. There the
  signal after a reply can only go to the packet it was meant for.
\<close>

definition lone_step :: "(ws_msg \<Rightarrow> err option) \<Rightarrow> filter_sys \<Rightarrow> filter_sys \<Rightarrow> bool" where
  "lone_step wr s t \<longleftrightarrow> filter_step wr s t \<and> (\<forall>n \<in> fs_waiting t. \<forall>m \<in> fs_waiting t. n = m)"

definition lone_inv :: "filter_sys \<Rightarrow> bool" where
  "lone_inv s \<longleftrightarrow> filter_inv s \<and> (\<forall>n \<in> fs_waiting s. \<forall>m \<in> fs_waiting s. n = m) \<and>
     (\<forall>n b. n \<in> fs_waiting s \<longrightarrow> ws_filterMap (fs_ws s) n = Some (verdict_value b) \<longrightarrow> fs_blocked s)"

lemma lone_step_inv:
  assumes "lone_step wr s t" "lone_inv s"
  shows "lone_inv t"
proof -
  from assms have step: "filter_step wr s t" and one: "\<forall>n \<in> fs_waiting t. \<forall>m \<in> fs_waiting t. n = m"
    and inv: "filter_inv s" and alone: "\<forall>n \<in> fs_waiting s. \<forall>m \<in> fs_waiting s. n = m" and old: "\<And>n b. n \<in> fs_waiting s \<Longrightarrow>
      ws_filterMap (fs_ws s) n = Some (verdict_value b) \<Longrightarrow> fs_blocked s"
    by (auto simp: lone_step_def lone_inv_def)
  from step alone old
  have "\<forall>n b. n \<in> fs_waiting t \<longrightarrow> ws_filterMap (fs_ws t) n = Some (verdict_value b) \<longrightarrow> fs_blocked t"
  proof (induction rule: filter_step.induct)
    case (fs_arrive_waits s d f p n ws')
    from handleSend_start_result(2) [OF fs_arrive_waits(2) refl] fs_arrive_waits.prems show ?case by auto
  next
    case (fs_arrive_decided s d f p b ws')
    have "ws_filterMap (fs_ws s) n = Some (verdict_value b')" if "ws_filterMap ws' n = Some (verdict_value b')" for n b'
      using handleSend_start_result(1) [OF fs_arrive_decided(2)] that by (auto simp: arrived_def split: if_splits)
    with fs_arrive_decided.prems show ?case by simp
  next
    case (fs_default n s ev b ws')
    from event_result(1) [OF fs_default(3)] fs_default.prems show ?case by auto
  next
    case (fs_signal_decides s n b ws')
    from event_result(1) [OF fs_signal_decides(3)] fs_signal_decides(2) fs_signal_decides.prems show ?case by auto
  next
    case (fs_signal_again s n ws')
    from event_result(1,6) [OF fs_signal_again(3)] fs_signal_again(2) fs_signal_again.prems show ?case by auto
  next
    case (fs_message s unmarshal data m ks ks' w blk ws' w')
    from action_result [OF fs_message(3,2)] fs_message(1) fs_message.prems show ?case
      by (elim disjE) (auto simp: quiet_def replied_def)
  qed
  with filter_step_inv [OF step inv] one show ?thesis by (simp add: lone_inv_def)
qed

interpretation lone: inductive_invariant filter_init "lone_step wr" lone_inv for wr
  by unfold_locales (simp add: lone_inv_def filter_init_def filter_init_inv, erule (1) lone_step_inv)

interpretation fs: inductive_invariant filter_init "filter_step wr" filter_inv for wr
  by unfold_locales (auto intro: filter_init_inv filter_step_inv)

end
