(* ===== verification/EndpointProps.thy ===== *)
theory EndpointProps
  imports Endpoints SpawnerProps
begin

text \<open>
  Properties of keys, permissions and endpoints: what a request must carry to get through, that a
  key cannot create a stronger one, that an issued key works, and what the endpoints change.
\<close>

section \<open>Facts the properties share\<close>

lemma bind_res_Inr [simp]: "bind_res x f = Inr v \<longleftrightarrow> (\<exists>u. x = Inr u \<and> f u = Inr v)"
  by (auto simp: bind_res_def split: sum.splits)

lemma creation_step_Inr:
  "creation_step u d p name v = Inr x \<longleftrightarrow>
   (checkPermission d p \<longrightarrow> checkPermission u p) \<and> x = (if checkPermission d p then v OR p else v)"
  by (auto simp: creation_step_def isValidCreationPerm_def split: prod.splits if_splits)

lemma perm_bit: "bit (push_bit n 1 :: goint) i \<longleftrightarrow> i = n \<and> n < 64"
  by (auto simp: push_bit_of_1 bit_exp_word)

lemma perm_bits [simp]:
  "bit AuthCanCheckStatus i = (i = 0)" "bit AuthCanClose i = (i = 1)" "bit AuthCanUseWebsocket i = (i = 2)"
  "bit AuthCanFilter i = (i = 3)" "bit AuthCanInject i = (i = 4)" "bit AuthCanMakeKeys i = (i = 5)"
  "bit AuthCanDuplicateKeys i = (i = 6)"
  by (simp_all only: perm_defs perm_bit) auto

lemma bit_mask7: "bit (0x7f :: goint) i \<longleftrightarrow> i < 7"
proof -
  have "(0x7f :: goint) = mask 7" by (simp add: mask_eq_exp_minus_1)
  then show ?thesis by (simp only: bit_mask_iff) auto
qed

lemma less_7: "(i :: nat) < 7 \<longleftrightarrow> i = 0 \<or> i = 1 \<or> i = 2 \<or> i = 3 \<or> i = 4 \<or> i = 5 \<or> i = 6"
  by auto

lemma createNewPerms_each:
  assumes "createNewPerms u d = Inr v"
  shows "bit v 0 = bit d 0" "bit v 1 = bit d 1" "bit v 2 = bit d 2" "bit v 3 = bit d 3"
    "bit v 4 = bit d 4" "bit v 5 = bit d 5" "bit v 6 = bit d 6" "7 \<le> i \<Longrightarrow> \<not> bit v i"
  using assms
  by (auto simp: createNewPerms_def creation_step_Inr bit_or_iff split: if_splits)

lemma createNewPerms_bits:
  assumes "createNewPerms u d = Inr v"
  shows "bit v i \<longleftrightarrow> bit d i \<and> i < 7"
proof (cases "i < 7")
  case True
  then show ?thesis using createNewPerms_each(1-7) [OF assms] unfolding less_7 by auto
next
  case False
  then show ?thesis using createNewPerms_each(8) [OF assms, of i] by simp
qed

lemma createNewPerms_allowed:
  "(\<exists>v. createNewPerms u d = Inr v) \<longleftrightarrow>
   (bit d 0 \<longrightarrow> bit u 0) \<and> (bit d 1 \<longrightarrow> bit u 1) \<and> (bit d 2 \<longrightarrow> bit u 2) \<and> (bit d 3 \<longrightarrow> bit u 3) \<and>
   (bit d 4 \<longrightarrow> bit u 4) \<and> (bit d 5 \<longrightarrow> bit u 6) \<and> (bit d 6 \<longrightarrow> bit u 6)"
  by (auto simp: createNewPerms_def creation_step_Inr)

lemma createNewPerms_value: "createNewPerms u d = Inr v \<Longrightarrow> v = d AND 0x7f"
  by (rule bit_eqI) (simp only: bit_and_iff bit_mask7 createNewPerms_bits)

text \<open>Who may pass: the request names a known key that has all the permissions asked for.\<close>

definition authorised :: "authLookup \<Rightarrow> request \<Rightarrow> authPerms list \<Rightarrow> bool" where
  "authorised l r perms \<longleftrightarrow>
     qr_Has r ''key'' \<and>
     (\<exists>k v. ParseUint (qr_Get r ''key'') 16 = Inr k \<and> l k = Some v \<and> (\<forall>p \<in> set perms. checkPermission v p))"

lemma checkPermission_authorised:
  "authLookup_checkPermission l r perms = None \<longleftrightarrow> authorised l r perms"
  by (auto simp: authLookup_checkPermission_def authorised_def list_ex_iff split: sum.splits option.splits)

lemma checkPermission_refusal:
  "authLookup_checkPermission l r perms = Some rsp \<Longrightarrow> \<exists>st msg. rsp = RspJson 200 \<lparr>br_Status = st, br_Data = DString msg\<rparr> \<and> (st = 401 \<or> st = 403)"
  by (auto simp: authLookup_checkPermission_def writeResponse_def status_defs split: sum.splits option.splits if_splits)

lemma getAuthValues_Inr:
  "getAuthValues l r = Inr (k, v) \<longleftrightarrow> qr_Has r ''key'' \<and> ParseUint (qr_Get r ''key'') 16 = Inr k \<and> l k = Some v"
  by (auto simp: getAuthValues_def getKey_def split: sum.splits option.splits if_splits)

section \<open>Permissions\<close>

text \<open>C24: \<open>createNewPerms\<close> computes exactly the requested permissions without the reserved bits, and it
  succeeds exactly if the creator has every one of them; for the permission to make keys the
  creator needs the permission to duplicate keys instead.\<close>

theorem createNewPerms_exact:
  "createNewPerms u d = Inr v \<longleftrightarrow>
     v = d AND 0x7f \<and> (\<forall>i \<in> {0, 1, 2, 3, 4, 6}. bit d i \<longrightarrow> bit u i) \<and> (bit d 5 \<longrightarrow> bit u 6)"
proof -
  have "(\<exists>v. createNewPerms u d = Inr v) \<longleftrightarrow>
      (\<forall>i \<in> {0, 1, 2, 3, 4, 6}. bit d i \<longrightarrow> bit u i) \<and> (bit d 5 \<longrightarrow> bit u 6)"
    unfolding createNewPerms_allowed by (simp add: conj_ac)
  then show ?thesis using createNewPerms_value [of u d] by blast
qed

lemma createNewPerms_exact_witness:
  "createNewPerms 0x3f 0xf03 = Inr 3 \<and> createNewPerms 0x3f 0x20 \<noteq> Inr 0x20"
proof -
  have "\<forall>i \<in> {0, 1, 2, 3, 4, 6}. bit (0xf03 :: goint) i \<longrightarrow> bit (0x3f :: goint) i" "\<not> bit (0xf03 :: goint) 5"
    by code_simp+
  moreover have "bit (0x20 :: goint) 5 \<and> \<not> bit (0x3f :: goint) 6" by code_simp
  ultimately show ?thesis
    using createNewPerms_exact [of "0x3f" "0xf03" 3] createNewPerms_exact [of "0x3f" "0x20" "0x20"] by simp
qed

text \<open>C34: The guard of an endpoint: with authentication on, the endpoint runs exactly if the method is
  right and the key in the request is known and has all required permissions. Otherwise nothing
  changes, and the client gets the HTTP status 405 for the method, but 200 for a failed
  authentication (the 401 or 403 is only in the body).\<close>

theorem addEndpoint_guards:
  assumes "wa_auth a = Some l"
  shows "if r_Method r = method \<and> authorised l r perms
    then addEndpoint_guard method perms h r a w = h r a w
    else \<exists>rsp. addEndpoint_guard method perms h r a w = Some (Some rsp, a, w) \<and>
      status_line rsp = (if r_Method r \<noteq> method then 405 else 200) \<and>
      (r_Method r = method \<longrightarrow> (\<exists>b. rsp = RspJson 200 b \<and> br_Status b \<in> {401, 403}))"
proof (cases "authLookup_checkPermission l r perms")
  case None
  then show ?thesis
    using assms checkPermission_authorised [of l r perms]
    by (auto simp: addEndpoint_guard_def status_defs)
next
  case (Some rsp)
  then have "\<not> authorised l r perms" using checkPermission_authorised [of l r perms] by simp
  with Some checkPermission_refusal [OF Some] assms show ?thesis
    by (auto simp: addEndpoint_guard_def status_defs)
qed

definition ex_request :: "string \<Rightarrow> request" where
  "ex_request k = \<lparr>r_Method = ''GET'', r_Path = ''/api/1/newkey'',
     r_query = [''key'' \<mapsto> [k], ''perms'' \<mapsto> [''0x1'']], r_body = ([], None)\<rparr>"

definition ex_api :: WebApi where
  "ex_api = \<lparr>wa_auth = Some [255 \<mapsto> 0x21], wa_ctx = 0, wa_wsocks = [], wa_endpoints = []\<rparr>"

lemma ex_parse: "ParseUint ''ff'' 16 = Inr 255" "ParseInt ''0x1'' 0 = Inr 1"
  by (simp_all add: ParseInt_def ParseUint_def base_prefix_def digit_of_def char_byte_def lower_def cutoff_def word_le_nat_alt)

lemma addEndpoint_guards_witness:
  "addEndpoint_guard ''GET'' [AuthCanMakeKeys] epGetAuthValue (ex_request ''ff'') ex_api ex_new =
     epGetAuthValue (ex_request ''ff'') ex_api ex_new"
proof -
  have "authorised [255 \<mapsto> 0x21] (ex_request ''ff'') [AuthCanMakeKeys]"
    by (simp add: authorised_def ex_request_def qr_Has_def qr_Get_def ex_parse)
  with addEndpoint_guards [of ex_api "[255 \<mapsto> 0x21]" "ex_request ''ff''" "''GET''" "[AuthCanMakeKeys]" epGetAuthValue ex_new]
  show ?thesis by (simp add: ex_api_def ex_request_def)
qed

section \<open>Keys\<close>

text \<open>A key in a request is accepted as a number exactly if it is a non-empty string of hexadecimal
  digits (upper or lower case, no sign, prefix or underscore) whose value fits in 64 bits, and then
  the key is that value.\<close>

theorem getKey_accepts:
  "getKey r = Inr k \<longleftrightarrow>
     qr_Has r ''key'' \<and> qr_Get r ''key'' \<noteq> [] \<and>
     (\<exists>ds. digits_in 16 (qr_Get r ''key'') = Some ds \<and> digits_value 16 ds < 2 ^ 64 \<and> k = of_nat (digits_value 16 ds))"
  using ParseUint_value [of 16 "qr_Get r ''key''"]
  by (auto simp: getKey_def split: sum.splits)

text \<open>The random key: if the source works, a new key is found exactly if one of the first thousand
  draws is free, and otherwise the program panics; the key returned was free, gets the permissions
  asked for, and no other key changes.\<close>

theorem newKeyInt_result:
  assumes "\<forall>i < 1000. \<exists>v. rnd i = Inr v"
  shows "case newKeyInt rnd perms l of
      None \<Rightarrow> \<forall>i < 1000. \<exists>v. rnd i = Inr v \<and> l v \<noteq> None
    | Some (k, l') \<Rightarrow> l k = None \<and> l' = l(k \<mapsto> perms) \<and> (\<exists>i < 1000. rnd i = Inr k)"
proof (cases "newKeyInt rnd perms l")
  case None
  then show ?thesis
    using keys.tries_panic_iff [of 1000 rnd 0 perms l] assms by (simp add: newKeyInt_def)
next
  case (Some x)
  then show ?thesis
    using keys.tries_result [of rnd 0 1000 perms l] by (cases x) (auto simp: newKeyInt_def)
qed

lemma newKeyInt_result_witness:
  "newKeyInt (\<lambda>i. Inr (if i < (2 :: nat) then 255 else 7)) 1 [255 \<mapsto> 0x21] = Some (7, [255 \<mapsto> 0x21, 7 \<mapsto> 1])"
proof -
  let ?rnd = "\<lambda>i :: nat. Inr (if i < 2 then 255 else 7) :: err + u64"
  have "\<not> (\<forall>i < 1000. \<exists>v. ?rnd i = Inr v \<and> [255 \<mapsto> 0x21 :: goint] v \<noteq> None)"
    by (auto intro!: exI [of _ 3])
  with newKeyInt_result [where rnd = ?rnd and perms = 1 and l = "[255 \<mapsto> 0x21]"] show ?thesis
    by (auto split: option.splits if_splits)
qed

lemma epGetKey_new_key:
  assumes "epGetKey rnd r a w = Some (rsp, a', w')" "wa_auth a = Some l" "a' \<noteq> a" "authorised l r [AuthCanMakeKeys]"
  obtains key ours new perms where
    "ParseUint (qr_Get r ''key'') 16 = Inr key" "l key = Some ours" "checkPermission ours AuthCanMakeKeys"
    "l new = None" "a' = a\<lparr>wa_auth := Some (l(new \<mapsto> perms))\<rparr>" "w' = w"
    "rsp = Some (writeResponse 200 (DNewKey \<lparr>nk_Key = Sprintf_x new, nk_Perms = perms\<rparr>))"
    "perms \<noteq> 0" "perms AND 0x7f = perms" "\<forall>i. bit perms i \<longrightarrow> bit ours i"
    "checkPermission perms AuthCanMakeKeys \<longrightarrow> checkPermission ours AuthCanDuplicateKeys"
proof -
  from assms(1-3) obtain key ours want perms new l' where
    v: "getAuthValues l r = Inr (key, ours)" "createNewPerms ours want = Inr perms" "perms \<noteq> 0"
      "newKeyInt rnd perms l = Some (new, l')"
    and res: "w' = w" "a' = a\<lparr>wa_auth := Some l'\<rparr>"
      "rsp = Some (writeResponse 200 (DNewKey \<lparr>nk_Key = Sprintf_x new, nk_Perms = perms\<rparr>))"
    by (auto simp: epGetKey_def Option.bind_eq_Some_conv split: if_splits sum.splits prod.splits)
  have new: "l new = None" "l' = l(new \<mapsto> perms)"
    using keys.tries_result [of rnd 0 1000 perms l new l'] v(4) by (auto simp: newKeyInt_def)
  have key: "ParseUint (qr_Get r ''key'') 16 = Inr key" "l key = Some ours"
    using v(1) by (simp_all add: getAuthValues_Inr)
  with assms(4) have make: "bit ours 5" by (auto simp: authorised_def)
  have allowed: "(bit want 0 \<longrightarrow> bit ours 0) \<and> (bit want 1 \<longrightarrow> bit ours 1) \<and> (bit want 2 \<longrightarrow> bit ours 2) \<and>
      (bit want 3 \<longrightarrow> bit ours 3) \<and> (bit want 4 \<longrightarrow> bit ours 4) \<and> (bit want 5 \<longrightarrow> bit ours 6) \<and> (bit want 6 \<longrightarrow> bit ours 6)"
    using createNewPerms_allowed [of ours want] v(2) by blast
  have "bit ours i" if "bit want i" "i < 7" for i
    using that(2) unfolding less_7 by (elim disjE) (use that(1) allowed make in simp_all)
  then have bits: "\<forall>i. bit perms i \<longrightarrow> bit ours i" by (simp add: createNewPerms_bits [OF v(2)])
  from allowed have dup: "bit perms 5 \<longrightarrow> bit ours 6" by (auto simp: createNewPerms_bits [OF v(2)])
  have typed: "perms AND 0x7f = perms" using createNewPerms_value [OF v(2)] by (simp add: and.assoc)
  show ?thesis
    by (rule that [OF key _ new(1)]) (use make new(2) res v(3) bits dup typed in simp_all)
qed

text \<open>C9: No escalation: whatever a request does at the endpoint for new keys, the spawner is untouched,
  and the table of keys is either unchanged or gets one new key, made by a known key that may make
  keys. The new key has some permission, only permissions its maker has, and may itself make keys
  only if the maker may duplicate keys. The answer names the key and its permissions.\<close>

theorem new_key_no_escalation:
  assumes "addEndpoint_guard ''GET'' [AuthCanMakeKeys] (epGetKey rnd) r a w = Some (rsp, a', w')"
    and "wa_auth a = Some l"
  shows "w' = w \<and>
    (a' = a \<or>
     (\<exists>key ours new perms.
        ParseUint (qr_Get r ''key'') 16 = Inr key \<and> l key = Some ours \<and> checkPermission ours AuthCanMakeKeys \<and>
        l new = None \<and> a' = a\<lparr>wa_auth := Some (l(new \<mapsto> perms))\<rparr> \<and>
        rsp = Some (writeResponse 200 (DNewKey \<lparr>nk_Key = Sprintf_x new, nk_Perms = perms\<rparr>)) \<and>
        perms \<noteq> 0 \<and> (\<forall>i. bit perms i \<longrightarrow> bit ours i) \<and>
        (checkPermission perms AuthCanMakeKeys \<longrightarrow> checkPermission ours AuthCanDuplicateKeys)))"
proof (cases "r_Method r = ''GET'' \<and> authLookup_checkPermission l r [AuthCanMakeKeys] = None")
  case False
  with assms show ?thesis by (auto simp: addEndpoint_guard_def split: option.splits if_splits)
next
  case True
  with assms have e: "epGetKey rnd r a w = Some (rsp, a', w')" by (simp add: addEndpoint_guard_def)
  from True have auth: "authorised l r [AuthCanMakeKeys]" using checkPermission_authorised by blast
  show ?thesis
  proof (cases "a' = a")
    case True
    with e assms(2) show ?thesis
      by (auto simp: epGetKey_def Option.bind_eq_Some_conv split: if_splits sum.splits)
  next
    case False
    with e assms(2) auth show ?thesis by (blast elim: epGetKey_new_key)
  qed
qed

lemma ex_newKey: "newKeyInt (\<lambda>_. Inr 7) 1 [255 \<mapsto> 0x21] = Some (7, [255 \<mapsto> 0x21, 7 \<mapsto> 1])"
proof -
  have "(1000 :: nat) = Suc 999" by simp
  then show ?thesis unfolding newKeyInt_def by (simp only: new_key_tries.simps) (simp add: addKeyInt_def)
qed

lemma ex_createNewPerms: "createNewPerms 0x21 1 = Inr 1"
  by code_simp

lemma ex_getKey:
  "epGetKey (\<lambda>_. Inr 7) (ex_request ''ff'') ex_api w =
     Some (Some (writeResponse 200 (DNewKey \<lparr>nk_Key = Sprintf_x 7, nk_Perms = 1\<rparr>)),
           ex_api\<lparr>wa_auth := Some [255 \<mapsto> 0x21, 7 \<mapsto> 1]\<rparr>, w)"
  by (simp add: epGetKey_def ex_api_def ex_request_def qr_Has_def qr_Get_def ex_parse getAuthValues_def getKey_def
      ex_createNewPerms ex_newKey)

lemma new_key_no_escalation_witness:
  "\<exists>key ours. ParseUint ''ff'' 16 = Inr key \<and> [255 \<mapsto> 0x21 :: goint] key = Some ours \<and> bit ours 0"
proof -
  have g: "addEndpoint_guard ''GET'' [AuthCanMakeKeys] (epGetKey (\<lambda>_. Inr 7)) (ex_request ''ff'') ex_api ex_new =
      Some (Some (writeResponse 200 (DNewKey \<lparr>nk_Key = Sprintf_x 7, nk_Perms = 1\<rparr>)),
            ex_api\<lparr>wa_auth := Some [255 \<mapsto> 0x21, 7 \<mapsto> 1]\<rparr>, ex_new)"
    unfolding ex_getKey [symmetric]
    by (simp add: addEndpoint_guard_def ex_api_def ex_request_def authLookup_checkPermission_def qr_Has_def qr_Get_def ex_parse)
  have changed: "ex_api\<lparr>wa_auth := Some [255 \<mapsto> 0x21, 7 \<mapsto> 1]\<rparr> \<noteq> ex_api"
  proof
    assume "ex_api\<lparr>wa_auth := Some [255 \<mapsto> 0x21, 7 \<mapsto> 1]\<rparr> = ex_api"
    then have "the (wa_auth (ex_api\<lparr>wa_auth := Some [255 \<mapsto> 0x21, 7 \<mapsto> 1]\<rparr>)) 7 = the (wa_auth ex_api) 7" by (rule arg_cong)
    then show False by (simp add: ex_api_def)
  qed
  from new_key_no_escalation [OF g, of "[255 \<mapsto> 0x21]"] changed obtain key ours perms where
    "ParseUint ''ff'' 16 = Inr key" "[255 \<mapsto> 0x21 :: goint] key = Some ours" "\<forall>i. bit perms i \<longrightarrow> bit ours i"
    "writeResponse 200 (DNewKey \<lparr>nk_Key = Sprintf_x 7, nk_Perms = 1\<rparr>) =
       writeResponse 200 (DNewKey \<lparr>nk_Key = Sprintf_x 7, nk_Perms = perms\<rparr>)"
    by (auto simp: ex_api_def ex_request_def qr_Get_def writeResponse_def)
  moreover from this have "perms = 1" by (simp add: writeResponse_def)
  ultimately have "bit ours 0" by (metis bit_1_0)
  with \<open>ParseUint ''ff'' 16 = Inr key\<close> \<open>[255 \<mapsto> 0x21 :: goint] key = Some ours\<close> show ?thesis by blast
qed

text \<open>C35: A key that the endpoint hands out works: a later request that carries the printed key is
  recognised under exactly the permissions that were announced.\<close>

theorem issued_key_works:
  assumes "epGetKey rnd r a w = Some (Some (writeResponse 200 (DNewKey nk)), a', w')"
    and "r_query q ''key'' = Some [nk_Key nk]"
  shows "\<exists>l' k. wa_auth a' = Some l' \<and> getAuthValues l' q = Inr (k, nk_Perms nk) \<and> nk_Key nk = Sprintf_x k"
proof -
  from assms(1) obtain l l' perms new where n: "newKeyInt rnd perms l = Some (new, l')"
    and a': "a' = a\<lparr>wa_auth := Some l'\<rparr>" and nk: "nk = \<lparr>nk_Key = Sprintf_x new, nk_Perms = perms\<rparr>"
    by (auto simp: epGetKey_def writeResponse_def Option.bind_eq_Some_conv getAuthValues_def getKey_def
        split: option.splits sum.splits prod.splits if_splits)
  have "l' = l(new \<mapsto> perms)"
    using keys.tries_result [of rnd 0 1000 perms l new l'] n by (auto simp: newKeyInt_def)
  then show ?thesis
    using assms(2) by (simp add: a' nk getAuthValues_Inr qr_Has_def qr_Get_def ParseUint_Sprintf_x)
qed

lemma issued_key_works_witness:
  "\<exists>k. getAuthValues [255 \<mapsto> 0x21, 7 \<mapsto> 1] (ex_request (Sprintf_x 7)) = Inr (k, 1)"
  using issued_key_works [OF ex_getKey [of ex_new], of "ex_request (Sprintf_x 7)"]
  by (auto simp: ex_request_def ex_api_def)

section \<open>Injection\<close>

text \<open>What every send leaves intact.\<close>

definition sent_ok :: "'e world \<Rightarrow> 'e world \<Rightarrow> bool" where
  "sent_ok w v \<longleftrightarrow> sp_inv v \<and> ps_connections v = ps_connections w \<and> length (w_pcs v) = length (w_pcs w)"

lemma sent_ok_trans: "sent_ok u v \<Longrightarrow> sent_ok v w \<Longrightarrow> sent_ok u w"
  by (simp add: sent_ok_def)

lemma sends_ok:
  "sends HandleSend HandleError r d u v \<Longrightarrow> sp_inv u \<Longrightarrow> r < length (w_pcs u) \<Longrightarrow> sent_ok u v"
  using sends_inv spawner.sends_same spawner.sends_length by (fastforce simp: sent_ok_def spawner_same_def)

lemma when_send_ok:
  assumes "sp_inv w" "\<exists>e v. send w = Some (e, v) \<and> sent_ok w v"
  obtains v where "when_send b send w = Some v" "sent_ok w v"
  using assms by (cases b) (auto simp: when_send_def sent_ok_def)

lemma send_all_ok:
  assumes "\<And>u r. sp_inv u \<Longrightarrow> \<exists>x. send r u = Some x"
    and sends: "\<And>u r e u'. send r u = Some (e, u') \<Longrightarrow> sends HandleSend HandleError r d u u'"
    and w: "sp_inv w"
  shows "\<exists>e v. send_all send ks fe w = Some (e, v) \<and> sent_ok w v"
proof -
  have "send_all send ks fe w \<noteq> None" using assms by (rule send_all_total)
  then obtain e v where s: "send_all send ks fe w = Some (e, v)" by auto
  have "sp_inv v \<and> sent_ok w v"
    using s
  proof (rule send_all_keeps [where P = "\<lambda>u. sp_inv u \<and> sent_ok w u", rotated -2])
    fix r u e' u'
    assume u: "sp_inv u \<and> sent_ok w u" and r: "r < length (w_pcs u)" and s: "send r u = Some (e', u')"
    from sends_ok [OF sends [OF s]] u r have "sent_ok u u'" by blast
    with u show "sp_inv u' \<and> sent_ok w u'" by (simp add: sent_ok_def)
  qed (use w in \<open>simp_all add: sp_invD sent_ok_def\<close>)
  with s show ?thesis by blast
qed

lemma one_send_ok:
  assumes "sp_inv u" "r < length (w_pcs u)"
  shows "\<exists>e v. pc_SendToClient HandleSend HandleError r d u = Some (e, v) \<and> sent_ok u v"
    and "\<exists>e v. pc_SendToServer HandleSend HandleError r d u = Some (e, v) \<and> sent_ok u v"
proof -
  obtain e v where c: "pc_SendToClient HandleSend HandleError r d u = Some (e, v)"
    using senders_total(1) [OF assms(1), of r d] by fastforce
  then show "\<exists>e v. pc_SendToClient HandleSend HandleError r d u = Some (e, v) \<and> sent_ok u v"
    using sends_ok [OF pc_SendToClient_sends [OF c] assms] by blast
  obtain e v where s: "pc_SendToServer HandleSend HandleError r d u = Some (e, v)"
    using senders_total(2) [OF assms(1), of r d] by fastforce
  then show "\<exists>e v. pc_SendToServer HandleSend HandleError r d u = Some (e, v) \<and> sent_ok u v"
    using sends_ok [OF pc_SendToServer_sends [OF s] assms] by blast
qed

lemma all_clients_ok:
  "sp_inv u \<Longrightarrow> \<exists>e v. SendToAllClients ks d u = Some (e, v) \<and> sent_ok u v"
  unfolding SendToAllClients_def using senders_total(1) pc_SendToClient_sends by (rule send_all_ok)

lemma all_servers_ok:
  "sp_inv u \<Longrightarrow> \<exists>e v. SendToAllServers ks d u = Some (e, v) \<and> sent_ok u v"
  unfolding SendToAllServers_def using senders_total(2) pc_SendToServer_sends by (rule send_all_ok)

text \<open>The injection endpoint answers every request in every reachable state, without a panic. It never
  changes the API's own state nor the table of connections, keeps the spawner's invariant, and
  changes the spawner at all only when it answers with status 200.\<close>

theorem epInject_total:
  assumes "reachable w"
  shows "\<exists>rsp v. epInject unmarshal ks ks' r a w = Some (Some rsp, a, v) \<and> sp_inv v \<and>
     ps_connections v = ps_connections w \<and> (rsp \<noteq> writeResponse 200 (DString []) \<longrightarrow> v = w)"
proof -
  have inv: "sp_inv w" using assms by (rule sp.holds_when_reached)
  show ?thesis
  proof (cases "snd (r_body r)")
    case (Some e)
    with inv show ?thesis by (cases "r_body r") (simp add: epInject_def)
  next
    case body: None
    show ?thesis
    proof (cases "unmarshal (fst (r_body r))")
      case None
      with inv body show ?thesis by (cases "r_body r") (simp add: epInject_def)
    next
      case (Some d)
      consider (none) "\<not> ij_ToClient d \<and> \<not> ij_ToServer d"
        | (all) "ij_ToClient d \<or> ij_ToServer d" "ij_Id d = - 1"
        | (unknown) "ij_ToClient d \<or> ij_ToServer d" "ij_Id d \<noteq> - 1" "ps_connections w (ij_Id d) = None"
        | (one) px where "ij_ToClient d \<or> ij_ToServer d" "ij_Id d \<noteq> - 1" "ps_connections w (ij_Id d) = Some px"
        by fastforce
      then show ?thesis
      proof cases
        case none
        with inv body Some show ?thesis by (cases "r_body r") (simp add: epInject_def)
      next
        case all
        obtain w1 where w1: "when_send (ij_ToClient d) (SendToAllClients ks (ij_Data d)) w = Some w1" "sent_ok w w1"
          using inv all_clients_ok [OF inv] by (rule when_send_ok)
        then have inv1: "sp_inv w1" by (simp add: sent_ok_def)
        obtain w2 where "when_send (ij_ToServer d) (SendToAllServers ks' (ij_Data d)) w1 = Some w2" "sent_ok w1 w2"
          using inv1 all_servers_ok [OF inv1] by (rule when_send_ok)
        with w1 all inv body Some show ?thesis by (cases "r_body r") (simp add: epInject_def sent_ok_def)
      next
        case unknown
        with inv body Some show ?thesis by (cases "r_body r") (simp add: epInject_def GetProxy_def)
      next
        case (one px)
        then have px: "px < length (w_pcs w)" using inv by (simp add: sp_inv_def inv_conns_def)
        obtain w1 where w1: "when_send (ij_ToClient d) (pc_SendToClient HandleSend HandleError px (ij_Data d)) w = Some w1"
            "sent_ok w w1"
          using inv one_send_ok(1) [OF inv px] by (rule when_send_ok)
        then have inv1: "sp_inv w1" "px < length (w_pcs w1)" using px by (simp_all add: sent_ok_def)
        obtain w2 where "when_send (ij_ToServer d) (pc_SendToServer HandleSend HandleError px (ij_Data d)) w1 = Some w2"
            "sent_ok w1 w2"
          using inv1(1) one_send_ok(2) [OF inv1] by (rule when_send_ok)
        with w1 one inv body Some show ?thesis by (cases "r_body r") (simp add: epInject_def GetProxy_def sent_ok_def)
      qed
    qed
  qed
qed

lemma epInject_total_witness:
  "\<exists>rsp v. epInject (\<lambda>_. Some \<lparr>ij_Id = 0, ij_Data = [1], ij_ToClient = True, ij_ToServer = False\<rparr>) [] []
     (ex_request ''ff'') ex_api ex_conn = Some (Some rsp, ex_api, v) \<and> ps_connections v = [0 \<mapsto> 0]"
proof -
  have "ps_connections ex_conn = [0 \<mapsto> 0]" by (simp add: ex_conn)
  then show ?thesis
    using epInject_total [OF ex_conn_reachable,
        of "\<lambda>_. Some \<lparr>ij_Id = 0, ij_Data = [1], ij_ToClient = True, ij_ToServer = False\<rparr>" "[]" "[]" "ex_request ''ff''" ex_api]
    by fastforce
qed

end
