(* ===== verification/WsProps.thy ===== *)
theory WsProps
  imports WsFilter EndpointProps
begin

text \<open>
  Properties of web sockets: the permissions a socket ends up with, what a client may do through
  it, and how far the filter does what the client says.
\<close>

section \<open>The filter\<close>


text \<open>A socket that drops by default, one packet in flight, two packets in flight.\<close>

definition ex_ws :: wsApi where
  "ex_ws = (new_ws 1)\<lparr>ws_canFilter := True, ws_defaultAction := wsFilterDrop\<rparr>"

definition ex_pi :: pc_info where
  "ex_pi = \<lparr>pi_GetId = 0, pi_Network = ''tcp'', pi_GetClientAddr = ex_client, pi_GetServerAddr = ex_server\<rparr>"

definition ws_up :: "ws_msg \<Rightarrow> err option" where "ws_up m = None"

definition ex_msg :: "goint \<Rightarrow> wsClientMsg" where
  "ex_msg n = \<lparr>cm_Type = 3, cm_Target = n, cm_Data = [], cm_Extra = 1\<rparr>"

definition ex_fs :: "wsApi \<Rightarrow> goint set \<Rightarrow> bool \<Rightarrow> filter_history list \<Rightarrow> filter_sys" where
  "ex_fs ws wait blk h = \<lparr>fs_ws = ws, fs_waiting = wait, fs_blocked = blk, fs_history = h\<rparr>"

lemma ex_fs_init: "filter_init (ex_fs ex_ws {} False [])"
  by (simp add: filter_init_def ex_fs_def ex_ws_def new_ws_def)

lemma ws_up_next:
  "filter_step ws_up s t \<Longrightarrow> reach filter_init (filter_step ws_up) s \<Longrightarrow> reach filter_init (filter_step ws_up) t"
  by (rule reach_next)

lemma ex_arrive:
  assumes "ws_canFilter ws" "ws_networkFilter ws = []" "ws_pktId ws \<noteq> - 1"
  obtains ws' where "filter_step ws_up (ex_fs ws N blk h) (ex_fs ws' (insert (ws_pktId ws) N) blk h)"
    "ws_canFilter ws'" "ws_networkFilter ws' = []" "ws_pktId ws' = ws_pktId ws + 1"
    "ws_defaultAction ws' = ws_defaultAction ws" "ws_filterMap ws' = (ws_filterMap ws)(ws_pktId ws \<mapsto> wsFilterWait)"
proof -
  let ?ws1 = "ws\<lparr>ws_pktId := ws_pktId ws + 1, ws_filterMap := (ws_filterMap ws)(ws_pktId ws \<mapsto> wsFilterWait)\<rparr>"
  let ?ws' = "?ws1\<lparr>ws_log := ws_log ws @ [WsServerMsg 200 wsServerPacket (WsPkt (ws_packet (ws_pktId ws) [] 0 ex_pi))]\<rparr>"
  have "handleSend_start ws_up [] 0 ex_pi ws = Some (FWaiting (ws_pktId ws), ?ws')"
    using assms by (simp add: handleSend_start_def handleRecvFilter_start_def matchesNetworkFilter_def sendPkt_def Let_def
        ws_sendPacket_def ws_sendRaw_def ws_up_def ws_packet_def)
  with fs_arrive_waits [of "ex_fs ws N blk h" ws_up] assms(3)
  have "filter_step ws_up (ex_fs ws N blk h) (ex_fs ?ws' (insert (ws_pktId ws) N) blk h)"
    by (simp add: ex_fs_def)
  with assms show ?thesis by (intro that [of ?ws']) simp_all
qed

lemma ex_reply:
  assumes "ws_canFilter ws" "ws_filterMap ws n = Some wsFilterWait"
  shows "filter_step ws_up (ex_fs ws N False h)
     (ex_fs (ws\<lparr>ws_filterMap := (ws_filterMap ws)(n \<mapsto> wsFilterAllow)\<rparr>) N True (h @ [HReply n True]))"
proof -
  have bit: "(1 :: u64) AND wsFilterShouldSend \<noteq> 0" by (simp add: wsFilterShouldSend_def)
  have "handleClientAction ws_up (\<lambda>_. Some (ex_msg n)) [] [] True [] ws (w :: unit world) =
      Some (True, ws\<lparr>ws_filterMap := (ws_filterMap ws)(n \<mapsto> wsFilterAllow)\<rparr>, w)" for w
    using assms bit by (simp add: handleClientAction_def action_filter_def filterMap_get_def ex_msg_def wsReqInject_def
        wsReqClose_def wsReqFilter_def)
  from fs_message [of "ex_fs ws N False h" "\<lambda>_. Some (ex_msg n)" "[]" "ex_msg n" ws_up "[]" "[]", OF _ refl] this bit
  show ?thesis by (simp add: ex_fs_def reply_of_def ex_msg_def)
qed

lemma ex_timeout:
  assumes "n \<in> N" "ws_defaultAction ws = wsFilterDrop"
  obtains l where "filter_step ws_up (ex_fs ws N blk h)
     (ex_fs (ws\<lparr>ws_log := l\<rparr>) (N - {n}) blk (h @ [HVerdict n False EvTimer]))"
proof -
  let ?m = "WsErrorMsg StatusRequestTimeout (WsText ''packet timed out'')"
  have "handleRecvFilter_event ws_up EvTimer n ws = Some (FDecided False, ws\<lparr>ws_log := ws_log ws @ [?m]\<rparr>)"
    using assms(2) by (simp add: handleRecvFilter_event_def ws_sendError_def ws_sendRaw_def StatusRequestTimeout_def ws_up_def
        default_verdict_def)
  with fs_default [of n "ex_fs ws N blk h" EvTimer ws_up False] assms(1) show ?thesis
    by (intro that [of "ws_log ws @ [?m]"]) (simp add: ex_fs_def)
qed


text \<open>Two packets wait; the client allows packet 0, and packet 1 takes the signal.\<close>

definition ex_woken :: "wsApi \<Rightarrow> bool" where
  "ex_woken ws \<longleftrightarrow> ws_defaultAction ws = wsFilterDrop \<and> ws_filterMap ws = [0 \<mapsto> wsFilterAllow, 1 \<mapsto> wsFilterWait] \<and>
     reach filter_init (filter_step ws_up) (ex_fs ws {1, 0} False [HReply 0 True])"

lemma ex_wrong_packet_woken: "\<exists>ws. ex_woken ws"
proof -
  obtain ws1 where a1: "filter_step ws_up (ex_fs ex_ws {} False []) (ex_fs ws1 {0} False [])"
      and w1: "ws_canFilter ws1" "ws_networkFilter ws1 = []" "ws_pktId ws1 = 1" "ws_defaultAction ws1 = wsFilterDrop"
        "ws_filterMap ws1 = [0 \<mapsto> wsFilterWait]"
    by (rule ex_arrive [of ex_ws "{}" False "[]"]) (simp_all add: ex_ws_def new_ws_def)
  obtain ws2 where a2: "filter_step ws_up (ex_fs ws1 {0} False []) (ex_fs ws2 {1, 0} False [])"
      and w2: "ws_canFilter ws2" "ws_defaultAction ws2 = wsFilterDrop" "ws_filterMap ws2 = [0 \<mapsto> wsFilterWait, 1 \<mapsto> wsFilterWait]"
    by (rule ex_arrive [of ws1 "{0}" False "[]"]) (simp_all add: w1)
  let ?ws3 = "ws2\<lparr>ws_filterMap := (ws_filterMap ws2)(0 \<mapsto> wsFilterAllow)\<rparr>"
  have a3: "filter_step ws_up (ex_fs ws2 {1, 0} False []) (ex_fs ?ws3 {1, 0} True [HReply 0 True])"
    using ex_reply [of ws2 0 "{1, 0}" "[]"] w2 by simp
  have "handleRecvFilter_event ws_up EvSignal 1 ?ws3 = Some (FWaiting 1, ?ws3)"
    by (simp add: handleRecvFilter_event_def filterMap_get_def w2)
  then have a4: "filter_step ws_up (ex_fs ?ws3 {1, 0} True [HReply 0 True]) (ex_fs ?ws3 {1, 0} False [HReply 0 True])"
    using fs_signal_again [of "ex_fs ?ws3 {1, 0} True [HReply 0 True]" 1 ws_up] by (simp add: ex_fs_def)
  have "reach filter_init (filter_step ws_up) (ex_fs ?ws3 {1, 0} False [HReply 0 True])"
    by (rule ws_up_next [OF a4], rule ws_up_next [OF a3], rule ws_up_next [OF a2],
      rule ws_up_next [OF a1], rule reach_start, rule ex_fs_init)
  then have "ex_woken ?ws3" by (simp add: ex_woken_def w2 fun_upd_twist)
  then show ?thesis ..
qed

text \<open>C32: The wake-up can be lost, because \<open>filterChan\<close> is shared by all waiting packets. There is a run to a
  state in which the client has allowed packet 0, the reader is no longer blocked, so the signal of
  that reply has been received, and packet 0 still waits beside packet 1; from there the time limit
  drops packet 0 against the client's answer. It takes two waiting packets: in a run in which never
  two packets wait at once, a packet that was answered and still waits has its signal on the way,
  the reader is blocked on it.\<close>

theorem reply_can_be_lost:
  "(\<exists>s t. reach filter_init (filter_step ws_up) s \<and> fs_history s = [HReply 0 True] \<and> \<not> fs_blocked s \<and>
      fs_waiting s = {0, 1} \<and> filter_step ws_up s t \<and> fs_waiting t = {1} \<and>
      fs_history t = [HReply 0 True, HVerdict 0 False EvTimer]) \<and>
   (reach filter_init (lone_step wr) u \<longrightarrow> n \<in> fs_waiting u \<longrightarrow> HReply n b \<in> set (fs_history u) \<longrightarrow> fs_blocked u)"
proof (intro conjI impI)
  obtain ws where w: "ex_woken ws" using ex_wrong_packet_woken ..
  let ?s = "ex_fs ws {1, 0} False [HReply 0 True]"
  obtain l where t: "filter_step ws_up ?s
      (ex_fs (ws\<lparr>ws_log := l\<rparr>) ({1, 0} - {0}) False ([HReply 0 True] @ [HVerdict 0 False EvTimer]))"
    by (rule ex_timeout [of 0 "{1, 0}" ws False "[HReply 0 True]"]) (use w in \<open>simp_all add: ex_woken_def\<close>)
  show "\<exists>s t. reach filter_init (filter_step ws_up) s \<and> fs_history s = [HReply 0 True] \<and> \<not> fs_blocked s \<and>
      fs_waiting s = {0, 1} \<and> filter_step ws_up s t \<and> fs_waiting t = {1} \<and>
      fs_history t = [HReply 0 True, HVerdict 0 False EvTimer]"
    using w t by (intro exI [of _ ?s] exI [of _ "ex_fs (ws\<lparr>ws_log := l\<rparr>) ({1, 0} - {0}) False ([HReply 0 True] @ [HVerdict 0 False EvTimer])"])
      (auto simp: ex_fs_def ex_woken_def)
next
  assume "reach filter_init (lone_step wr) u" "n \<in> fs_waiting u" "HReply n b \<in> set (fs_history u)"
  moreover from this(1) have "lone_inv u" by (rule lone.holds_when_reached)
  ultimately show "fs_blocked u" unfolding lone_inv_def filter_inv_def by blast
qed

lemma reply_can_be_lost_witness:
  "\<exists>ws. reach filter_init (lone_step ws_up) (ex_fs ws {0} True [HReply 0 True]) \<and>
     fs_blocked (ex_fs ws {0} True [HReply 0 True])"
proof -
  obtain ws1 where a1: "filter_step ws_up (ex_fs ex_ws {} False []) (ex_fs ws1 {0} False [])"
      and w1: "ws_canFilter ws1" "ws_filterMap ws1 = [0 \<mapsto> wsFilterWait]"
    by (rule ex_arrive [of ex_ws "{}" False "[]"]) (simp_all add: ex_ws_def new_ws_def)
  let ?ws2 = "ws1\<lparr>ws_filterMap := (ws_filterMap ws1)(0 \<mapsto> wsFilterAllow)\<rparr>"
  have a2: "filter_step ws_up (ex_fs ws1 {0} False []) (ex_fs ?ws2 {0} True [HReply 0 True])"
    using ex_reply [of ws1 0 "{0}" "[]"] w1 by simp
  have r: "reach filter_init (lone_step ws_up) (ex_fs ?ws2 {0} True [HReply 0 True])"
    by (rule reach_next, rule reach_next, rule reach_start, rule ex_fs_init)
      (use a1 a2 in \<open>simp_all add: lone_step_def ex_fs_def\<close>)
  from reply_can_be_lost [of ws_up "ex_fs ?ws2 {0} True [HReply 0 True]" 0 True] r
  show ?thesis by (intro exI [of _ ?ws2]) (simp add: ex_fs_def)
qed

text \<open>C33: A late reply blocks the reader: packet 0 got its verdict from the time limit, but its entry still
  says "wait", so the reply that comes after that verdict is accepted, and the goroutine that reads
  the client's messages then waits for a receiver on \<open>filterChan\<close> that does not exist. No run without
  the arrival of a new packet that waits gets it out: it stays blocked, and so no further message of the
  client is handled (the history does not change any more).\<close>

theorem late_reply_blocks_reader:
  "\<exists>s. reach filter_init (filter_step ws_up) s \<and> fs_history s = [HVerdict 0 False EvTimer, HReply 0 True] \<and>
     fs_waiting s = {} \<and> fs_blocked s \<and>
     (\<forall>t. (\<lambda>x y. filter_step ws_up x y \<and> fs_waiting y = {})\<^sup>*\<^sup>* s t \<longrightarrow>
        fs_blocked t \<and> fs_history t = fs_history s)"
proof -
  obtain ws1 where a1: "filter_step ws_up (ex_fs ex_ws {} False []) (ex_fs ws1 {0} False [])"
      and w1: "ws_canFilter ws1" "ws_defaultAction ws1 = wsFilterDrop" "ws_filterMap ws1 = [0 \<mapsto> wsFilterWait]"
    by (rule ex_arrive [of ex_ws "{}" False "[]"]) (simp_all add: ex_ws_def new_ws_def)
  obtain l where a2: "filter_step ws_up (ex_fs ws1 {0} False [])
      (ex_fs (ws1\<lparr>ws_log := l\<rparr>) {} False [HVerdict 0 False EvTimer])"
    by (rule ex_timeout [of 0 "{0}" ws1 False "[]"]) (use w1 in simp_all)
  let ?ws2 = "ws1\<lparr>ws_log := l\<rparr>" and ?h = "[HVerdict 0 False EvTimer]"
  let ?s = "ex_fs (?ws2\<lparr>ws_filterMap := (ws_filterMap ?ws2)(0 \<mapsto> wsFilterAllow)\<rparr>) {} True (?h @ [HReply 0 True])"
  have a3: "filter_step ws_up (ex_fs ?ws2 {} False ?h) ?s"
    using w1 by (intro ex_reply) simp_all
  have r: "reach filter_init (filter_step ws_up) ?s"
    by (rule ws_up_next [OF a3], rule ws_up_next [OF a2],
      rule ws_up_next [OF a1], rule reach_start, rule ex_fs_init)
  have "fs_waiting t = {} \<and> fs_blocked t \<and> fs_history t = fs_history ?s"
    if "(\<lambda>x y. filter_step ws_up x y \<and> fs_waiting y = {})\<^sup>*\<^sup>* ?s t" for t
    using that
  proof (induction rule: rtranclp_induct)
    case (step x y)
    then have "filter_step ws_up x y" "fs_waiting x = {}" "fs_blocked x" "fs_waiting y = {}" by simp_all
    then have "fs_blocked y \<and> fs_history y = fs_history x" by cases simp_all
    with step show ?case by simp
  qed (simp add: ex_fs_def)
  with r show ?thesis by (intro exI [of _ ?s]) (simp add: ex_fs_def)
qed

lemma late_reply_blocks_reader_witness:
  "\<exists>s. reach filter_init (filter_step ws_up) s \<and> fs_history s = [HVerdict 0 False EvTimer, HReply 0 True] \<and>
     fs_waiting s = {} \<and> fs_blocked s"
  using late_reply_blocks_reader by blast

section \<open>Permissions of a socket\<close>

text \<open>C36: A message that needs a permission the socket does not have changes neither the spawner nor the
  filter, and the client is sent exactly one error with status 403.\<close>

theorem action_needs_permission:
  assumes "unmarshal data = Some m"
    and "cm_Type m = wsReqInject \<and> \<not> ws_canInject ws \<or> cm_Type m = wsReqClose \<and> \<not> ws_canClose ws \<or>
         cm_Type m = wsReqFilter \<and> \<not> ws_canFilter ws"
  shows "\<exists>msg. handleClientAction (\<lambda>_. None) unmarshal ks ks' True data ws w =
     Some (False, ws\<lparr>ws_log := ws_log ws @ [WsErrorMsg 403 (WsText msg)]\<rparr>, w)"
  using assms
  by (auto simp: handleClientAction_def action_inject_def action_close_def action_filter_def answer_error_def
      ws_sendError_def ws_sendRaw_def status_defs wsReqInject_def wsReqClose_def wsReqFilter_def)

lemma action_needs_permission_witness:
  "\<exists>msg. handleClientAction (\<lambda>_. None) (\<lambda>_. Some (ex_msg 0)) [] [] True [] (new_ws 1) ex_conn =
     Some (False, (new_ws 1)\<lparr>ws_log := [WsErrorMsg 403 (WsText msg)]\<rparr>, ex_conn)"
  using action_needs_permission [of "\<lambda>_. Some (ex_msg 0)" "[]" "ex_msg 0" "new_ws 1" "[]" "[]" ex_conn]
  by (simp add: ex_msg_def new_ws_def wsReqFilter_def)

lemma ws_permissions_Inr:
  "ws_permissions val r ws = Inr ws' \<Longrightarrow>
   ws_canClose ws' = qr_Has r ''close'' \<and> ws_canInject ws' = qr_Has r ''inject'' \<and> ws_canFilter ws' = qr_Has r ''filter'' \<and>
   (ws_canClose ws' \<longrightarrow> bit val 1) \<and> (ws_canFilter ws' \<longrightarrow> bit val 3) \<and> (ws_canInject ws' \<longrightarrow> bit val 4)"
  by (auto simp: ws_permissions_def split: if_splits)

lemma new_ctx_alive:
  "WithCancelCause (Some p) \<sigma> = (c, \<tau>) \<Longrightarrow> Cause \<tau> c = Cause \<sigma> p \<and> c = length \<sigma>"
  by (auto simp: WithCancelCause_def Cause_append)

text \<open>C39: A socket that is set up has exactly the abilities its request named, each of them covered by the
  permissions of the request's key; and only a socket that may filter has taken over the
  spawner's filter. The table of connections and the keys are untouched.\<close>

theorem newWebSocket_abilities:
  assumes "wa_auth a = Some l" "newWebSocket_setup cb r a w = Some (Inr (ws, v))"
  shows "\<exists>key val. getAuthValues l r = Inr (key, val) \<and>
     ws_canInject ws = qr_Has r ''inject'' \<and> ws_canClose ws = qr_Has r ''close'' \<and> ws_canFilter ws = qr_Has r ''filter'' \<and>
     (ws_canInject ws \<longrightarrow> checkPermission val AuthCanInject) \<and>
     (ws_canClose ws \<longrightarrow> checkPermission val AuthCanClose) \<and>
     (ws_canFilter ws \<longrightarrow> checkPermission val AuthCanFilter) \<and>
     (if ws_canFilter ws then ps_sendCallback v = Some (cb (ws_ctx ws)) else ps_sendCallback v = ps_sendCallback w) \<and>
     ps_connections v = ps_connections w"
proof -
  obtain ctx \<sigma> where new: "WithCancelCause (Some (wa_ctx a)) (w_ctxs w) = (ctx, \<sigma>)" by fastforce
  let ?w1 = "w\<lparr>w_ctxs := \<sigma>\<rparr>"
  from assms new obtain key val where key: "getAuthValues l r = Inr (key, val)"
    by (auto simp: newWebSocket_setup_def Let_def split: sum.splits)
  with assms new obtain ws1 where p: "ws_permissions val r (new_ws ctx) = Inr ws1"
    by (auto simp: newWebSocket_setup_def Let_def split: sum.splits)
  have ctx1: "ws_ctx ws1 = ctx" using p by (auto simp: ws_permissions_def new_ws_def split: if_splits)
  note perms = ws_permissions_Inr [OF p]
  show ?thesis
  proof (cases "ws_canFilter ws1")
    case True
    with assms new key p obtain v1 where t: "TrySetFilterCallback (Some (cb ctx)) (Some ctx) ?w1 = Some (None, v1)"
      and res: "ws = ws1\<lparr>ws_networkFilter := qr_Get r ''network''\<rparr>" "v = v1"
      by (auto simp: newWebSocket_setup_def Let_def Option.bind_eq_Some_conv split: if_splits)
    from t have "ps_sendCallback v1 = Some (cb ctx) \<and> ps_connections v1 = ps_connections w"
      by (cases rule: TrySetFilterCallback_cases)
        (auto simp: set_callback_def free_callback_def split: prod.splits option.splits)
    then show ?thesis using True key perms res ctx1 by (intro exI [of _ key] exI [of _ val]) simp
  next
    case False
    with assms new key p obtain i v1 where g: "GetRecvChan (Some (wa_ctx a)) ?w1 = (i, v1)"
      and res: "ws = ws1\<lparr>ws_recv := Some i, ws_networkFilter := qr_Get r ''network''\<rparr>" "v = v1"
      by (auto simp: newWebSocket_setup_def Let_def Option.bind_eq_Some_conv split: if_splits prod.splits)
    from g have "ps_sendCallback v1 = ps_sendCallback w \<and> ps_connections v1 = ps_connections w"
      by (auto simp: GetRecvChan_def Let_def split: prod.splits)
    then show ?thesis using False key perms res by (intro exI [of _ key] exI [of _ val]) simp
  qed
qed

definition ex_ws_request :: request where
  "ex_ws_request = \<lparr>r_Method = ''GET'', r_Path = ''/api/2/socket'',
     r_query = [''key'' \<mapsto> [''ff''], ''inject'' \<mapsto> [[]]], r_body = ([], None)\<rparr>"

definition ex_ws_api :: WebApi where
  "ex_ws_api = \<lparr>wa_auth = Some [255 \<mapsto> 0x14], wa_ctx = 0, wa_wsocks = [], wa_endpoints = []\<rparr>"

lemma newWebSocket_abilities_witness:
  "\<exists>ws v. newWebSocket_setup (\<lambda>_. ex_refuse) ex_ws_request ex_ws_api ex_conn = Some (Inr (ws, v)) \<and>
     ws_canInject ws \<and> ps_connections v = ps_connections ex_conn"
proof -
  let ?l = "[255 \<mapsto> 0x14 :: goint]"
  have has: "qr_Has ex_ws_request ''key''" "qr_Has ex_ws_request ''inject''" "\<not> qr_Has ex_ws_request ''close''"
      "\<not> qr_Has ex_ws_request ''filter''" "qr_Get ex_ws_request ''network'' = []" "qr_Get ex_ws_request ''key'' = ''ff''"
    by (simp_all add: qr_Has_def qr_Get_def ex_ws_request_def)
  have key: "getAuthValues ?l ex_ws_request = Inr (255, 0x14)"
    using has by (simp add: getAuthValues_Inr ex_parse)
  have bit: "bit (0x14 :: goint) 4" by simp
  obtain c \<sigma> where new: "WithCancelCause (Some 0) (w_ctxs ex_conn) = (c, \<sigma>)" by fastforce
  obtain i u where g: "GetRecvChan (Some 0) (ex_conn\<lparr>w_ctxs := \<sigma>\<rparr>) = (i, u)" by fastforce
  obtain ws v where s: "newWebSocket_setup (\<lambda>_. ex_refuse) ex_ws_request ex_ws_api ex_conn = Some (Inr (ws, v))"
    using key has bit new g
    by (simp add: newWebSocket_setup_def Let_def ex_ws_api_def ws_permissions_def new_ws_def)
  have "wa_auth ex_ws_api = Some ?l" by (simp add: ex_ws_api_def)
  from newWebSocket_abilities [OF this s] s has show ?thesis by auto
qed

end
