(* ===== verification/ApiProps.thy ===== *)
theory ApiProps
  imports Api WsProps
begin

text \<open>
  Properties of the API as a whole: what an unauthenticated or unauthorised client can change
  through any path, what the self-documentation says, and what ends with the API.
\<close>

lemma small_digits [simp]: "Sprintf_d 1 = ''1''" "Sprintf_d 2 = ''2''"
  by (simp_all add: Sprintf_d_def digits_nat.simps digit_char_def)

lemma route_paths: "map fst (api_routes P) =
    [''/api/1/status'', ''/api/1/proxies'', ''/api/1/inject'', ''/api/1/newkey'', ''/api/1/keyinfo'', ''/api/2/socket'']"
  by (simp add: api_routes_def addEndpoint_def endpoint_path_def)

lemma guard_refuses:
  assumes "wa_auth a = Some l" "\<not> (r_Method r = method \<and> authorised l r perms)"
  shows "\<exists>rsp. addEndpoint_guard method perms h r a w = Some (Some rsp, a, w)"
proof (cases "r_Method r = method")
  case True
  with assms(2) checkPermission_authorised [of l r perms] obtain rsp where "authLookup_checkPermission l r perms = Some rsp"
    by (cases "authLookup_checkPermission l r perms") auto
  with True assms(1) show ?thesis by (simp add: addEndpoint_guard_def)
qed (simp add: addEndpoint_guard_def)

lemma guard_changes:
  assumes "wa_auth a = Some l" "addEndpoint_guard method perms h r a w = Some (rsp, a', w')" "(a', w') \<noteq> (a, w)"
  shows "r_Method r = method \<and> authorised l r perms \<and> h r a w = Some (rsp, a', w')"
proof (cases "r_Method r = method \<and> authorised l r perms")
  case True
  then have "authLookup_checkPermission l r perms = None" using checkPermission_authorised by blast
  with True assms show ?thesis by (simp add: addEndpoint_guard_def)
next
  case False
  from guard_refuses [OF assms(1) False, of h w] assms(2,3) show ?thesis by auto
qed

lemma read_only:
  "epStatus ks r a w = Some (rsp, a', w') \<Longrightarrow> a' = a \<and> w' = w"
  "epProxyList ks r a w = Some (rsp, a', w') \<Longrightarrow> a' = a \<and> w' = w"
  "epGetAuthValue r a w = Some (rsp, a', w') \<Longrightarrow> a' = a \<and> w' = w"
  by (auto simp: epStatus_def epProxyList_def epGetAuthValue_def split: option.splits sum.splits)

lemma epGetKey_world: "epGetKey rnd r a w = Some (rsp, a', w') \<Longrightarrow> w' = w"
  by (auto simp: epGetKey_def Option.bind_eq_Some_conv split: option.splits sum.splits if_splits prod.splits)

lemma epInject_api: "epInject u ks ks' r a w = Some (rsp, a', w') \<Longrightarrow> a' = a"
  by (auto simp: epInject_def Option.bind_eq_Some_conv split: prod.splits option.splits sum.splits if_splits)

lemma newWebSocket_api: "newWebSocket cb acc ses r a w = Some (rsp, a', w') \<Longrightarrow> a' = a"
  by (cases "newWebSocket_setup cb r a w" rule: option.exhaust)
    (auto simp: newWebSocket_def split: sum.split_asm prod.split_asm)

text \<open>A request that changes something went through one of the routes.\<close>

lemma serve_cases:
  assumes "serve P r a w = Some (rsp, a', w')" "(a', w') \<noteq> (a, w)"
  obtains (status) "addEndpoint_guard ''GET'' [AuthCanCheckStatus] (epStatus (ap_order P)) r a w = Some (rsp, a', w')"
  | (proxies) "addEndpoint_guard ''GET'' [AuthCanCheckStatus] (epProxyList (ap_order P)) r a w = Some (rsp, a', w')"
  | (inject) "r_Path r = ''/api/1/inject''"
      "addEndpoint_guard ''POST'' [AuthCanInject] (epInject (ap_unmarshal P) (ap_order P) (ap_order2 P)) r a w = Some (rsp, a', w')"
  | (newkey) "r_Path r = ''/api/1/newkey''"
      "addEndpoint_guard ''GET'' [AuthCanMakeKeys] (epGetKey (ap_rnd P)) r a w = Some (rsp, a', w')"
  | (keyinfo) "addEndpoint_guard ''GET'' [] epGetAuthValue r a w = Some (rsp, a', w')"
  | (socket) "r_Path r = ''/api/2/socket''"
      "addEndpoint_guard ''GET'' [AuthCanUseWebsocket] (newWebSocket (ap_handleSend P) (ap_accept P) (ap_session P)) r a w = Some (rsp, a', w')"
proof -
  from assms obtain h where h: "map_of (api_routes P) (r_Path r) = Some h" "h r a w = Some (rsp, a', w')"
    by (auto simp: serve_def split: option.splits)
  show ?thesis
    using map_of_SomeD [OF h(1)] h(2) that by (auto simp: api_routes_def addEndpoint_def endpoint_path_def)
qed

text \<open>C10: With authentication on, a request changes something only through three paths, and only with a
  known key that has the permission for it: injecting and opening a socket leave the keys alone,
  making keys leaves the spawner alone. Every other path, and every request without such a key,
  changes neither the API nor the spawner.\<close>

theorem changes_need_permission:
  assumes "wa_auth a = Some l" "serve P r a w = Some (rsp, a', w')" "(a', w') \<noteq> (a, w)"
  shows "r_Path r = ''/api/1/inject'' \<and> r_Method r = ''POST'' \<and> authorised l r [AuthCanInject] \<and> a' = a \<or>
     r_Path r = ''/api/1/newkey'' \<and> r_Method r = ''GET'' \<and> authorised l r [AuthCanMakeKeys] \<and> w' = w \<or>
     r_Path r = ''/api/2/socket'' \<and> r_Method r = ''GET'' \<and> authorised l r [AuthCanUseWebsocket] \<and> a' = a"
proof -
  note ch = guard_changes [OF assms(1) _ assms(3)]
  from assms(2,3) show ?thesis
  proof (cases rule: serve_cases)
    case status
    with ch read_only(1) assms(3) show ?thesis by (metis (no_types))
  next
    case proxies
    with ch read_only(2) assms(3) show ?thesis by (metis (no_types))
  next
    case keyinfo
    with ch read_only(3) assms(3) show ?thesis by (metis (no_types))
  next
    case inject
    with ch epInject_api show ?thesis by (metis (no_types))
  next
    case newkey
    with ch epGetKey_world show ?thesis by (metis (no_types))
  next
    case socket
    with ch newWebSocket_api show ?thesis by (metis (no_types))
  qed
qed

definition ex_params :: "bytes list api_params" where
  "ex_params = \<lparr>ap_rnd = (\<lambda>_. Inr 7), ap_unmarshal = (\<lambda>_. None), ap_order = [], ap_order2 = [],
     ap_handleSend = (\<lambda>_. ex_refuse), ap_accept = True, ap_session = (\<lambda>_ w. w)\<rparr>"

lemma ex_api_changed: "ex_api\<lparr>wa_auth := Some [255 \<mapsto> 0x21, 7 \<mapsto> 1]\<rparr> \<noteq> ex_api"
proof
  assume "ex_api\<lparr>wa_auth := Some [255 \<mapsto> 0x21, 7 \<mapsto> 1]\<rparr> = ex_api"
  then have "the (wa_auth (ex_api\<lparr>wa_auth := Some [255 \<mapsto> 0x21, 7 \<mapsto> 1]\<rparr>)) 7 = the (wa_auth ex_api) 7" by (rule arg_cong)
  then show False by (simp add: ex_api_def)
qed

lemma ex_serve: "serve ex_params (ex_request ''ff'') ex_api ex_new =
    Some (Some (writeResponse 200 (DNewKey \<lparr>nk_Key = Sprintf_x 7, nk_Perms = 1\<rparr>)),
          ex_api\<lparr>wa_auth := Some [255 \<mapsto> 0x21, 7 \<mapsto> 1]\<rparr>, ex_new)"
proof -
  have "map_of (api_routes ex_params) ''/api/1/newkey'' =
      Some (addEndpoint_guard ''GET'' [AuthCanMakeKeys] (epGetKey (\<lambda>_. Inr 7)))"
    by (simp add: api_routes_def addEndpoint_def endpoint_path_def ex_params_def)
  then show ?thesis
    unfolding ex_getKey [symmetric]
    by (simp add: serve_def addEndpoint_guard_def ex_api_def ex_request_def authLookup_checkPermission_def qr_Has_def
        qr_Get_def ex_parse)
qed

lemma changes_need_permission_witness: "authorised [255 \<mapsto> 0x21] (ex_request ''ff'') [AuthCanMakeKeys]"
  using changes_need_permission [OF _ ex_serve, of "[255 \<mapsto> 0x21]"] ex_api_changed
  by (simp add: ex_api_def ex_request_def)

section \<open>Keys over the life of the API\<close>

text \<open>A request leaves the keys as they are or adds one that its maker's permissions cover.\<close>

lemma serve_keys:
  assumes "serve P r a w = Some (rsp, a', w')" "wa_auth a = Some l"
  shows "wa_auth a' = Some l \<or>
    (\<exists>key ours new perms. l key = Some ours \<and> checkPermission ours AuthCanMakeKeys \<and> l new = None \<and>
       wa_auth a' = Some (l(new \<mapsto> perms)) \<and> perms \<noteq> 0 \<and> perms AND 0x7f = perms \<and> (\<forall>i. bit perms i \<longrightarrow> bit ours i))"
proof (cases "a' = a")
  case True
  with assms(2) show ?thesis by simp
next
  case changed: False
  then have ne: "(a', w') \<noteq> (a, w)" by simp
  note ch = guard_changes [OF assms(2) _ ne]
  from assms(1) ne show ?thesis
  proof (cases rule: serve_cases)
    case newkey
    from ch [OF newkey(2)] have "authorised l r [AuthCanMakeKeys]" "epGetKey (ap_rnd P) r a w = Some (rsp, a', w')" by simp_all
    from this(2) assms(2) changed this(1) show ?thesis
    proof (rule epGetKey_new_key)
      fix key ours new perms
      assume k: "l key = Some ours" "checkPermission ours AuthCanMakeKeys" "l new = None" "perms \<noteq> 0" "perms AND 0x7f = perms"
          "\<forall>i. bit perms i \<longrightarrow> bit ours i" and "a' = a\<lparr>wa_auth := Some (l(new \<mapsto> perms))\<rparr>"
      then have "wa_auth a' = Some (l(new \<mapsto> perms))" by simp
      with k show ?thesis by blast
    qed
  next
    case status
    with ch read_only(1) changed show ?thesis by (metis (no_types))
  next
    case proxies
    with ch read_only(2) changed show ?thesis by (metis (no_types))
  next
    case keyinfo
    with ch read_only(3) changed show ?thesis by (metis (no_types))
  next
    case inject
    with ch epInject_api changed show ?thesis by (metis (no_types))
  next
    case socket
    with ch newWebSocket_api changed show ?thesis by (metis (no_types))
  qed
qed

text \<open>
  A life of the API: requests one after the other, each with the state of the spawner that it meets,
  which may be anything.
\<close>

fun serve_all :: "('e api_params \<times> request \<times> 'e world) list \<Rightarrow> WebApi \<Rightarrow> WebApi may_panic" where
  "serve_all [] a = Some a"
| "serve_all ((P, r, w) # rs) a = do { (rsp, a1, w1) \<leftarrow> serve P r a w; serve_all rs a1 }"

text \<open>The permissions a key that was made later may have: some, no reserved bit, and those of an initial key.\<close>

definition well_typed_key :: "authLookup \<Rightarrow> goint \<Rightarrow> bool" where
  "well_typed_key l0 perms \<longleftrightarrow>
     perms \<noteq> 0 \<and> perms AND 0x7f = perms \<and>
     (\<exists>k0 u. l0 k0 = Some u \<and> checkPermission u AuthCanMakeKeys \<and> (\<forall>i. bit perms i \<longrightarrow> bit u i))"

definition keys_from :: "authLookup \<Rightarrow> authLookup \<Rightarrow> bool" where
  "keys_from l0 l \<longleftrightarrow>
     (\<forall>k v. l0 k = Some v \<longrightarrow> l k = Some v) \<and> (\<forall>k v. l k = Some v \<longrightarrow> l0 k = Some v \<or> well_typed_key l0 v)"

lemma keys_from_refl: "keys_from l l"
  by (simp add: keys_from_def)

lemma keys_from_add:
  assumes "keys_from l0 l" "l key = Some ours" "checkPermission ours AuthCanMakeKeys" "l new = None"
    and "perms \<noteq> 0" "perms AND 0x7f = perms" "\<forall>i. bit perms i \<longrightarrow> bit ours i"
  shows "keys_from l0 (l(new \<mapsto> perms))"
proof -
  have "\<exists>k0 u. l0 k0 = Some u \<and> checkPermission u AuthCanMakeKeys \<and> (\<forall>i. bit ours i \<longrightarrow> bit u i)"
    using assms(1-3) unfolding keys_from_def well_typed_key_def by blast
  then have "well_typed_key l0 perms" using assms(5-7) unfolding well_typed_key_def by blast
  moreover have "l0 new = None" using assms(1,4) unfolding keys_from_def by (metis not_None_eq)
  ultimately show ?thesis using assms(1) by (auto simp: keys_from_def)
qed

text \<open>C11: Authority never grows: whatever sequence of requests the API serves, in whatever states of the
  spawner, no key is lost or changed, and every key that was made on the way is well-typed: it has
  some permission, no reserved bit, and only permissions of one single key that was there at the
  start and may make keys.\<close>

theorem authority_never_grows:
  assumes "serve_all rs a = Some a'" "wa_auth a = Some l0"
  shows "\<exists>l. wa_auth a' = Some l \<and> keys_from l0 l"
proof -
  have "serve_all rs a = Some a' \<Longrightarrow> wa_auth a = Some l \<Longrightarrow> keys_from l0 l \<Longrightarrow>
      \<exists>l'. wa_auth a' = Some l' \<and> keys_from l0 l'" for l
  proof (induction rs arbitrary: a l)
    case (Cons x rs)
    obtain P r w where x: "x = (P, r, w)" by (cases x) auto
    with Cons.prems(1) obtain rsp a1 w1 where one: "serve P r a w = Some (rsp, a1, w1)" and rest: "serve_all rs a1 = Some a'"
      by (auto simp: Option.bind_eq_Some_conv)
    from serve_keys [OF one Cons.prems(2)] have "\<exists>l1. wa_auth a1 = Some l1 \<and> keys_from l0 l1"
      using Cons.prems(3) by (blast intro: keys_from_add)
    with Cons.IH [OF rest] show ?case by blast
  qed simp
  with assms keys_from_refl show ?thesis by blast
qed

lemma authority_never_grows_witness:
  "serve_all [(ex_params, ex_request ''ff'', ex_new)] ex_api = Some (ex_api\<lparr>wa_auth := Some [255 \<mapsto> 0x21, 7 \<mapsto> 1]\<rparr>) \<and>
   keys_from [255 \<mapsto> 0x21] [255 \<mapsto> 0x21, 7 \<mapsto> 1]"
proof -
  have s: "serve_all [(ex_params, ex_request ''ff'', ex_new)] ex_api = Some (ex_api\<lparr>wa_auth := Some [255 \<mapsto> 0x21, 7 \<mapsto> 1]\<rparr>)"
    by (simp add: ex_serve)
  have "wa_auth ex_api = Some [255 \<mapsto> 0x21]" by (simp add: ex_api_def)
  from authority_never_grows [OF s this] s show ?thesis by auto
qed

text \<open>The self-documentation tells the truth: the endpoints it lists are exactly the routes, in order,
  and a request with authentication on gets past the guard of a listed endpoint only with the
  listed method and, if the endpoint lists a permission, a key that has it.\<close>

theorem documentation_matches_routes:
  "map (\<lambda>e. endpoint_path (ae_Endpoint e) (ae_Version e)) (wa_endpoints (fst (NewWebApi useAuth \<sigma>))) =
     map fst (api_routes P) \<and>
   (\<forall>e \<in> set (wa_endpoints (fst (NewWebApi useAuth \<sigma>))). \<forall>l r w.
      \<not> (r_Method r = ae_Method e \<and> authorised l r (if ae_Perms e = 0 then [] else [ae_Perms e])) \<longrightarrow>
      r_Path r = endpoint_path (ae_Endpoint e) (ae_Version e) \<longrightarrow> wa_auth a = Some l \<longrightarrow>
      (\<exists>rsp. serve P r a w = Some (Some rsp, a, w)))"
proof -
  have ne: "AuthCanCheckStatus \<noteq> 0" "AuthCanInject \<noteq> 0" "AuthCanMakeKeys \<noteq> 0" "AuthCanUseWebsocket \<noteq> 0"
    by (simp_all add: perm_defs push_bit_of_1)
  have eps: "map (\<lambda>e. (ae_Endpoint e, ae_Version e, ae_Method e, ae_Perms e)) (wa_endpoints (fst (NewWebApi useAuth \<sigma>))) =
      [(''status'', 1, ''GET'', AuthCanCheckStatus), (''proxies'', 1, ''GET'', AuthCanCheckStatus),
       (''inject'', 1, ''POST'', AuthCanInject), (''newkey'', 1, ''GET'', AuthCanMakeKeys), (''keyinfo'', 1, ''GET'', 0),
       (''socket'', 2, ''GET'', AuthCanUseWebsocket)]"
    by (simp add: NewWebApi_def Let_def documentEndpoint_def split: prod.splits)
  show ?thesis
  proof (intro conjI ballI allI impI)
    show "map (\<lambda>e. endpoint_path (ae_Endpoint e) (ae_Version e)) (wa_endpoints (fst (NewWebApi useAuth \<sigma>))) = map fst (api_routes P)"
      by (simp add: NewWebApi_def Let_def documentEndpoint_def api_routes_def addEndpoint_def split: prod.splits)
  next
    fix e l r w
    assume e: "e \<in> set (wa_endpoints (fst (NewWebApi useAuth \<sigma>)))"
      and no: "\<not> (r_Method r = ae_Method e \<and> authorised l r (if ae_Perms e = 0 then [] else [ae_Perms e]))"
      and path: "r_Path r = endpoint_path (ae_Endpoint e) (ae_Version e)" and auth: "wa_auth a = Some l"
    have "(ae_Endpoint e, ae_Version e, ae_Method e, ae_Perms e) \<in>
        set (map (\<lambda>e. (ae_Endpoint e, ae_Version e, ae_Method e, ae_Perms e)) (wa_endpoints (fst (NewWebApi useAuth \<sigma>))))"
      using e by simp
    then have "\<exists>h. map_of (api_routes P) (r_Path r) =
        Some (addEndpoint_guard (ae_Method e) (if ae_Perms e = 0 then [] else [ae_Perms e]) h)"
      unfolding eps path by (auto simp: ne api_routes_def addEndpoint_def endpoint_path_def)
    then show "\<exists>rsp. serve P r a w = Some (Some rsp, a, w)"
      using guard_refuses [OF auth no] by (auto simp: serve_def)
  qed
qed

lemma documentation_matches_routes_witness:
  "\<exists>rsp. serve ex_params (ex_request ''fe'') ex_api ex_new = Some (Some rsp, ex_api, ex_new)"
proof -
  let ?e = "\<lparr>ae_Endpoint = ''newkey'', ae_Version = 1, ae_Perms = AuthCanMakeKeys, ae_Method = ''GET'',
      ae_Desc = ''Create a new key with your permissions.''\<rparr>"
  have e: "?e \<in> set (wa_endpoints (fst (NewWebApi True [])))"
    by (simp add: NewWebApi_def Let_def documentEndpoint_def split: prod.splits)
  have "ParseUint ''fe'' 16 = Inr 254"
    by (simp add: ParseUint_def digit_of_def char_byte_def lower_def cutoff_def word_le_nat_alt)
  then have "\<not> authorised [255 \<mapsto> 0x21] (ex_request ''fe'') [AuthCanMakeKeys]"
    by (simp add: authorised_def ex_request_def qr_Get_def)
  moreover have "AuthCanMakeKeys \<noteq> 0" by (simp add: AuthCanMakeKeys_def push_bit_of_1)
  ultimately show ?thesis
    using conjunct2 [OF documentation_matches_routes [of True "[]" ex_params ex_api], rule_format, OF e,
        of "ex_request ''fe''" "[255 \<mapsto> 0x21]" ex_new]
    by (simp add: ex_request_def ex_api_def endpoint_path_def)
qed

lemma fold_close_le: "ctx_le (w_ctxs w) (w_ctxs (fold close_socket ss w))"
proof (induction ss arbitrary: w)
  case (Cons s ss)
  have "ctx_le (w_ctxs w) (w_ctxs (close_socket s w))"
    using ctx_le_trans [OF cancel_cause_le cancel_cause_le]
    by (cases s; cases "snd s") (auto simp: close_socket_def Let_def)
  with Cons show ?case by (auto intro: ctx_le_trans)
qed simp

text \<open>Closing the API ends every context below its own: all its web sockets, the filter one of them
  installed, and the receive channels it opened.\<close>

theorem api_close_ends_all:
  assumes "ctx_wf (w_ctxs w)" "wa_ctx a < length (w_ctxs w)" "ctx_under (w_ctxs w) (wa_ctx a) c"
  shows "ctx_Err (w_ctxs (WebApi_Close a w)) c \<noteq> None"
proof -
  let ?\<sigma> = "cancel_cause (wa_ctx a) None (w_ctxs w)"
  have "Cause ?\<sigma> (wa_ctx a) \<noteq> None"
    using assms(2) by (auto simp: Cause_cancel_cause split: option.splits)
  moreover have "ctx_under ?\<sigma> (wa_ctx a) c"
    using assms(3) by (rule ctx_under_mono) simp
  ultimately have "Cause ?\<sigma> c \<noteq> None"
    using ctx.cause_reaches_below cancel_cause_wf [OF assms(1)] by blast
  then have "Cause (w_ctxs (w_cancel (wa_ctx a) None w)) c \<noteq> None" by simp
  then show ?thesis
    unfolding WebApi_Close_def ctx_Err_iff using fold_close_le ctx_le_dead by blast
qed

lemma api_close_ends_all_witness: "ctx_Err (w_ctxs (WebApi_Close ex_api ex_conn)) 0 \<noteq> None"
proof (rule api_close_ends_all)
  show "ctx_wf (w_ctxs ex_conn)" using sp.holds_when_reached [OF ex_conn_reachable] by (simp add: sp_inv_def inv_ctx_def)
qed (simp_all add: ex_api_def ex_conn)

end
