(* ===== verification/ProxyProps.thy ===== *)
theory ProxyProps
  imports Proxy Helpers ApiProps
begin

text \<open>
  Properties of the proxy implementations and of the program's set-up: what a TCP proxy reports of
  what it reads, the single connection of the UDP listener, version strings, the check for an
  empty configuration, and the state the program starts in.
\<close>

section \<open>TCP\<close>

definition reads :: "read_event list \<Rightarrow> bytes list" where
  "reads evs = List.map_filter (\<lambda>(g, res). case res of Inl _ \<Rightarrow> None | Inr d \<Rightarrow> Some d) evs"

lemma reads_simps [simp]:
  "reads [] = []" "reads ((g, Inl e) # evs) = reads evs" "reads ((g, Inr d) # evs) = d # reads evs"
  by (simp_all add: reads_def List.map_filter_def)

lemma tcp_listen_packets: "p \<in> set (fst (tcp_listen t c ctx evs \<sigma>)) \<Longrightarrow> \<exists>d. p = tcp_packet t c d"
  by (induction t c ctx evs \<sigma> rule: tcp_listen.induct)
    (auto simp: Let_def case_prod_beta split: if_splits sum.splits)

lemma tcp_packet_data [simp]: "ppd_Data (tcp_packet t c d) = d"
  by (simp add: tcp_packet_def)

lemma tcp_listen_prefix: "prefix (map ppd_Data (fst (tcp_listen t c ctx evs \<sigma>))) (reads evs)"
proof (induction t c ctx evs \<sigma> rule: tcp_listen.induct)
  case (2 t c ctx g res evs \<sigma>)
  show ?case
  proof (cases res)
    case (Inl err)
    with 2 show ?thesis by (auto simp: Let_def)
  next
    case (Inr data)
    with 2 show ?thesis by (auto simp: Let_def case_prod_beta)
  qed
qed simp

lemma tcp_listen_complete:
  "Cause \<sigma> ctx = None \<Longrightarrow> \<forall>(g, res) \<in> set evs. (\<forall>\<sigma>. Cause \<sigma> ctx = None \<longrightarrow> Cause (g \<sigma>) ctx = None) \<Longrightarrow>
   \<forall>(g, res) \<in> set evs. \<forall>e. res = Inl e \<longrightarrow> isTimeoutError (Some e) \<Longrightarrow>
   map ppd_Data (fst (tcp_listen t c ctx evs \<sigma>)) = reads evs"
proof (induction t c ctx evs \<sigma> rule: tcp_listen.induct)
  case (2 t c ctx g res evs \<sigma>)
  then have "Cause (g \<sigma>) ctx = None" by auto
  with 2 show ?case by (cases res) (auto simp: Let_def case_prod_beta ctx_Err_def)
qed simp

text \<open>What the TCP proxy reads it reports unchanged, in order and without gaps, as long as its context
  lives and reads only fail by timeout; in any case it reports nothing else. If the two remote
  addresses differ, data read from the client is reported as serverbound from client to server,
  data read from the server the other way round.\<close>

theorem tcp_listen_faithful:
  assumes "\<not> compareNetAddr (tp_client t) (tp_server t)"
  shows "prefix (map ppd_Data (fst (tcp_listen t c ctx evs \<sigma>))) (reads evs) \<and>
     (Cause \<sigma> ctx = None \<longrightarrow> (\<forall>(g, res) \<in> set evs. (\<forall>\<sigma>. Cause \<sigma> ctx = None \<longrightarrow> Cause (g \<sigma>) ctx = None) \<and>
          (\<forall>e. res = Inl e \<longrightarrow> isTimeoutError (Some e))) \<longrightarrow>
        map ppd_Data (fst (tcp_listen t c ctx evs \<sigma>)) = reads evs) \<and>
     (\<forall>p \<in> set (fst (tcp_listen t (tp_client t) ctx evs \<sigma>)).
        ppd_Serverbound p \<and> ppd_Source p = tp_client t \<and> ppd_Dest p = tp_server t) \<and>
     (\<forall>p \<in> set (fst (tcp_listen t (tp_server t) ctx evs \<sigma>)).
        \<not> ppd_Serverbound p \<and> ppd_Source p = tp_server t \<and> ppd_Dest p = tp_client t)"
proof -
  have "compareNetAddr (tp_server t) (tp_server t)" by (simp add: compareNetAddr_def)
  moreover have "\<forall>p \<in> set (fst (tcp_listen t c' ctx evs \<sigma>)). \<exists>d. p = tcp_packet t c' d" for c'
    using tcp_listen_packets by blast
  ultimately show ?thesis
    using assms tcp_listen_prefix [of t c ctx evs \<sigma>] tcp_listen_complete [of \<sigma> ctx evs t c]
    by (fastforce simp: tcp_packet_def)
qed

lemma tcp_listen_faithful_witness:
  "map ppd_Data (fst (tcp_listen (newTcpProxy ex_client ex_server) ex_client 0
     [(id, Inr [1]), (id, Inl (NetError True ''t'')), (id, Inr [2, 3])] (w_ctxs ex_new))) = [[1], [2, 3]]"
proof -
  have "\<not> compareNetAddr (tp_client (newTcpProxy ex_client ex_server)) (tp_server (newTcpProxy ex_client ex_server))"
    by (simp add: compareNetAddr_def newTcpProxy_def ex_addrs)
  from tcp_listen_faithful [OF this, of ex_client 0 "[(id, Inr [1]), (id, Inl (NetError True ''t'')), (id, Inr [2, 3])]" "w_ctxs ex_new"]
  show ?thesis by (simp add: ex_new Cause_def)
qed

section \<open>UDP\<close>

lemma udp_accept_adds:
  assumes "reachable w" "\<forall>from d. px_ok (mk from d)" "ps_currentId w \<noteq> - 1"
    and "udp_accept mk sAddr res w = (k, u)" "GetProxy j u = Inr r"
  shows "GetProxy j w = Inr r \<or> k = j \<and> j = ps_currentId w"
proof (cases "\<exists>source data pc. res = Inr (source, data) \<and> \<not> compareNetAddr sAddr source \<and>
    AddConnection NewProxyContainer (mk source data) w = (Inr pc, u)")
  case True
  then obtain source data pc where r: "res = Inr (source, data)" "\<not> compareNetAddr sAddr source"
      and add: "AddConnection NewProxyContainer (mk source data) w = (Inr pc, u)" by blast
  have px: "px_ok (mk source data)" using assms(2) by blast
  obtain w1 where m: "NewProxyContainer (mk source data) (ps_currentId w) w = (Inr pc, w1)"
    and u: "u = w1\<lparr>ps_currentId := ps_currentId w + 1,
        ps_connections := (ps_connections w)(ps_currentId w \<mapsto> pc), ps_wg := ps_wg w + 1\<rparr>"
    using sp.holds_when_reached [OF assms(1)] px add by (rule container.AddConnection_ok)
  have "k = ps_currentId w"
    using assms(4) r add container.made [OF sp.holds_when_reached [OF assms(1)] px m] by (simp add: udp_accept_def pc_GetId_def u)
  with assms(5) show ?thesis by (cases "j = ps_currentId w") (simp_all add: u)
next
  case False
  have same: "ps_connections u = ps_connections w" if "AddConnection NewProxyContainer px w = (Inl e, u)" for px e
  proof -
    have "ps_connections w1 = ps_connections w" if "NewProxyContainer px (ps_currentId w) w = (x, w1)" for x w1
      using container.maker_same [OF that] by (simp add: spawner_same_def)
    with that show ?thesis
      by (auto simp: AddConnection_def Let_def split: option.splits prod.splits sum.splits)
  qed
  from assms(4) False have "u = w \<or> (\<exists>px e. AddConnection NewProxyContainer px w = (Inl e, u))"
    by (auto simp: udp_accept_def split: sum.splits prod.splits if_splits)
  with same assms(5) show ?thesis by auto
qed

text \<open>C40: The UDP listener keeps at most one connection at a time: while the connection it made last is
  alive, a round changes nothing itself; and a round that adds a connection adds just one, remembers
  exactly its id, and only does so if the remembered connection is gone or dead. A round that ends
  the listener adds none.\<close>

theorem udp_round_single:
  assumes "reachable (g w)" "\<forall>from d. px_ok (mk from d)" "ps_currentId (g w) \<noteq> - 1"
    and "udp_round mk sAddr ctx relisten g res i w = (next_id, v)"
  shows "let live = (i \<noteq> udp_no_proxy \<and> (\<exists>cl. GetProxy i w = Inr cl \<and> pc_IsAlive w cl)) in
     (live \<longrightarrow> next_id = Some i \<and> v = g w) \<and> (next_id = None \<longrightarrow> ps_connections v = ps_connections w) \<and>
     (\<forall>j r. next_id \<noteq> None \<and> GetProxy j v = Inr r \<longrightarrow>
        GetProxy j (g w) = Inr r \<or> next_id = Some j \<and> j = ps_currentId (g w) \<and> \<not> live)"
proof (cases "i \<noteq> udp_no_proxy \<and> (\<exists>cl. GetProxy i w = Inr cl \<and> pc_IsAlive w cl)")
  case True
  with assms(4) show ?thesis by (auto simp: udp_round_def Let_def split: sum.splits)
next
  case False
  obtain k u where a: "udp_accept mk sAddr res (g w) = (k, u)" by fastforce
  from False assms(4) a have "v = u \<and> next_id = Some k \<or> next_id = None \<and> ps_connections v = ps_connections w"
    by (auto simp: udp_round_def Let_def split: if_splits sum.splits option.splits)
  with False udp_accept_adds [OF assms(1-3) a] show ?thesis by (auto simp: Let_def)
qed

lemma udp_round_single_witness:
  "udp_round (\<lambda>_ _. ex_px) ex_server 0 None (\<lambda>w. w) (Inr (ex_client, [1])) 0 ex_conn = (Some 0, ex_conn)"
proof -
  obtain n v where r: "udp_round (\<lambda>_ _. ex_px) ex_server 0 None (\<lambda>w. w) (Inr (ex_client, [1])) 0 ex_conn = (n, v)" by fastforce
  have ok: "\<forall>(a :: addr) (d :: bytes). px_ok ex_px" by simp
  have l: "ps_currentId ex_conn \<noteq> - 1" "(0 :: goint) \<noteq> udp_no_proxy" "GetProxy 0 ex_conn = Inr 0" "pc_IsAlive ex_conn 0"
    by (simp_all add: ex_conn udp_no_proxy_def pc_IsAlive_def Cause_def)
  from udp_round_single [of "\<lambda>w. w", OF ex_conn_reachable ok l(1) r] l have "n = Some 0 \<and> v = ex_conn"
    unfolding Let_def by blast
  with r show ?thesis by simp
qed

section \<open>Versions and configuration\<close>

lemma low_byte: "(v :: u32) AND 0xff = take_bit 8 v"
proof -
  have "(0xff :: u32) = mask 8" by (simp add: mask_eq_exp_minus_1)
  then show ?thesis by (simp add: take_bit_eq_mask)
qed

lemma uint_low_byte: "uint ((v :: u32) AND 0xff) = uint v mod 256"
  unfolding low_byte unsigned_take_bit_eq by (simp add: take_bit_eq_mod)

lemma uint_drop: "uint (drop_bit n (v :: u32)) = uint v div 2 ^ n"
proof -
  have "take_bit 32 (uint v) = uint v" using unsigned_less [of v] by (intro take_bit_int_eq_self) simp_all
  then show ?thesis unfolding unsigned_drop_bit_eq by (simp add: drop_bit_eq_div)
qed

lemma versionToString_parts:
  "versionToString v = Sprintf_d (uint v div 65536 mod 256) @ ''.'' @ Sprintf_d (uint v div 256 mod 256) @ ''r'' @
     Sprintf_d (uint v mod 256) @ (if bit v 31 then ''e'' else [])"
  using and_mask_nonzero [of v 31]
  by (simp add: versionToString_def Let_def uint_low_byte uint_drop versionExperimental_def)

lemma versionToString_at:
  assumes "uint v = major * 65536 + minor * 256 + patch + k * 2 ^ 24"
    "0 \<le> major" "major < 256" "0 \<le> minor" "minor < 256" "0 \<le> patch" "patch < 256"
  shows "versionToString v = Sprintf_d major @ ''.'' @ Sprintf_d minor @ ''r'' @ Sprintf_d patch @ (if bit v 31 then ''e'' else [])"
proof -
  have sum: "uint v = patch + (minor + (major + k * 256) * 256) * 256" using assms(1) by simp
  have d: "uint v div 256 = minor + (major + k * 256) * 256" unfolding sum using assms by simp
  have "uint v div 65536 = uint v div 256 div 256" using zdiv_zmult2_eq [of 256 "uint v" 256] by simp
  also have "\<dots> = major + k * 256" unfolding d using assms by simp
  finally have "uint v div 65536 mod 256 = major" using assms by simp
  moreover have "uint v div 256 mod 256 = minor"
    unfolding d mod_mult_self1 using assms by (simp add: mod_pos_pos_trivial)
  moreover have "uint v mod 256 = patch"
    unfolding sum mod_mult_self1 using assms by (simp add: mod_pos_pos_trivial)
  ultimately show ?thesis unfolding versionToString_parts by simp
qed

lemma u32_of_int:
  assumes "0 \<le> y" "y < 2 ^ 32"
  shows "uint (of_int y :: u32) = y" "bit (of_int y :: u32) 31 = odd (y div 2 ^ 31)"
proof -
  show u: "uint (of_int y :: u32) = y" using assms by (simp add: uint_word_of_int_eq take_bit_int_eq_self)
  show "bit (of_int y :: u32) 31 = odd (y div 2 ^ 31)"
    using u by (metis bit_iff_odd bit_uint_iff len_gt_0 bit_imp_le_length)
qed

text \<open>A version with major, minor and revision below 256 is printed as the three numbers, and with a
  final \<open>e\<close> exactly if the experimental bit is set.\<close>

theorem versionToString_fields:
  assumes "0 \<le> major" "major < 256" "0 \<le> minor" "minor < 256" "0 \<le> patch" "patch < 256"
  shows "versionToString (of_int (major * 65536 + minor * 256 + patch)) =
       Sprintf_d major @ ''.'' @ Sprintf_d minor @ ''r'' @ Sprintf_d patch \<and>
     versionToString (of_int (2 ^ 31 + major * 65536 + minor * 256 + patch)) =
       Sprintf_d major @ ''.'' @ Sprintf_d minor @ ''r'' @ Sprintf_d patch @ ''e''"
proof -
  let ?x = "major * 65536 + minor * 256 + patch"
  have x: "0 \<le> ?x" "?x < 2 ^ 24" using assms by simp_all
  have "\<not> bit (of_int ?x :: u32) 31" "uint (of_int ?x :: u32) = ?x + 0 * 2 ^ 24"
    using x u32_of_int [of ?x] by simp_all
  with versionToString_at [of "of_int ?x", OF this(2) assms] have "versionToString (of_int ?x) =
      Sprintf_d major @ ''.'' @ Sprintf_d minor @ ''r'' @ Sprintf_d patch" by simp
  moreover obtain y where y: "y = 2 ^ 31 + ?x" by simp
  then have "0 \<le> y" "y < 2 ^ 32" "y div 2 ^ 31 = 1" "y = ?x + 128 * 2 ^ 24" using x by (simp_all add: div_pos_geq)
  then have bit: "bit (of_int y :: u32) 31" and "uint (of_int y :: u32) = ?x + 128 * 2 ^ 24"
    using u32_of_int [of y] by simp_all
  with versionToString_at [of "of_int y", OF this(2) assms]
  have "versionToString (of_int y) = Sprintf_d major @ ''.'' @ Sprintf_d minor @ ''r'' @ Sprintf_d patch @ ''e''" by simp
  ultimately show ?thesis by (simp add: y add.assoc)
qed

lemma versionToString_fields_witness: "versionToString 0x80020201 = Sprintf_d 2 @ ''.'' @ Sprintf_d 2 @ ''r'' @ Sprintf_d 1 @ ''e''"
  using versionToString_fields [of 2 2 1] by simp

text \<open>The emptiness check is inverted: a configuration in which nothing is set passes it and is loaded,
  while one that sets all three addresses, but neither API options, log level nor debug options, is
  rejected as empty.\<close>

theorem loadCfg_emptiness:
  assumes "unmarshal data = Inr cfg"
  shows "loadCfg (Inr data) unmarshal =
     (if cd_Api_Enable cfg \<or> cd_Api_UseAuth cfg \<or> cd_Logging_Level cfg \<noteq> [] \<or> cd_Debug_Enable cfg \<or>
         cd_Debug_ApiKey cfg \<noteq> 0 \<or>
         (\<exists>c \<in> {cd_ProxyAddress cfg, cd_ServerAddress cfg, cd_Api_Address cfg}. ca_Address c = [] \<and> ca_Port c = 0)
      then Some cfg else None)"
  using assms by (auto simp: loadCfg_def ConfigData_IsEmpty_def ConfigAddress_IsEmpty_def)

definition ex_zero_cfg :: ConfigData where
  "ex_zero_cfg = \<lparr>cd_ProxyAddress = \<lparr>ca_Address = [], ca_Port = 0\<rparr>, cd_ServerAddress = \<lparr>ca_Address = [], ca_Port = 0\<rparr>,
     cd_Api_Enable = False, cd_Api_UseAuth = False, cd_Api_Address = \<lparr>ca_Address = [], ca_Port = 0\<rparr>, cd_Logging_Level = [],
     cd_Lua_Enable = False, cd_Lua_Path = [], cd_Lua_Mode = [], cd_Debug_Enable = False, cd_Debug_ApiKey = 0\<rparr>"

lemma loadCfg_emptiness_witness: "loadCfg (Inr []) (\<lambda>_. Inr ex_zero_cfg) = Some ex_zero_cfg"
  using loadCfg_emptiness [of "\<lambda>_. Inr ex_zero_cfg" "[]" ex_zero_cfg] by (simp add: ex_zero_cfg_def)

lemma setup_stages:
  assumes "setupSpawnerAndApi local resolve log early cfg \<sigma> e now = Some (Some r)" "WithCancelCause None \<sigma> = (ctx, \<tau>)"
  shows "\<exists>sv px ps. NewProxySpawnerWithContainer sv px (Some ctx) 2 early \<tau> e now = Inr ps \<and>
    setup_api local cfg (SetErrorCallback (Some log) ps) = Some (Some r)"
proof -
  from assms(1) obtain ps1 px where p: "ConfigAddress_ToString local (cd_ProxyAddress cfg) = Some ps1" "resolve ps1 = Inr px"
    by (cases "ConfigAddress_ToString local (cd_ProxyAddress cfg)"; cases "resolve (the (ConfigAddress_ToString local (cd_ProxyAddress cfg)))")
      (auto simp: setupSpawnerAndApi_def)
  from assms(1) p obtain ps2 sv where v: "ConfigAddress_ToString local (cd_ServerAddress cfg) = Some ps2" "resolve ps2 = Inr sv"
    by (cases "ConfigAddress_ToString local (cd_ServerAddress cfg)"; cases "resolve (the (ConfigAddress_ToString local (cd_ServerAddress cfg)))")
      (auto simp: setupSpawnerAndApi_def)
  show ?thesis
    using assms p v
    by (cases "NewProxySpawnerWithContainer sv px (Some ctx) 2 early \<tau> e now") (auto simp: setupSpawnerAndApi_def)
qed

lemma NewWebApi_result:
  assumes "NewWebApi u \<sigma> = (a, \<rho>)"
  shows "\<rho> = snd (WithCancelCause None \<sigma>) \<and> wa_auth a = (if u then Some Map.empty else None)"
  using assms by (auto simp: NewWebApi_def Let_def documentEndpoint_def newAuthLookup_def split: prod.splits)

lemma setup_api_enabled:
  assumes "setup_api local cfg ps = Some (Some (w, web))" "cd_Api_Enable cfg"
  shows "w = ps\<lparr>w_ctxs := snd (WithCancelCause None (w_ctxs ps))\<rparr> \<and> (\<exists>a. web = Some a \<and> wa_auth a =
    (if \<not> cd_Api_UseAuth cfg then None
     else Some (if cd_Debug_Enable cfg then [cd_Debug_ApiKey cfg \<mapsto> AuthAll] else Map.empty)))"
proof -
  obtain a \<rho> where a: "NewWebApi (cd_Api_UseAuth cfg) (w_ctxs ps) = (a, \<rho>)" by fastforce
  from NewWebApi_result [OF this] assms show ?thesis
    unfolding setup_api_def a
    by (auto simp: AddAuth_def addKey_def addKeyInt_def bind_res_def Option.bind_eq_Some_conv Let_def
        split: if_splits sum.splits)
qed

text \<open>What the program starts with, when it starts: a live spawner in a state that it can reach, with the logging error callback; an API exactly if it is enabled; and with
  authentication on, no key at all, except that in debug mode the configured key has every
  permission.\<close>

theorem setup_result:
  assumes "setupSpawnerAndApi local resolve log early cfg [] e now = Some (Some (w, web))" "err_cb_ok log"
    and "\<And>u. sp_inv u \<Longrightarrow> spawner_step\<^sup>*\<^sup>* u (early u)"
  shows "reachable w \<and> IsAlive w \<and> ps_errorCallback w = Some log \<and>
     (web \<noteq> None \<longleftrightarrow> cd_Api_Enable cfg) \<and>
     (\<forall>a. web = Some a \<longrightarrow>
        (if \<not> cd_Api_UseAuth cfg then wa_auth a = None
         else wa_auth a = Some (if cd_Debug_Enable cfg then [cd_Debug_ApiKey cfg \<mapsto> AuthAll] else Map.empty)))"
proof -
  obtain ctx \<tau> where new: "WithCancelCause None [] = (ctx, \<tau>)" by fastforce
  then have \<tau>: "ctx_wf \<tau>" "ctx < length \<tau>"
    using WithCancelCause_wf [OF new] by (auto simp: WithCancelCause_def)
  from setup_stages [OF assms(1) new]
  obtain sv px ps where n: "NewProxySpawnerWithContainer sv px (Some ctx) 2 early \<tau> e now = Inr ps"
    and s: "setup_api local cfg (SetErrorCallback (Some log) ps) = Some (Some (w, web))" by blast
  have reach0: "reachable ps" by (rule constructor_reachable [OF \<tau>(1) _ n assms(3)]) (use \<tau>(2) in simp_all)
  have "reachable (SetErrorCallback (Some log) ps)"
    using reach0 by (rule reach_next) (rule step_error_cb, use assms(2) in simp)
  then have reach1: "reachable (w_put (snd (WithCancelCause None (w_ctxs ps)), w_env ps) (SetErrorCallback (Some log) ps))"
  proof (rule reach_next)
    let ?f = "\<lambda>x. (snd (WithCancelCause None (fst x)), snd x) :: 'a ext"
    have "ext_respects ?f"
      unfolding ext_respects_def fst_conv
    proof (intro allI impI)
      fix x :: "'a ext"
      assume wf: "ctx_wf (fst x)"
      obtain c \<rho> where w: "WithCancelCause None (fst x) = (c, \<rho>)" by fastforce
      from WithCancelCause_wf [OF w wf] WithCancelCause_le [OF w]
      show "ctx_wf (snd (WithCancelCause None (fst x))) \<and> ctx_le (fst x) (snd (WithCancelCause None (fst x)))"
        by (simp add: w)
    qed
    from step_outside [OF this, of "SetErrorCallback (Some log) ps"]
    show "spawner_step (SetErrorCallback (Some log) ps)
        (w_put (snd (WithCancelCause None (w_ctxs ps)), w_env ps) (SetErrorCallback (Some log) ps))"
      by (simp add: w_ext_def SetErrorCallback_def)
  qed
  have alive: "Cause (w_ctxs ps) (ps_context ps) = None"
    using n by (auto simp: constructor_Inr)
  have root: "ps_context ps < length (w_ctxs ps)"
    using sp.holds_when_reached [OF reach0] by (simp add: sp_inv_def inv_ctx_def)
  show ?thesis
  proof (cases "cd_Api_Enable cfg")
    case False
    with s \<open>reachable (SetErrorCallback (Some log) ps)\<close> alive show ?thesis
      by (auto simp: SetErrorCallback_def IsAlive_def setup_api_def)
  next
    case True
    from setup_api_enabled [OF s True] obtain \<rho> where rho: "\<rho> = snd (WithCancelCause None (w_ctxs ps))"
      and w: "w = (SetErrorCallback (Some log) ps)\<lparr>w_ctxs := \<rho>\<rparr>"
      and web: "\<exists>a. web = Some a \<and> wa_auth a = (if \<not> cd_Api_UseAuth cfg then None
         else Some (if cd_Debug_Enable cfg then [cd_Debug_ApiKey cfg \<mapsto> AuthAll] else Map.empty))"
      by (auto simp: SetErrorCallback_def)
    have "w = w_put (\<rho>, w_env ps) (SetErrorCallback (Some log) ps)"
      by (simp add: w w_put_def SetErrorCallback_def)
    with reach1 rho have "reachable w" by simp
    moreover have "Cause \<rho> (ps_context ps) = None"
      using alive root by (simp add: rho WithCancelCause_def Cause_append)
    ultimately show ?thesis
      using True web w by (auto simp: IsAlive_def SetErrorCallback_def)
  qed
qed

definition ex_live_cfg :: ConfigData where
  "ex_live_cfg = ex_zero_cfg\<lparr>cd_ProxyAddress := \<lparr>ca_Address = ''p'', ca_Port = 1\<rparr>,
     cd_ServerAddress := \<lparr>ca_Address = ''s'', ca_Port = 2\<rparr>, cd_Api_Address := \<lparr>ca_Address = ''a'', ca_Port = 3\<rparr>,
     cd_Api_Enable := True, cd_Api_UseAuth := True, cd_Debug_Enable := True, cd_Debug_ApiKey := 7\<rparr>"

abbreviation ex_setup :: "(unit world \<times> WebApi option) option may_panic" where
  "ex_setup \<equiv> setupSpawnerAndApi (Inl (ErrNew [])) (\<lambda>s. Inr (if hd s = CHR ''p'' then ex_proxy else ex_server)) (\<lambda>_ _ x. x) (\<lambda>w. w) ex_live_cfg [] () 0"

lemma ex_setup_starts: "\<exists>r. ex_setup = Some (Some r)"
  by (simp add: setupSpawnerAndApi_def setup_api_def ConfigAddress_ToString_def ex_live_cfg_def ex_zero_cfg_def ex_addrs
      WithCancelCause_def Cause_def NewProxySpawnerWithContainer_def new_spawner_def NewWebApi_def documentEndpoint_def newAuthLookup_def
      AddAuth_def addKey_def addKeyInt_def bind_res_def)

lemma setup_result_witness:
  "\<exists>w a. ex_setup = Some (Some (w, Some a)) \<and> reachable w \<and> IsAlive w \<and> wa_auth a = Some [7 \<mapsto> AuthAll]"
proof -
  from ex_setup_starts obtain w web where s: "ex_setup = Some (Some (w, web))" by fastforce
  moreover have "err_cb_ok (\<lambda>_ _ x :: unit ext. x)" by (simp add: err_cb_ok_def ext_respects_def)
  note setup_result [OF s this]
  ultimately show ?thesis by (auto simp: ex_live_cfg_def)
qed

end
