(* ===== verification/WsLoops.thy ===== *)
theory WsLoops
  imports WsProps LifecycleProps
begin

text \<open>
  The two loops around a web socket in \<open>api/websocket.go\<close>: \<open>recv\<close>, which passes packets of the
  receive channel on to the client, and \<open>listen\<close>, which reads the client's messages. Both run in
  goroutines of their own; what the rest of the program does while one of them blocks comes with
  each of its rounds.
\<close>

section \<open>\<open>recv\<close>\<close>

text \<open>
  What the \<open>select\<close> chooses: a packet, the zero value that a closed channel yields at once and
  again and again, or the end of the socket's context. Source and destination of the zero value
  are nil and are not read here.
\<close>

datatype recv_event = RecvPkt PacketChanData | RecvClosed | RecvDone

definition zero_packet :: PacketChanData where
  "zero_packet = \<lparr>pcd_Flags = 0, pcd_Source = \<lparr>addr_Network = [], addr_String = []\<rparr>,
     pcd_Dest = \<lparr>addr_Network = [], addr_String = []\<rparr>, pcd_Data = [], pcd_ProxyId = 0\<rparr>"

text \<open>
  A round is the change of the socket while the loop blocks, the spawner at that time, and the
  event. The flag in the result says whether the loop has returned.
\<close>

fun ws_recv ::
  "(ws_msg \<Rightarrow> err option) \<Rightarrow> ((wsApi \<Rightarrow> wsApi) \<times> 'e world \<times> recv_event) list \<Rightarrow> wsApi \<Rightarrow> (bool \<times> wsApi) may_panic"
where
  "ws_recv wr [] ws = Some (False, ws)"
| "ws_recv wr ((g, w, ev) # rounds) ws =
     (case ev of
        RecvPkt pkt \<Rightarrow> do { ws1 \<leftarrow> ws_recv_packet wr pkt w (g ws); ws_recv wr rounds ws1 }
      | RecvClosed \<Rightarrow> do { ws1 \<leftarrow> ws_recv_packet wr zero_packet w (g ws); ws_recv wr rounds ws1 }
      | RecvDone \<Rightarrow> Some (True, g ws))"

section \<open>\<open>listen\<close>\<close>

text \<open>
  One round: what happens while \<open>Read\<close> blocks, the result of \<open>Read\<close> (an error, or whether the
  message is text, and its bytes), the orders in which broadcasts range over the connections,
  and, should the message make the goroutine block on \<open>filterChan\<close>, what happens until another
  goroutine receives from it (\<open>None\<close>: none ever does).
\<close>

record 'e read_round =
  rr_before :: "wsApi \<times> 'e world \<Rightarrow> wsApi \<times> 'e world"
  rr_read :: "err + bool \<times> bytes"
  rr_order :: "goint list"
  rr_order2 :: "goint list"
  rr_signal :: "(wsApi \<times> 'e world \<Rightarrow> wsApi \<times> 'e world) option"

datatype listen_end = ListenReturned "err option" | ListenBlocked | ListenRunning

fun ws_listen ::
  "(ws_msg \<Rightarrow> err option) \<Rightarrow> (bytes \<Rightarrow> wsClientMsg option) \<Rightarrow> 'e read_round list \<Rightarrow> wsApi \<times> 'e world \<Rightarrow>
   (listen_end \<times> wsApi \<times> 'e world) may_panic"
where
  "ws_listen wr unmarshal [] (ws, w) = Some (ListenRunning, ws, w)"
| "ws_listen wr unmarshal (rr # rounds) (ws, w) =
     (if ctx_Err (w_ctxs w) (ws_ctx ws) \<noteq> None then Some (ListenReturned None, ws, ws_Close ws w)
      else (let (ws1, w1) = rr_before rr (ws, w) in
        case rr_read rr of
          Inl err \<Rightarrow>
            if errors_Is err DeadlineExceeded then ws_listen wr unmarshal rounds (ws1, w1)
            else if errors_Is err Canceled then Some (ListenReturned None, ws1, ws_Close ws1 w1)
            else Some (ListenReturned (Some err), ws1, ws_Close ws1 w1)
        | Inr (isText, data) \<Rightarrow> do {
            (blocked, ws2, w2) \<leftarrow> handleClientAction wr unmarshal (rr_order rr) (rr_order2 rr) isText data ws1 w1;
            if blocked
            then (case rr_signal rr of
                    None \<Rightarrow> Some (ListenBlocked, ws2, w2)
                  | Some g \<Rightarrow> ws_listen wr unmarshal rounds (g (ws2, w2)))
            else ws_listen wr unmarshal rounds (ws2, w2)
          }))"

section \<open>A closed receive channel\<close>

lemma pc_view_later:
  assumes "w_later w v" "r < length (w_pcs w)"
  shows "pc_view v r = pc_view w r"
  using w_laterD(2,3) [OF assms(1)] assms(2)
  by (simp add: pc_view_def pc_GetId_def pc_Network_def pc_GetClientAddr_def pc_GetServerAddr_def
      tables_later_def pcs_later_def)

lemma close_chans_connections: "close_chans is w = Some v \<Longrightarrow> ps_connections v = ps_connections w"
  by (induction "is" arbitrary: w) (auto simp: Let_def split: if_splits)

lemma Close_start_connections: "Close_start w = Some v \<Longrightarrow> ps_connections v = ps_connections w"
  by (auto simp: Close_start_def Option.bind_eq_Some_conv dest: close_chans_connections)

lemma connection_container:
  "sp_inv w \<Longrightarrow> GetProxy i w = Inr r \<Longrightarrow> r < length (w_pcs w)"
  by (auto simp: sp_inv_def inv_conns_def GetProxy_def split: option.splits)

lemma ws_recv_packet_up:
  assumes "GetProxy (pcd_ProxyId p) w = Inr px" "matchesNetworkFilter ws (pc_view w px)" "wr = (\<lambda>_. None)"
  shows "ws_recv_packet wr p w ws = Some (ws\<lparr>ws_log := ws_log ws @
    [WsServerMsg 200 wsServerPacket (WsPkt (ws_packet (- 1) (pcd_Data p) (pcd_Flags p) (pc_view w px)))]\<rparr>)"
  unfolding ws_recv_packet_def assms(1) assms(3)
  using assms(2) by (simp add: handleRecv_def sendPkt_def ws_sendPacket_def ws_sendRaw_def Let_def)

text \<open>C38: After the spawner was closed, a socket without a filter floods its client if connection 0 is still
  in the table: the closed channel gives the loop a zero packet in every round, whose proxy id 0
  stands for that connection, so that each round writes an empty packet that nobody sent. The
  table keeps the connection, because the pruner ends with the spawner.\<close>

theorem ws_recv_floods:
  assumes "reachable w" "Close_start w = Some v" "GetProxy 0 w = Inr px"
    and "matchesNetworkFilter ws (pc_view w px)"
  shows "\<exists>pkt. wp_Data pkt = [] \<and> wp_ProxyId pkt = 0 \<and>
    ws_recv (\<lambda>_. None) (replicate n (\<lambda>s. s, v, RecvClosed)) ws =
      Some (False, ws\<lparr>ws_log := ws_log ws @ replicate n (WsServerMsg 200 wsServerPacket (WsPkt pkt))\<rparr>)"
proof -
  have inv: "sp_inv w" using assms(1) by (rule sp.holds_when_reached)
  let ?pkt = "ws_packet (- 1) [] 0 (pc_view w px)"
  have px: "px < length (w_pcs w)" using inv assms(3) by (rule connection_container)
  have view: "pc_view v px = pc_view w px" using Close_start_later [OF assms(2)] px by (rule pc_view_later)
  have found: "GetProxy 0 v = Inr px"
    using assms(3) by (simp add: GetProxy_def Close_start_connections [OF assms(2)])
  have id: "pi_GetId (pc_view w px) = 0"
    using inv assms(3) by (auto simp: sp_inv_def inv_conns_def GetProxy_def pc_view_def pc_GetId_def split: option.splits)
  have round: "ws_recv_packet (\<lambda>_. None) zero_packet v s = Some (s\<lparr>ws_log := ws_log s @
      [WsServerMsg 200 wsServerPacket (WsPkt ?pkt)]\<rparr>)" if "ws_networkFilter s = ws_networkFilter ws" for s
    using ws_recv_packet_up [of zero_packet v px s] found assms(4) that
    by (simp add: zero_packet_def view matchesNetworkFilter_def)
  have "ws_recv (\<lambda>_. None) (replicate n (\<lambda>s. s, v, RecvClosed)) s =
      Some (False, s\<lparr>ws_log := ws_log s @ replicate n (WsServerMsg 200 wsServerPacket (WsPkt ?pkt))\<rparr>)"
    if "ws_networkFilter s = ws_networkFilter ws" for s
    using that by (induction n arbitrary: s) (simp_all add: round)
  then have "ws_recv (\<lambda>_. None) (replicate n (\<lambda>s. s, v, RecvClosed)) ws =
      Some (False, ws\<lparr>ws_log := ws_log ws @ replicate n (WsServerMsg 200 wsServerPacket (WsPkt ?pkt))\<rparr>)" by simp
  with id show ?thesis by (intro exI [of _ ?pkt]) (simp add: ws_packet_def)
qed

lemma ex_closed_start: "Close_start ex_chans = Some ex_closed"
proof -
  have "close_chans (ps_rcChan ex_chans) ex_chans \<noteq> None"
    using close_chans_panics_iff [of "ps_rcChan ex_chans" ex_chans] by (simp add: ex_chans ex_conn ex_new)
  then show ?thesis by (auto simp: ex_closed_def Close_start_def)
qed

lemma ws_recv_floods_witness:
  "\<exists>pkt. wp_Data pkt = [] \<and> wp_ProxyId pkt = 0 \<and>
    ws_recv (\<lambda>_. None) (replicate 2 (\<lambda>s. s, ex_closed, RecvClosed)) (new_ws 1) =
      Some (False, (new_ws 1)\<lparr>ws_log := replicate 2 (WsServerMsg 200 wsServerPacket (WsPkt pkt))\<rparr>)"
proof -
  have "GetProxy 0 ex_chans = Inr 0" by (simp add: ex_chans_sel GetProxy_def)
  moreover have "matchesNetworkFilter (new_ws 1) (pc_view ex_chans 0)" by (simp add: matchesNetworkFilter_def new_ws_def)
  ultimately show ?thesis
    using ws_recv_floods [OF ex_chans_reachable ex_closed_start, of 0 "new_ws 1" 2] by (simp add: new_ws_def)
qed

section \<open>A socket that may only read\<close>

definition read_only :: "wsApi \<Rightarrow> bool" where
  "read_only ws \<longleftrightarrow> \<not> ws_canInject ws \<and> \<not> ws_canFilter ws \<and> \<not> ws_canClose ws"

lemma sendRaw_abilities:
  "ws_sendRaw wr st ty d ws = Some (e, ws') \<Longrightarrow> read_only ws' = read_only ws"
  by (drule sendRaw_log) (auto simp: read_only_def)

lemma answer_error_read_only:
  "answer_error wr st m ws w = Some (blk, ws', w') \<Longrightarrow> \<not> blk \<and> w' = w \<and> read_only ws' = read_only ws"
  by (auto simp: answer_error_def ws_sendError_def Option.bind_eq_Some_conv dest: sendRaw_abilities)

lemma handleClientAction_read_only:
  assumes "handleClientAction wr um ks ks' t data ws w = Some (blk, ws', w')" "read_only ws"
  shows "\<not> blk \<and> w' = w \<and> read_only ws'"
proof -
  from assms(2) have "\<not> ws_canInject ws" "\<not> ws_canFilter ws" "\<not> ws_canClose ws" by (simp_all add: read_only_def)
  then have "\<exists>st msg. handleClientAction wr um ks ks' t data ws w = answer_error wr st msg ws w"
    unfolding handleClientAction_def action_inject_def action_close_def action_filter_def
    by (cases t; cases "um data") (auto split: if_splits)
  with assms show ?thesis by (metis answer_error_read_only)
qed

text \<open>What the rest of the program does during a round keeps a property of the spawner.\<close>

definition round_keeps :: "('e world \<Rightarrow> bool) \<Rightarrow> 'e read_round \<Rightarrow> bool" where
  "round_keeps I rr \<longleftrightarrow> (\<forall>s u. read_only s \<and> I u \<longrightarrow>
     read_only (fst (rr_before rr (s, u))) \<and> I (snd (rr_before rr (s, u))))"

text \<open>C37: A client that was given no abilities cannot change the program, whatever it sends and for however
  long: through a whole session every property of the spawner that the rest of the program keeps
  is kept, up to the closing of the socket's own contexts at the end, and its messages never
  block the reading goroutine.\<close>

theorem read_only_session:
  assumes "ws_listen wr unmarshal rounds (ws, w) = Some (out, ws', w')" "read_only ws" "I w"
    and "\<forall>rr \<in> set rounds. round_keeps I rr"
  shows "out \<noteq> ListenBlocked \<and> read_only ws' \<and>
    (if out = ListenRunning then I w' else \<exists>u. I u \<and> w' = ws_Close ws' u)"
  using assms
proof (induction rounds arbitrary: ws w)
  case Nil
  then show ?case by simp
next
  case (Cons rr rounds)
  obtain ws1 w1 where b: "rr_before rr (ws, w) = (ws1, w1)" by fastforce
  have keeps: "round_keeps I rr" "\<forall>rr \<in> set rounds. round_keeps I rr" using Cons.prems(4) by simp_all
  from keeps(1) b Cons.prems(2,3) have ok: "read_only ws1" "I w1" unfolding round_keeps_def by (metis fst_conv snd_conv)+
  have next_round: ?case if "ws_listen wr unmarshal rounds (s, u) = Some (out, ws', w')" "read_only s" "I u" for s u
    using that keeps(2) by (rule Cons.IH)
  show ?case
  proof (cases "ctx_Err (w_ctxs w) (ws_ctx ws) \<noteq> None")
    case True
    with Cons.prems(1,2,3) show ?thesis by auto
  next
    case alive: False
    show ?thesis
    proof (cases "rr_read rr")
      case (Inl err)
      with Cons.prems(1) alive b ok next_round show ?thesis
        by (cases "errors_Is err DeadlineExceeded"; cases "errors_Is err Canceled") auto
    next
      case (Inr m)
      obtain t data where m: "m = (t, data)" by fastforce
      let ?act = "handleClientAction wr unmarshal (rr_order rr) (rr_order2 rr) t data ws1 w1"
      from Cons.prems(1) alive b Inr m obtain blk ws2 w2 where a: "?act = Some (blk, ws2, w2)"
        by (cases ?act) (auto simp: Let_def)
      from handleClientAction_read_only [OF this ok(1)] have q: "\<not> blk" "w2 = w1" "read_only ws2" by simp_all
      with Cons.prems(1) alive b Inr m a have "ws_listen wr unmarshal rounds (ws2, w1) = Some (out, ws', w')"
        by simp
      then show ?thesis using q(3) ok(2) by (rule next_round)
    qed
  qed
qed

definition ex_round :: "bytes list read_round" where
  "ex_round = \<lparr>rr_before = (\<lambda>x. x), rr_read = Inl IoEOF, rr_order = [], rr_order2 = [], rr_signal = None\<rparr>"

lemma read_only_session_witness:
  "\<exists>out ws'. ws_listen (\<lambda>_. None) (\<lambda>_. None) [ex_round] (new_ws 1, ex_conn) = Some (out, ws', ws_Close ws' ex_conn) \<and> read_only ws'"
proof -
  have l: "ws_listen (\<lambda>_. None) (\<lambda>_. None) [ex_round] (new_ws 1, ex_conn) =
      Some (ListenReturned (Some IoEOF), new_ws 1, ws_Close (new_ws 1) ex_conn)"
    by (simp add: ex_round_def new_ws_def ex_conn ctx_Err_def Cause_def)
  have "read_only (new_ws 1)" by (simp add: read_only_def new_ws_def)
  from read_only_session [OF l this, of "\<lambda>u. u = ex_conn"] l show ?thesis by (auto simp: ex_round_def round_keeps_def)
qed

end
