(* ===== verification/Interleave.thy ===== *)
theory Interleave
  imports SpawnerProps
begin

text \<open>
  What the atomic operations hide. \<open>HandleSend\<close> and \<open>Close\<close> share the receive channels, and two
  calls of \<open>HandleSend\<close> share the filter callback, without a common lock. Here their bodies are
  cut into the single statements between which other goroutines run. On its own each sequence of
  statements is the atomic operation; interleaved, two of them can panic.
\<close>

section \<open>The loop over the receive channels, statement by statement\<close>

text \<open>
  \<open>ChkChan\<close> is about to evaluate \<open>v.ctx.Err()\<close> of the first channel of the rest of the range,
  \<open>SendChan\<close> about to execute the \<open>select\<close> on the channel it has found alive.
\<close>

datatype sender_pc = ChkChan "nat list" | SendChan nat "nat list" | SendDone | SendPanics

fun sender_step :: "PacketChanData \<Rightarrow> sender_pc \<times> 'e world \<Rightarrow> sender_pc \<times> 'e world" where
  "sender_step p (ChkChan [], w) = (SendDone, w)"
| "sender_step p (ChkChan (i # is), w) =
     (if ctx_Err (w_ctxs w) (rc_ctx (w_chans w ! i)) = None then SendChan i is else ChkChan is, w)"
| "sender_step p (SendChan i is, w) =
     (let v = w_chans w ! i in
      if rc_closed v then (SendPanics, w)
      else (ChkChan is,
            case rc_parked v of
              0 \<Rightarrow> w
            | Suc n \<Rightarrow> w\<lparr>w_chans := (w_chans w)[i := v\<lparr>rc_parked := n, rc_got := rc_got v @ [p]\<rparr>]\<rparr>))"
| "sender_step p (SendDone, w) = (SendDone, w)"
| "sender_step p (SendPanics, w) = (SendPanics, w)"

text \<open>The loop of \<open>Close\<close> and its last statement before it waits: \<open>v.cancel()\<close>, then \<open>close(v.Recv)\<close>.\<close>

datatype closer_pc = CancelChan "nat list" | CloseChan nat "nat list" | CloseDone | ClosePanics

fun closer_step :: "closer_pc \<times> 'e world \<Rightarrow> closer_pc \<times> 'e world" where
  "closer_step (CancelChan [], w) = (CloseDone, w_cancel (ps_context w) (Some ErrSpawnerClosedOk) w)"
| "closer_step (CancelChan (i # is), w) = (CloseChan i is, w_cancel (rc_ctx (w_chans w ! i)) None w)"
| "closer_step (CloseChan i is, w) =
     (let v = w_chans w ! i in
      if rc_closed v then (ClosePanics, w)
      else (CancelChan is, w\<lparr>w_chans := (w_chans w)[i := v\<lparr>rc_closed := True\<rparr>]\<rparr>))"
| "closer_step (CloseDone, w) = (CloseDone, w)"
| "closer_step (ClosePanics, w) = (ClosePanics, w)"

section \<open>The filter callback, statement by statement\<close>

text \<open>
  The middle of \<open>HandleSend\<close>: the test of \<open>sendCallback\<close>, \<open>callbackCtx.Err()\<close>, the log message that
  reads \<open>callbackCtx\<close> again, the call of \<open>callbackCancel\<close>, the three assignments of nil, and the
  call of the callback. \<open>FGo\<close> is the end, with the answer whether the packet goes on.
\<close>

datatype filter_pc = FTest | FErr | FLog | FCancel | FNilCancel | FNilCtx | FNilCb | FCall | FGo bool | FPanics

fun filter_stmt :: "bytes \<Rightarrow> CapFlags \<Rightarrow> nat \<Rightarrow> filter_pc \<times> 'e world \<Rightarrow> filter_pc \<times> 'e world" where
  "filter_stmt data flags r (FTest, w) =
     (case ps_sendCallback w of None \<Rightarrow> (FGo True, w) | Some _ \<Rightarrow> (FErr, w))"
| "filter_stmt data flags r (FErr, w) =
     (case ps_callbackCtx w of
        None \<Rightarrow> (FPanics, w)
      | Some c \<Rightarrow> (if ctx_Err (w_ctxs w) c \<noteq> None then FLog else FCall, w))"
| "filter_stmt data flags r (FLog, w) =
     (case ps_callbackCtx w of None \<Rightarrow> (FPanics, w) | Some _ \<Rightarrow> (FCancel, w))"
| "filter_stmt data flags r (FCancel, w) =
     (case ps_callbackCancel w of None \<Rightarrow> (FPanics, w) | Some c \<Rightarrow> (FNilCancel, w_cancel c None w))"
| "filter_stmt data flags r (FNilCancel, w) = (FNilCtx, w\<lparr>ps_callbackCancel := None\<rparr>)"
| "filter_stmt data flags r (FNilCtx, w) = (FNilCb, w\<lparr>ps_callbackCtx := None\<rparr>)"
| "filter_stmt data flags r (FNilCb, w) = (FGo True, w\<lparr>ps_sendCallback := None\<rparr>)"
| "filter_stmt data flags r (FCall, w) =
     (case ps_sendCallback w of
        None \<Rightarrow> (FPanics, w)
      | Some cb \<Rightarrow> (let (cbResult, x) = cb data flags (pc_view w r) (w_ext w)
                    in (FGo (cbResult \<or> IsInjected flags), w_put x w)))"
| "filter_stmt data flags r (FGo b, w) = (FGo b, w)"
| "filter_stmt data flags r (FPanics, w) = (FPanics, w)"

section \<open>Alone, the statements are the operation\<close>

lemma funpow_fixed: "f x = x \<Longrightarrow> (f ^^ n) x = x"
  by (induction n) simp_all

lemma sender_alone:
  "let r = (sender_step p ^^ (2 * length is + 1)) (ChkChan is, w) in
   case send_to_chans p (w_ctxs w) is (w_chans w) of
     Some chans \<Rightarrow> r = (SendDone, w\<lparr>w_chans := chans\<rparr>)
   | None \<Rightarrow> fst r = SendPanics"
proof (induction "is" arbitrary: w)
  case Nil
  then show ?case by simp
next
  case (Cons i "is")
  let ?v = "w_chans w ! i"
  have steps: "(sender_step p ^^ (2 * length (i # is) + 1)) s =
      (sender_step p ^^ (2 * length is + 1)) (sender_step p (sender_step p s))" for s :: "sender_pc \<times> 'a world"
    by (simp add: funpow_swap1)
  have early: "(sender_step p ^^ (2 * length (i # is) + 1)) s =
      sender_step p ((sender_step p ^^ (2 * length is + 1)) (sender_step p s))" for s :: "sender_pc \<times> 'a world"
    by (simp add: funpow_swap1)
  show ?case
  proof (cases "ctx_Err (w_ctxs w) (rc_ctx ?v) = None")
    case False
    then show ?thesis
      using Cons.IH [of w] unfolding early
      by (cases "(sender_step p ^^ (2 * length is + 1)) (ChkChan is, w)")
        (auto simp: Let_def split: option.splits)
  next
    case alive: True
    show ?thesis
    proof (cases "rc_closed ?v")
      case True
      with alive show ?thesis unfolding steps by (simp add: funpow_fixed)
    next
      case False
      with alive Cons.IH [of w]
        Cons.IH [of "w\<lparr>w_chans := (w_chans w)[i := ?v\<lparr>rc_parked := rc_parked ?v - 1, rc_got := rc_got ?v @ [p]\<rparr>]\<rparr>"]
      show ?thesis unfolding steps by (auto simp: Let_def split: nat.splits option.splits)
    qed
  qed
qed

lemma closer_alone:
  "let r = (closer_step ^^ (2 * length is + 1)) (CancelChan is, w) in
   case close_chans is w of
     Some v \<Rightarrow> r = (CloseDone, w_cancel (ps_context v) (Some ErrSpawnerClosedOk) v)
   | None \<Rightarrow> fst r = ClosePanics"
proof (induction "is" arbitrary: w)
  case Nil
  then show ?case by simp
next
  case (Cons i "is")
  have steps: "(closer_step ^^ (2 * length (i # is) + 1)) s =
      (closer_step ^^ (2 * length is + 1)) (closer_step (closer_step s))" for s :: "closer_pc \<times> 'a world"
    by (simp add: funpow_swap1)
  let ?w1 = "w_cancel (rc_ctx (w_chans w ! i)) None w"
  show ?case
  proof (cases "rc_closed (w_chans ?w1 ! i)")
    case True
    then show ?thesis unfolding steps by (simp add: funpow_fixed)
  next
    case False
    with Cons.IH [of "?w1\<lparr>w_chans := (w_chans ?w1)[i := (w_chans ?w1 ! i)\<lparr>rc_closed := True\<rparr>]\<rparr>"]
    show ?thesis unfolding steps by (simp add: Let_def)
  qed
qed

lemma filter_alone:
  "let r = (filter_stmt data flags k ^^ 7) (FTest, w) in
   case run_sendCallback data flags k w of
     Some (b, v) \<Rightarrow> r = (FGo b, v)
   | None \<Rightarrow> fst r = FPanics"
  by (auto simp: eval_nat_numeral run_sendCallback_def free_callback_def Let_def case_prod_beta
      split: option.splits)

text \<open>The atomic operations are the statements of the code run without interruption: the loop of
  \<open>HandleSend\<close> over the receive channels, the filter part of \<open>HandleSend\<close>, and the body of \<open>Close\<close>
  end, after a bounded number of statements, in the state the operation gives, or panic exactly
  if the operation panics.\<close>

lemma atomic_is_uninterrupted:
  "(let r = (sender_step p ^^ (2 * length (ps_rcChan w) + 1)) (ChkChan (ps_rcChan w), w) in
     case send_to_chans p (w_ctxs w) (ps_rcChan w) (w_chans w) of
       Some chans \<Rightarrow> r = (SendDone, w\<lparr>w_chans := chans\<rparr>) | None \<Rightarrow> fst r = SendPanics) \<and>
   (let r = (filter_stmt data flags k ^^ 7) (FTest, w) in
     case run_sendCallback data flags k w of Some (b, v) \<Rightarrow> r = (FGo b, v) | None \<Rightarrow> fst r = FPanics) \<and>
   (let r = (closer_step ^^ (2 * length (ps_rcChan w) + 1)) (CancelChan (ps_rcChan w), w) in
     case Close_start w of Some v \<Rightarrow> r = (CloseDone, v) | None \<Rightarrow> fst r = ClosePanics)"
proof (intro conjI)
  show "let r = (closer_step ^^ (2 * length (ps_rcChan w) + 1)) (CancelChan (ps_rcChan w), w) in
     case Close_start w of Some v \<Rightarrow> r = (CloseDone, v) | None \<Rightarrow> fst r = ClosePanics"
    using closer_alone [of "ps_rcChan w" w]
    by (cases "close_chans (ps_rcChan w) w") (simp_all add: Close_start_def)
qed (rule sender_alone, rule filter_alone)

section \<open>\<open>HandleSend\<close> against \<open>Close\<close>\<close>

text \<open>The two goroutines: in each step one of them executes its next statement.\<close>

inductive close_race ::
  "PacketChanData \<Rightarrow> sender_pc \<times> closer_pc \<times> 'e world \<Rightarrow> sender_pc \<times> closer_pc \<times> 'e world \<Rightarrow> bool"
  for p :: PacketChanData where
  race_sender: "sender_step p (s, w) = (s', w') \<Longrightarrow> close_race p (s, c, w) (s', c, w')"
| race_closer: "closer_step (c, w) = (c', w') \<Longrightarrow> close_race p (s, c, w) (s, c', w')"

lemma sender_through:
  "send_to_chans p (w_ctxs w) xs (w_chans w) = Some cs \<Longrightarrow>
   (close_race p)\<^sup>*\<^sup>* (ChkChan (xs @ zs), c, w) (ChkChan zs, c, w\<lparr>w_chans := cs\<rparr>)"
proof (induction xs arbitrary: w)
  case Nil
  then have "cs = w_chans w" by simp
  then show ?case by simp
next
  case (Cons i xs)
  let ?v = "w_chans w ! i"
  show ?case
  proof (cases "ctx_Err (w_ctxs w) (rc_ctx ?v) = None")
    case False
    then have "close_race p (ChkChan ((i # xs) @ zs), c, w) (ChkChan (xs @ zs), c, w)"
      by (intro race_sender) simp
    moreover have "send_to_chans p (w_ctxs w) xs (w_chans w) = Some cs" using Cons.prems False by (auto simp: Let_def)
    ultimately show ?thesis using Cons.IH by (meson converse_rtranclp_into_rtranclp)
  next
    case True
    let ?w = "case rc_parked ?v of 0 \<Rightarrow> w
      | Suc n \<Rightarrow> w\<lparr>w_chans := (w_chans w)[i := ?v\<lparr>rc_parked := n, rc_got := rc_got ?v @ [p]\<rparr>]\<rparr>"
    from True Cons.prems have o: "\<not> rc_closed ?v" by (simp add: Let_def split: if_splits)
    have "close_race p (ChkChan ((i # xs) @ zs), c, w) (SendChan i (xs @ zs), c, w)"
      using True by (intro race_sender) simp
    moreover have "close_race p (SendChan i (xs @ zs), c, w) (ChkChan (xs @ zs), c, ?w)"
      using o by (intro race_sender) (simp add: Let_def)
    moreover have "send_to_chans p (w_ctxs ?w) xs (w_chans ?w) = Some cs"
      using Cons.prems True o by (simp add: Let_def split: nat.splits)
    then have "(close_race p)\<^sup>*\<^sup>* (ChkChan (xs @ zs), c, ?w) (ChkChan zs, c, ?w\<lparr>w_chans := cs\<rparr>)"
      by (rule Cons.IH)
    moreover have "?w\<lparr>w_chans := cs\<rparr> = w\<lparr>w_chans := cs\<rparr>" by (simp split: nat.splits)
    ultimately show ?thesis by (metis (no_types, lifting) converse_rtranclp_into_rtranclp)
  qed
qed

lemma closer_through:
  "close_chans xs w = Some v \<Longrightarrow> (close_race p)\<^sup>*\<^sup>* (s, CancelChan (xs @ zs), w) (s, CancelChan zs, v)"
proof (induction xs arbitrary: w)
  case (Cons i xs)
  let ?w1 = "w_cancel (rc_ctx (w_chans w ! i)) None w"
  let ?w2 = "?w1\<lparr>w_chans := (w_chans ?w1)[i := (w_chans ?w1 ! i)\<lparr>rc_closed := True\<rparr>]\<rparr>"
  from Cons.prems have o: "\<not> rc_closed (w_chans ?w1 ! i)" and rest: "close_chans xs ?w2 = Some v"
    by (auto simp: Let_def split: if_splits)
  have "close_race p (s, CancelChan ((i # xs) @ zs), w) (s, CloseChan i (xs @ zs), ?w1)"
    by (intro race_closer) simp
  moreover have "close_race p (s, CloseChan i (xs @ zs), ?w1) (s, CancelChan (xs @ zs), ?w2)"
    using o by (intro race_closer) (simp add: Let_def)
  ultimately show ?case using Cons.IH [OF rest] by (meson converse_rtranclp_into_rtranclp)
qed simp

lemma close_chans_other:
  "close_chans is w = Some v \<Longrightarrow> i \<notin> set is \<Longrightarrow> w_chans v ! i = w_chans w ! i"
  by (induction "is" arbitrary: w) (auto simp: Let_def split: if_splits)

text \<open>C6: \<open>Close\<close> does not hold the lock of the receive channels. Whenever a spawner has an open receive
  channel with a live context, a \<open>Close\<close> that runs between the check of that context in
  \<open>HandleSend\<close> and the send makes the sender panic on a closed channel, which ends the process;
  although neither operation panics when it runs alone.\<close>

theorem close_race_panics:
  assumes "reachable w" "\<forall>j \<in> set (ps_rcChan w). \<not> rc_closed (w_chans w ! j)"
    and "i \<in> set (ps_rcChan w)" "ctx_Err (w_ctxs w) (rc_ctx (w_chans w ! i)) = None"
  shows "\<exists>c v. (close_race p)\<^sup>*\<^sup>* (ChkChan (ps_rcChan w), CancelChan (ps_rcChan w), w) (SendPanics, c, v)"
proof -
  have "inv_chans w" using sp.holds_when_reached [OF assms(1)] by (rule sp_invD)
  then have inv: "distinct (ps_rcChan w)" "i < length (w_chans w)"
    using assms(3) by (auto simp: inv_chans_def)
  obtain xs ys where split: "ps_rcChan w = xs @ i # ys" using assms(3) by (meson split_list)
  obtain cs where cs: "send_to_chans p (w_ctxs w) xs (w_chans w) = Some cs"
    using send_to_chans_no_panic [of xs "w_chans w" "w_ctxs w" p] assms(2) split by auto
  let ?w1 = "w\<lparr>w_chans := cs\<rparr>"
  have same: "rc_ctx (cs ! j) = rc_ctx (w_chans w ! j)" "rc_closed (cs ! j) = rc_closed (w_chans w ! j)" for j
    using send_to_chans_ctx_closed [OF cs, of j] by simp_all
  have 1: "(close_race p)\<^sup>*\<^sup>* (ChkChan (ps_rcChan w), CancelChan (ps_rcChan w), w) (ChkChan (i # ys), CancelChan (ps_rcChan w), ?w1)"
    unfolding split using cs by (rule sender_through)
  have 2: "close_race p (ChkChan (i # ys), CancelChan (ps_rcChan w), ?w1) (SendChan i ys, CancelChan (ps_rcChan w), ?w1)"
    using assms(4) by (intro race_sender) (simp add: same)
  have "close_chans xs ?w1 \<noteq> None"
    using close_chans_panics_iff [of xs ?w1] inv(1) assms(2) split by (auto simp: same)
  then obtain v where v: "close_chans xs ?w1 = Some v" by blast
  have 3: "(close_race p)\<^sup>*\<^sup>* (SendChan i ys, CancelChan (ps_rcChan w), ?w1) (SendChan i ys, CancelChan (i # ys), v)"
    unfolding split using v by (rule closer_through)
  have vi: "w_chans v ! i = cs ! i" using close_chans_other [OF v, of i] inv(1) split by auto
  let ?v1 = "w_cancel (rc_ctx (w_chans v ! i)) None v"
  let ?v2 = "?v1\<lparr>w_chans := (w_chans ?v1)[i := (w_chans ?v1 ! i)\<lparr>rc_closed := True\<rparr>]\<rparr>"
  have 4: "close_race p (SendChan i ys, CancelChan (i # ys), v) (SendChan i ys, CloseChan i ys, ?v1)"
    by (intro race_closer) simp
  have 5: "close_race p (SendChan i ys, CloseChan i ys, ?v1) (SendChan i ys, CancelChan ys, ?v2)"
    using assms(2,3) by (intro race_closer) (simp add: vi same)
  have "length (w_chans v) = length cs" using close_chans_frame [OF v] by simp
  then have "rc_closed (w_chans ?v2 ! i)" using inv(2) send_to_chans_length [OF cs] by simp
  then have 6: "close_race p (SendChan i ys, CancelChan ys, ?v2) (SendPanics, CancelChan ys, ?v2)"
    by (intro race_sender) (simp only: sender_step.simps Let_def if_True)
  have "(close_race p)\<^sup>*\<^sup>* (ChkChan (ps_rcChan w), CancelChan (ps_rcChan w), w) (SendPanics, CancelChan ys, ?v2)"
    using 1 2 3 4 5 6 by (meson rtranclp.rtrancl_into_rtrancl rtranclp_trans)
  then show ?thesis by blast
qed

lemma close_race_panics_witness:
  "\<exists>c v. (close_race (packet_of [1] 0 (pc_view ex_chans 0)))\<^sup>*\<^sup>* (ChkChan [0, 1], CancelChan [0, 1], ex_chans) (SendPanics, c, v)"
  using close_race_panics [OF ex_chans_reachable, of 0]
  by (simp add: ex_chans ex_conn ex_new ctx_Err_def Cause_def)

section \<open>Two calls of \<open>HandleSend\<close>\<close>

type_synonym send_args = "bytes \<times> CapFlags \<times> nat"

inductive filter_race ::
  "send_args \<Rightarrow> send_args \<Rightarrow> filter_pc \<times> filter_pc \<times> 'e world \<Rightarrow> filter_pc \<times> filter_pc \<times> 'e world \<Rightarrow> bool"
  for a b :: send_args where
  race_first: "filter_stmt (fst a) (fst (snd a)) (snd (snd a)) (s, w) = (s', w') \<Longrightarrow> filter_race a b (s, t, w) (s', t, w')"
| race_second: "filter_stmt (fst b) (fst (snd b)) (snd (snd b)) (t, w) = (t', w') \<Longrightarrow> filter_race a b (s, t, w) (s, t', w')"

text \<open>C7: Freeing a filter is not protected by a lock either. When the context of the installed filter has
  ended, two packets that are sent at the same time can both find the callback set; the first
  frees it, and the second then panics on the nil context.\<close>

theorem filter_race_panics:
  assumes "reachable w" "ps_sendCallback w = Some cb" "ps_callbackCtx w = Some c" "ctx_Err (w_ctxs w) c \<noteq> None"
  shows "\<exists>s v. (filter_race a b)\<^sup>*\<^sup>* (FTest, FTest, w) (s, FPanics, v)"
proof -
  have cancel: "ps_callbackCancel w = Some c"
    using sp.holds_when_reached [OF assms(1)] assms(3) by (simp add: sp_inv_def inv_cb_def)
  let ?w1 = "w_cancel c None w"
  let ?w2 = "?w1\<lparr>ps_callbackCancel := None\<rparr>"
  let ?w3 = "?w2\<lparr>ps_callbackCtx := None\<rparr>"
  have "filter_race a b (FTest, FTest, w) (FErr, FTest, w)" using assms(2) by (intro race_first) simp
  moreover have "filter_race a b (FErr, FTest, w) (FErr, FErr, w)" using assms(2) by (intro race_second) simp
  moreover have "filter_race a b (FErr, FErr, w) (FLog, FErr, w)" using assms(3,4) by (intro race_first) simp
  moreover have "filter_race a b (FLog, FErr, w) (FCancel, FErr, w)" using assms(3) by (intro race_first) simp
  moreover have "filter_race a b (FCancel, FErr, w) (FNilCancel, FErr, ?w1)" using cancel by (intro race_first) simp
  moreover have "filter_race a b (FNilCancel, FErr, ?w1) (FNilCtx, FErr, ?w2)" by (intro race_first) simp
  moreover have "filter_race a b (FNilCtx, FErr, ?w2) (FNilCb, FErr, ?w3)" by (intro race_first) simp
  moreover have "filter_race a b (FNilCb, FErr, ?w3) (FNilCb, FPanics, ?w3)" by (intro race_second) simp
  ultimately have "(filter_race a b)\<^sup>*\<^sup>* (FTest, FTest, w) (FNilCb, FPanics, ?w3)"
    by (meson converse_rtranclp_into_rtranclp rtranclp.rtrancl_refl)
  then show ?thesis by blast
qed

lemma filter_race_panics_witness:
  "\<exists>s v. (filter_race ([1], 0, 0) ([2], 0, 0))\<^sup>*\<^sup>* (FTest, FTest, ex_stale_filter) (s, FPanics, v)"
proof (rule filter_race_panics [OF ex_stale_filter_reachable])
  show "ps_sendCallback ex_stale_filter = Some ex_refuse" "ps_callbackCtx ex_stale_filter = Some 2"
    by (simp_all add: ex_stale_filter_def ex_filter)
  show "ctx_Err (w_ctxs ex_stale_filter) 2 \<noteq> None" using ex_stale_filter_dead by simp
qed

end
