(* ===== verification/ConnSpec.thy ===== *)
theory ConnSpec
  imports SpawnerProps
begin

text \<open>
  What the spawner promises about its connections, as a specification of its own: a spawner is
  open or closed, hands out ids in order, maps ids to connections, and connections die. The
  table only forgets dead connections, a closed spawner has no live connection, and a new
  connection was never used before. The model of the code refines it.
\<close>

section \<open>The specification\<close>

record conn_spec =
  cs_open :: bool
  cs_next :: goint
  cs_table :: "goint \<rightharpoonup> nat"
  cs_dead :: "nat set"

definition conn_init :: "conn_spec \<Rightarrow> bool" where
  "conn_init s \<longleftrightarrow> s = \<lparr>cs_open = True, cs_next = 0, cs_table = Map.empty, cs_dead = {}\<rparr>"

inductive conn_step :: "conn_spec \<Rightarrow> conn_spec \<Rightarrow> bool" where
  conn_connect: "cs_open s \<Longrightarrow> cs_next s \<noteq> - 1 \<Longrightarrow> r \<notin> cs_dead s \<union> ran (cs_table s) \<Longrightarrow>
    conn_step s (s\<lparr>cs_table := (cs_table s)(cs_next s \<mapsto> r), cs_next := cs_next s + 1\<rparr>)"
| conn_die: "conn_step s (s\<lparr>cs_dead := insert r (cs_dead s)\<rparr>)"
| conn_forget: "cs_table s i = Some r \<Longrightarrow> r \<in> cs_dead s \<Longrightarrow> conn_step s (s\<lparr>cs_table := (cs_table s)(i := None)\<rparr>)"
| conn_close: "ran (cs_table s) \<subseteq> cs_dead s \<Longrightarrow> conn_step s (s\<lparr>cs_open := False\<rparr>)"

text \<open>What a state of the spawner means to the specification.\<close>

definition conn_abs :: "'e world \<Rightarrow> conn_spec" where
  "conn_abs w = \<lparr>cs_open = IsAlive w, cs_next = ps_currentId w, cs_table = ps_connections w,
     cs_dead = {r. r < length (w_pcs w) \<and> \<not> pc_IsAlive w r}\<rparr>"

section \<open>Many deaths, many removals\<close>

lemma conn_dies:
  assumes "finite D"
  shows "conn_step\<^sup>*\<^sup>* s (s\<lparr>cs_dead := D \<union> cs_dead s\<rparr>)"
  using assms
proof (induction D)
  case (insert r D)
  have "conn_step (s\<lparr>cs_dead := D \<union> cs_dead s\<rparr>) (s\<lparr>cs_dead := insert r D \<union> cs_dead s\<rparr>)"
    using conn_die [of "s\<lparr>cs_dead := D \<union> cs_dead s\<rparr>" r] by simp
  with insert.IH show ?case by (rule rtranclp.rtrancl_into_rtrancl)
qed simp

lemma conn_forgets:
  assumes "\<forall>i \<in> set ks. \<exists>r. cs_table s i = Some r \<and> r \<in> cs_dead s" "distinct ks"
  shows "conn_step\<^sup>*\<^sup>* s (s\<lparr>cs_table := (cs_table s) |` (- set ks)\<rparr>)"
  using assms
proof (induction ks)
  case Nil
  then show ?case by (simp add: restrict_map_def)
next
  case (Cons i ks)
  let ?t = "s\<lparr>cs_table := (cs_table s) |` (- set ks)\<rparr>"
  from Cons.prems obtain r where r: "cs_table s i = Some r" "r \<in> cs_dead s" "i \<notin> set ks" by auto
  then have "conn_step ?t (?t\<lparr>cs_table := (cs_table ?t)(i := None)\<rparr>)"
    by (intro conn_forget) (auto simp: restrict_map_def)
  moreover have "(cs_table ?t)(i := None) = (cs_table s) |` (- set (i # ks))"
    by (auto simp: restrict_map_def fun_eq_iff)
  ultimately show ?case using Cons by (auto intro: rtranclp.rtrancl_into_rtrancl)
qed

text \<open>A change that leaves table and ids alone: connections die, and the spawner may close.\<close>

lemma conn_quiet:
  assumes "D \<subseteq> D'" "finite D'" "b' \<longrightarrow> b" "\<not> b' \<longrightarrow> ran t \<subseteq> D'"
  shows "conn_step\<^sup>*\<^sup>* \<lparr>cs_open = b, cs_next = n, cs_table = t, cs_dead = D\<rparr>
     \<lparr>cs_open = b', cs_next = n, cs_table = t, cs_dead = D'\<rparr>"
proof -
  let ?s = "\<lparr>cs_open = b, cs_next = n, cs_table = t, cs_dead = D\<rparr>"
  have "D' \<union> D = D'" using assms(1) by blast
  with conn_dies [OF assms(2), of ?s] have d: "conn_step\<^sup>*\<^sup>* ?s \<lparr>cs_open = b, cs_next = n, cs_table = t, cs_dead = D'\<rparr>"
    by simp
  show ?thesis
  proof (cases "b' = b")
    case False
    with assms(3,4) have "\<not> b'" "ran t \<subseteq> D'" by auto
    then have "conn_step \<lparr>cs_open = b, cs_next = n, cs_table = t, cs_dead = D'\<rparr>
        \<lparr>cs_open = b', cs_next = n, cs_table = t, cs_dead = D'\<rparr>"
      using conn_close [of "\<lparr>cs_open = b, cs_next = n, cs_table = t, cs_dead = D'\<rparr>"] by simp
    with d show ?thesis by (rule rtranclp.rtrancl_into_rtrancl)
  qed (use d in simp)
qed

section \<open>The spawner refines it\<close>

lemma conn_abs_facts:
  assumes "sp_inv w"
  shows "finite (cs_dead (conn_abs w))" "\<not> IsAlive w \<Longrightarrow> ran (ps_connections w) \<subseteq> cs_dead (conn_abs w)"
    "ran (ps_connections w) \<subseteq> {..<length (w_pcs w)}"
proof -
  show "finite (cs_dead (conn_abs w))" by (simp add: conn_abs_def)
  show below: "ran (ps_connections w) \<subseteq> {..<length (w_pcs w)}"
    using assms by (auto simp: sp_inv_def inv_conns_def ran_def)
  show "ran (ps_connections w) \<subseteq> cs_dead (conn_abs w)" if "\<not> IsAlive w"
    using below sp_inv_dead_containers [OF assms that] by (auto simp: conn_abs_def)
qed

lemma conn_abs_later:
  assumes "w_later w v"
  shows "cs_dead (conn_abs w) \<subseteq> cs_dead (conn_abs v)" "IsAlive v \<Longrightarrow> IsAlive w"
proof -
  note l = w_laterD [OF assms]
  have dead: "Cause (w_ctxs v) c \<noteq> None" if "Cause (w_ctxs w) c \<noteq> None" for c
    using l(1) that by (rule ctx_le_dead)
  show "IsAlive w" if "IsAlive v"
    using that dead [of "ps_context w"] l(2) by (cases "IsAlive w") (simp_all add: IsAlive_def tables_later_def)
  show "cs_dead (conn_abs w) \<subseteq> cs_dead (conn_abs v)"
    using l(3) dead by (auto simp: conn_abs_def pcs_later_def pc_IsAlive_def)
qed

lemma conn_same:
  assumes "sp_inv w" "sp_inv v" "w_later w v" "ps_connections v = ps_connections w" "ps_currentId v = ps_currentId w"
  shows "conn_step\<^sup>*\<^sup>* (conn_abs w) (conn_abs v)"
  using conn_quiet [OF conn_abs_later(1) [OF assms(3)] conn_abs_facts(1) [OF assms(2)],
      of "IsAlive v" "IsAlive w" "ps_connections w" "ps_currentId w"]
    conn_abs_later(2) [OF assms(3)] conn_abs_facts(2) [OF assms(2)] assms(4,5)
  by (simp add: conn_abs_def)

lemma send_all_same:
  assumes "send_all send ks fe w = Some (e, v)" "\<And>r u e u'. send r u = Some (e, u') \<Longrightarrow> spawner_same u u'"
  shows "spawner_same w v"
  using assms(1)
proof (induction ks arbitrary: fe w)
  case (Cons k ks)
  show ?case
  proof (cases "ps_connections w k")
    case None
    with Cons show ?thesis by simp
  next
    case (Some r)
    with Cons.prems obtain u e' fe' where "u = w \<or> send r w = Some (e', u)" "send_all send ks fe' u = Some (e, v)"
      by (auto simp: Option.bind_eq_Some_conv split: if_splits)
    moreover from this(1) have "spawner_same w u" using assms(2) by auto
    ultimately show ?thesis using Cons.IH by (blast intro: spawner_same_trans)
  qed
qed simp

lemma SendToAll_same:
  "SendToAllClients ks d w = Some (e, v) \<Longrightarrow> spawner_same w v"
  "SendToAllServers ks d w = Some (e, v) \<Longrightarrow> spawner_same w v"
  unfolding SendToAllClients_def SendToAllServers_def
  by (erule send_all_same, blast intro: spawner.sends_same dest: pc_SendToClient_sends pc_SendToServer_sends)+

lemma AddConnection_refines:
  assumes "sp_inv w" "px_ok px" "ps_currentId w \<noteq> - 1" "AddConnection NewProxyContainer px w = (res, v)"
  shows "conn_step\<^sup>*\<^sup>* (conn_abs w) (conn_abs v)"
proof (cases res)
  case (Inl e)
  with assms(4) consider "v = w"
    | w1 where "NewProxyContainer px (ps_currentId w) w = (Inl e, w1)" "v = HandleError e None w1"
    by (auto simp: AddConnection_def Let_def split: option.splits prod.splits sum.splits)
  then have "spawner_same w v"
    by cases (auto intro: spawner_same_trans [OF container.maker_same spawner.he_same])
  then show ?thesis
    using assms AddConnection_later container.AddConnection_inv
    by (intro conn_same) (auto simp: spawner_same_def)
next
  case (Inr r)
  have invv: "sp_inv v" using assms by (rule container.AddConnection_inv)
  have later: "w_later w v" using assms by (rule AddConnection_later)
  from Inr assms obtain w1 where m: "NewProxyContainer px (ps_currentId w) w = (Inr r, w1)"
    and v: "v = w1\<lparr>ps_currentId := ps_currentId w + 1,
                ps_connections := (ps_connections w)(ps_currentId w \<mapsto> r), ps_wg := ps_wg w + 1\<rparr>"
    by (auto elim: container.AddConnection_ok)
  have alive: "IsAlive w" using assms(4) Inr by (auto simp: AddConnection_def IsAlive_def split: option.splits)
  obtain c w0 where "alloc_container px (ps_currentId w) w = (c, w0)" by fastforce
  with m have r: "r = length (w_pcs w)" by (auto elim: NewProxyContainer_cases)
  let ?t = "(ps_connections w)(ps_currentId w \<mapsto> r)"
  have "conn_step (conn_abs w) \<lparr>cs_open = IsAlive w, cs_next = ps_currentId w + 1, cs_table = ?t, cs_dead = cs_dead (conn_abs w)\<rparr>"
    using conn_connect [of "conn_abs w" r] alive assms(3) conn_abs_facts(3) [OF assms(1)]
    by (auto simp: conn_abs_def r)
  moreover have "conn_step\<^sup>*\<^sup>* \<dots> \<lparr>cs_open = IsAlive v, cs_next = ps_currentId w + 1, cs_table = ?t, cs_dead = cs_dead (conn_abs v)\<rparr>"
    using conn_abs_facts(2) [OF invv] conn_abs_later(2) [OF later]
    by (intro conn_quiet conn_abs_later(1) [OF later] conn_abs_facts(1) [OF invv]) (auto simp: v)
  moreover have "\<dots> = conn_abs v" by (simp add: conn_abs_def) (simp add: v)
  ultimately show ?thesis by (metis (no_types, lifting) converse_rtranclp_into_rtranclp)
qed

lemma pruner_tick_refines:
  assumes "sp_inv w" "range_order ks (ps_connections w)" "pruner_tick ks w = Some v"
  shows "conn_step\<^sup>*\<^sup>* (conn_abs w) (conn_abs v)"
proof -
  from assms(3) obtain rc where v: "v = w\<lparr>ps_connections := (ps_connections w) |` (- set (dead_keys ks w)),
      ps_wg := ps_wg w - int (length (dead_keys ks w)), ps_rcChan := rc\<rparr>"
    by (auto simp: pruner_tick_def prune_chans_def Option.bind_eq_Some_conv dest: delete_keys_result)
  have "\<forall>i \<in> set (dead_keys ks w). \<exists>r. cs_table (conn_abs w) i = Some r \<and> r \<in> cs_dead (conn_abs w)"
    using conn_abs_facts(3) [OF assms(1)] by (auto simp: conn_abs_def dead_keys_set ran_def)
  moreover have "distinct (dead_keys ks w)"
    using assms(2) by (simp add: dead_keys_def range_order_def)
  ultimately have "conn_step\<^sup>*\<^sup>* (conn_abs w) ((conn_abs w)\<lparr>cs_table := (cs_table (conn_abs w)) |` (- set (dead_keys ks w))\<rparr>)"
    by (rule conn_forgets)
  moreover have "conn_abs v = (conn_abs w)\<lparr>cs_table := (cs_table (conn_abs w)) |` (- set (dead_keys ks w))\<rparr>"
    by (simp add: v conn_abs_def IsAlive_def pc_IsAlive_def)
  ultimately show ?thesis by simp
qed

lemma quiet_steps:
  "TrySetFilterCallback cb parent w = Some (e, v) \<Longrightarrow> ps_connections v = ps_connections w \<and> ps_currentId v = ps_currentId w"
  "GetRecvChan parent w = (i, v) \<Longrightarrow> ps_connections v = ps_connections w \<and> ps_currentId v = ps_currentId w"
  "Close_start w = Some v \<Longrightarrow> ps_connections v = ps_connections w \<and> ps_currentId v = ps_currentId w"
proof -
  show "Close_start w = Some v \<Longrightarrow> ps_connections v = ps_connections w \<and> ps_currentId v = ps_currentId w"
    by (auto simp: Close_start_def Option.bind_eq_Some_conv spawner_same_def dest: close_chans_frame)
  show "TrySetFilterCallback cb parent w = Some (e, v) \<Longrightarrow> ps_connections v = ps_connections w \<and> ps_currentId v = ps_currentId w"
    by (auto simp: TrySetFilterCallback_def free_callback_def set_callback_def Option.bind_eq_Some_conv split: option.splits if_splits prod.splits)
  show "GetRecvChan parent w = (i, v) \<Longrightarrow> ps_connections v = ps_connections w \<and> ps_currentId v = ps_currentId w"
    by (auto simp: GetRecvChan_def Let_def split: prod.splits)
qed

lemma spawner_step_refines:
  assumes "sp_inv w" "spawner_step w v"
  shows "conn_step\<^sup>*\<^sup>* (conn_abs w) (conn_abs v)"
proof -
  note ok = spawner_step_inv [OF assms(2,1)] spawner_step_later [OF assms(2,1)]
  have quiet: ?thesis if "ps_connections v = ps_connections w \<and> ps_currentId v = ps_currentId w"
    using assms(1) ok that by (intro conn_same) simp_all
  have same: ?thesis if "spawner_same w v" using that by (intro quiet) (simp add: spawner_same_def)
  from assms(2) show ?thesis
  proof cases
    case (step_add px res)
    then show ?thesis using assms(1) by (intro AddConnection_refines)
  next
    case (step_pruner_tick ks)
    then show ?thesis using assms(1) by (intro pruner_tick_refines)
  next
    case (step_to_client r d e)
    then show ?thesis by (blast intro: same spawner.sends_same dest: pc_SendToClient_sends)
  next
    case (step_to_server r d e)
    then show ?thesis by (blast intro: same spawner.sends_same dest: pc_SendToServer_sends)
  next
    case (step_packet r p)
    then show ?thesis by (blast intro: same spawner.sends_same dest: handlePacket_data_sends)
  next
    case (step_close_proxy i e)
    then show ?thesis by (intro quiet) (auto simp: CloseProxy_def pc_Cancel_def split: sum.splits)
  qed (rule quiet, force dest!: quiet_steps SendToAll_same
      simp: spawner_same_def park_reader_def SetErrorCallback_def pruner_begin_def pruner_return_def
        listener_begin_def listener_end_def)+
qed

lemma conn_abs_start:
  assumes "spawner_init w"
  shows "conn_init (conn_abs w)"
  using assms
  by (auto elim!: spawner_initE simp: conn_init_def conn_abs_def constructor_Inr new_spawner_def IsAlive_def
      split: if_splits option.splits prod.splits)

interpretation conns: simulation spawner_init spawner_step sp_inv conn_init conn_step conn_abs
  by unfold_locales (auto intro: conn_abs_start spawner_step_refines)

text \<open>C4: The spawner refines the specification of its connections: whatever happens in a step of any
  operation, seen through the table, the ids and the living containers, it is a sequence of
  connections made, connections that die, dead connections forgotten, and the end; and every
  state the spawner can reach means a state that the specification can reach.\<close>

theorem spawner_refines_conn_spec:
  assumes "reachable w" "spawner_step w v"
  shows "reach conn_init conn_step (conn_abs w) \<and> conn_step\<^sup>*\<^sup>* (conn_abs w) (conn_abs v)"
  using assms conns.reached_abs spawner_step_refines [OF sp.holds_when_reached] by blast

lemma spawner_refines_conn_spec_witness:
  "conn_step\<^sup>*\<^sup>* (conn_abs ex_new) (conn_abs ex_conn) \<and> cs_table (conn_abs ex_conn) 0 = Some 0"
  using spawner_refines_conn_spec [OF ex_new_reachable ex_conn_step] by (simp add: conn_abs_def ex_conn)

end
