(* ===== verification/Forwarding.thy ===== *)
theory Forwarding
  imports ProxyProps LifecycleProps
begin

text \<open>
  The proxy from end to end: the two reading goroutines of a TCP proxy, the packet loop of its
  container, the spawner and the two writes, put together.
\<close>

section \<open>Wires\<close>

text \<open>
  A connection that accepts what is written to it. \<open>own\<close> is what has been written to it so far,
  \<open>other\<close> what has been written to the connection on the other side.
\<close>

definition wire :: "'e conn_write \<Rightarrow> ('e \<Rightarrow> bytes list) \<Rightarrow> ('e \<Rightarrow> bytes list) \<Rightarrow> bool" where
  "wire wr own other \<longleftrightarrow>
     (\<forall>d x. fst (wr d x) = None \<and> own (snd (snd (wr d x))) = own (snd x) @ [d] \<and>
        other (snd (snd (wr d x))) = other (snd x))"

lemma wireD:
  assumes "wire wr own other"
  shows "fst (wr d x) = None" "own (snd (snd (wr d x))) = own (snd x) @ [d]" "other (snd (snd (wr d x))) = other (snd x)"
  using assms unfolding wire_def by blast+

lemma HandleSend_no_filter:
  assumes "ps_sendCallback w = None" "HandleSend d f r w = Some (b, v)"
  shows "b" "w_env v = w_env w" "ps_sendCallback v = None" "w_pcs v = w_pcs w"
  using assms by (auto simp: run_sendCallback_def elim!: HandleSend_cases)

text \<open>One packet through the loop.\<close>

lemma handlePacket_data_wire:
  assumes "r < length (w_pcs w)" "pc_px (w_pcs w ! r) = tcp_IProxy wc ws t" "ps_sendCallback w = None"
    and "wire ws to_server to_client" "wire wc to_client to_server"
    and "handlePacket_data HandleSend HandleError r p w = Some v"
  shows "to_server (w_env v) = to_server (w_env w) @ (if ppd_Serverbound p then [ppd_Data p] else [])"
    and "to_client (w_env v) = to_client (w_env w) @ (if ppd_Serverbound p then [] else [ppd_Data p])"
    and "r < length (w_pcs v)" "pc_px (w_pcs v ! r) = tcp_IProxy wc ws t" "ps_sendCallback v = None"
proof -
  let ?f = "if ppd_Serverbound p then 0 OR CapFlag_ToServer else 0"
  from assms(6) obtain b w1 where h: "HandleSend (ppd_Data p) ?f r w = Some (b, w1)"
    by (cases "HandleSend (ppd_Data p) ?f r w") (auto simp: handlePacket_data_def)
  note pass = HandleSend_no_filter [OF assms(3) h]
  define res where "res = (if ppd_Serverbound p then ws (ppd_Data p) (w_ext w1) else wc (ppd_Data p) (w_ext w1))"
  have v: "v = pc_after_send HandleError r (ppd_Data p) res w1"
    using assms(2,6) h pass by (cases "ppd_Serverbound p") (simp_all add: handlePacket_data_def Let_def res_def tcp_IProxy_def)
  have "fst res = None" using wireD(1) [OF assms(4)] wireD(1) [OF assms(5)] by (simp add: res_def)
  then have acc: "v = pc_account r (ppd_Data p) (w_put (snd res) w1)" by (simp add: v pc_after_send_def)
  show "to_server (w_env v) = to_server (w_env w) @ (if ppd_Serverbound p then [ppd_Data p] else [])"
    and "to_client (w_env v) = to_client (w_env w) @ (if ppd_Serverbound p then [] else [ppd_Data p])"
    using pass(2) wireD(2,3) [OF assms(4)] wireD(2,3) [OF assms(5)] by (simp_all add: acc res_def w_ext_def)
  show "r < length (w_pcs v)" "pc_px (w_pcs v ! r) = tcp_IProxy wc ws t" "ps_sendCallback v = None"
    using assms(1,2) pass by (simp_all add: acc pc_account_def)
qed

text \<open>Any sequence of packets.\<close>

lemma handlePacket_wire:
  assumes "wire ws to_server to_client" "wire wc to_client to_server"
  shows "handlePacket HandleSend HandleError r (map PcData pkts) w = Some v \<Longrightarrow>
    r < length (w_pcs w) \<Longrightarrow> pc_px (w_pcs w ! r) = tcp_IProxy wc ws t \<Longrightarrow> ps_sendCallback w = None \<Longrightarrow>
    to_server (w_env v) = to_server (w_env w) @ map ppd_Data (filter ppd_Serverbound pkts) \<and>
    to_client (w_env v) = to_client (w_env w) @ map ppd_Data (filter (\<lambda>p. \<not> ppd_Serverbound p) pkts)"
proof (induction pkts arbitrary: w)
  case (Cons p pkts)
  then obtain w1 where d: "handlePacket_data HandleSend HandleError r p w = Some w1"
    and rest: "handlePacket HandleSend HandleError r (map PcData pkts) w1 = Some v"
    by (auto simp: Option.bind_eq_Some_conv)
  note one = handlePacket_data_wire [OF Cons.prems(2-4) assms d]
  from Cons.IH [OF rest one(3-5)] one(1,2) show ?case by simp
qed simp

section \<open>Two readers, one loop\<close>

text \<open>What the goroutine that reads from the remote address \<open>c\<close> hands to the loop.\<close>

abbreviation packets_from :: "TcpProxy \<Rightarrow> addr \<Rightarrow> nat \<Rightarrow> read_event list \<Rightarrow> ctxs \<Rightarrow> ProxyPacketData list" where
  "packets_from t c ctx evs \<sigma> \<equiv> fst (tcp_listen t c ctx evs \<sigma>)"

lemma packets_from_direction:
  assumes "\<not> compareNetAddr (tp_client t) (tp_server t)" "p \<in> set (packets_from t c ctx evs \<sigma>)"
  shows "c = tp_client t \<Longrightarrow> ppd_Serverbound p" "c = tp_server t \<Longrightarrow> \<not> ppd_Serverbound p"
  using assms tcp_listen_packets [OF assms(2)] by (auto simp: tcp_packet_def compareNetAddr_def)

text \<open>
  Whether a reading goroutine is still reading when \<open>k\<close> of its reads have returned: there is a next one, its
  context is alive after what happened during the first \<open>k\<close>, and the next is no error but a
  timeout.
\<close>

definition still_reading :: "nat \<Rightarrow> read_event list \<Rightarrow> ctxs \<Rightarrow> nat \<Rightarrow> bool" where
  "still_reading ctx evs \<sigma> k \<longleftrightarrow> k < length evs \<and> Cause (fold fst (take k evs) \<sigma>) ctx = None \<and>
     (\<forall>err. snd (evs ! k) = Inl err \<longrightarrow> isTimeoutError (Some err))"

lemma still_reading_simps [simp]:
  "\<not> still_reading ctx [] \<sigma> 0"
  "still_reading ctx (e # evs) \<sigma> 0 \<longleftrightarrow> Cause \<sigma> ctx = None \<and> (\<forall>err. snd e = Inl err \<longrightarrow> isTimeoutError (Some err))"
  "still_reading ctx (e # evs) \<sigma> (Suc k) \<longleftrightarrow> still_reading ctx evs (fst e \<sigma>) k"
  by (simp_all add: still_reading_def)

text \<open>\<open>n\<close> is the number of reads after which the goroutine ends.\<close>

definition reads_until :: "nat \<Rightarrow> read_event list \<Rightarrow> ctxs \<Rightarrow> nat \<Rightarrow> bool" where
  "reads_until ctx evs \<sigma> n \<longleftrightarrow> n \<le> length evs \<and> (\<forall>k < n. still_reading ctx evs \<sigma> k) \<and> \<not> still_reading ctx evs \<sigma> n"

lemma reads_until_0 [simp]: "reads_until ctx [] \<sigma> 0"
  by (simp add: reads_until_def)

lemma reads_until_stop: "\<not> still_reading ctx evs \<sigma> 0 \<Longrightarrow> reads_until ctx evs \<sigma> 0"
  by (simp add: reads_until_def)

lemma reads_until_Suc:
  "still_reading ctx (e # evs) \<sigma> 0 \<Longrightarrow> reads_until ctx evs (fst e \<sigma>) n \<Longrightarrow> reads_until ctx (e # evs) \<sigma> (Suc n)"
  by (simp add: reads_until_def All_less_Suc2 del: still_reading_simps(2))

text \<open>What a goroutine reports is exactly what the reads returned until then.\<close>

lemma tcp_listen_exact:
  "\<exists>n. reads_until ctx evs \<sigma> n \<and> map ppd_Data (packets_from t c ctx evs \<sigma>) = reads (take n evs)"
proof (induction t c ctx evs \<sigma> rule: tcp_listen.induct)
  case (2 t c ctx g res evs \<sigma>)
  show ?case
  proof (cases "still_reading ctx ((g, res) # evs) \<sigma> 0")
    case False
    then have "packets_from t c ctx ((g, res) # evs) \<sigma> = []" by (auto split: sum.splits)
    with reads_until_stop [OF False] show ?thesis by (intro exI [of _ 0]) simp
  next
    case True
    then have "\<exists>n. reads_until ctx evs (g \<sigma>) n \<and> map ppd_Data (packets_from t c ctx evs (g \<sigma>)) = reads (take n evs)"
      using 2 by (cases res) simp_all
    then obtain n where n: "reads_until ctx evs (g \<sigma>) n"
      "map ppd_Data (packets_from t c ctx evs (g \<sigma>)) = reads (take n evs)" by blast
    with True have "map ppd_Data (packets_from t c ctx ((g, res) # evs) \<sigma>) = reads (take (Suc n) ((g, res) # evs))"
      by (cases res) (auto simp: tcp_packet_def split: prod.splits)
    with reads_until_Suc [OF True] n(1) show ?thesis by (intro exI [of _ "Suc n"]) simp
  qed
qed (rule exI [of _ 0], simp)


text \<open>A connection between two wires that keep what was written to them.\<close>

type_synonym ex_wires = "bytes list \<times> bytes list"

definition ex_to_client :: "ex_wires conn_write" where
  "ex_to_client d x = (None, (fst x, (fst (snd x) @ [d], snd (snd x))))"

definition ex_to_server :: "ex_wires conn_write" where
  "ex_to_server d x = (None, (fst x, (fst (snd x), snd (snd x) @ [d])))"

definition ex_wires_px :: "ex_wires IProxy" where
  "ex_wires_px = tcp_IProxy ex_to_client ex_to_server (newTcpProxy ex_client ex_server)"

definition ex_wired0 :: "ex_wires world" where
  "ex_wired0 = projr (NewProxySpawnerWithContainer ex_server ex_proxy None 1 (\<lambda>w. w) [] ([], []) 0)"

definition ex_wired :: "ex_wires world" where
  "ex_wired = snd (AddConnection NewProxyContainer ex_wires_px ex_wired0)"

lemma ex_wires_px_ok: "px_ok ex_wires_px"
  by (simp add: px_ok_def ex_wires_px_def tcp_IProxy_def ext_respects_def ex_to_client_def ex_to_server_def)

lemma ex_wired0:
  "NewProxySpawnerWithContainer ex_server ex_proxy None 1 (\<lambda>w. w) [] ([], []) 0 = Inr ex_wired0"
  "ps_currentId ex_wired0 = 0" "ps_sendCallback ex_wired0 = None" "w_pcs ex_wired0 = []" "w_env ex_wired0 = ([], [])"
  "ps_context ex_wired0 = 0" "w_ctxs ex_wired0 = [\<lparr>ctx_parent = None, ctx_cause = None\<rparr>]"
  by (simp_all add: ex_wired0_def NewProxySpawnerWithContainer_def new_spawner_def ex_addrs WithCancelCause_def Cause_def)

lemma ex_wired_facts:
  "AddConnection NewProxyContainer ex_wires_px ex_wired0 = (Inr 0, ex_wired)"
  "w_env ex_wired = ([], [])" "ps_sendCallback ex_wired = None" "length (w_pcs ex_wired) = 1"
  "pc_px (w_pcs ex_wired ! 0) = tcp_IProxy ex_to_client ex_to_server (newTcpProxy ex_client ex_server)"
  by (simp_all add: ex_wired_def AddConnection_def ex_wired0 NewProxyContainer_def alloc_container_def WithCancelCause_def
      Cause_def ctx_Err_def Let_def w_ext_def)
    (simp_all add: ex_wires_px_def tcp_IProxy_def TcpProxy_Init_def newTcpProxy_def ex_wired0)

lemma ex_wired_reachable: "reachable ex_wired"
proof (rule reach_next)
  show "reachable ex_wired0"
    by (rule reach_start, rule spawner_init.intros [OF _ _ ex_wired0(1)]) simp_all
  show "spawner_step ex_wired0 ex_wired"
    by (rule step_add [OF ex_wires_px_ok _ ex_wired_facts(1)]) (simp add: ex_wired0)
qed

lemma ex_reads_until:
  "reads_until 0 [(\<lambda>\<sigma>. \<sigma>, Inr [1]), (\<lambda>\<sigma>. \<sigma>, Inr [2, 3])] [] n \<Longrightarrow> n = 2"
  by (auto simp: reads_until_def still_reading_def Cause_def less_Suc_eq numeral_2_eq_2 le_Suc_eq)


end
