(* ===== verification/Accepting.thy ===== *)
theory Accepting
  imports ProxyProps LifecycleProps
begin

text \<open>
  The two listeners as parts of a run of the spawner: whatever the network and the rest of the
  program do while they wait, they keep the invariant, as long as there are ids left to hand out.
\<close>

lemma tcp_IProxy_ok:
  "(\<And>d. ext_respects (\<lambda>x. snd (wc d x))) \<Longrightarrow> (\<And>d. ext_respects (\<lambda>x. snd (ws d x))) \<Longrightarrow> px_ok (tcp_IProxy wc ws t)"
  by (auto simp: px_ok_def tcp_IProxy_def) (simp add: ext_respects_def)

lemma udp_IProxy_ok: "(\<And>a d. ext_respects (\<lambda>x. snd (wr a d x))) \<Longrightarrow> px_ok (udp_IProxy wr u)"
  by (auto simp: px_ok_def udp_IProxy_def) (simp add: ext_respects_def)

text \<open>Going from \<open>w\<close> to \<open>v\<close> with at most \<open>n\<close> new connections.\<close>

definition moved_within :: "nat \<Rightarrow> 'e world \<Rightarrow> 'e world \<Rightarrow> bool" where
  "moved_within n w v \<longleftrightarrow> sp_inv v \<and> w_later w v \<and> unat (ps_currentId v) \<le> unat (ps_currentId w) + n"

lemma moved_within_refl: "sp_inv w \<Longrightarrow> moved_within n w w"
  by (simp add: moved_within_def)

lemma moved_within_trans: "moved_within n u v \<Longrightarrow> moved_within m v w \<Longrightarrow> moved_within (n + m) u w"
  by (auto simp: moved_within_def intro: w_later_trans)

lemma moved_within_cancel: "moved_within n w v \<Longrightarrow> moved_within n w (w_cancel c e v)"
  using moved_cancel by (auto simp: moved_within_def)

lemma moved_within_mono: "moved_within n w v \<Longrightarrow> n \<le> m \<Longrightarrow> moved_within m w v"
  by (auto simp: moved_within_def)

lemma moves_within_moves: "moves_within k g \<Longrightarrow> sp_inv w \<Longrightarrow> moved_within k w (g w)"
  by (simp add: moves_within_def program_moves_def moved_within_def)

lemma AddConnection_moves:
  assumes "sp_inv w" "px_ok px" "Suc (unat (ps_currentId w)) < 2 ^ 64"
  shows "moved_within 1 w (snd (AddConnection NewProxyContainer px w))"
proof -
  obtain res v where a: "AddConnection NewProxyContainer px w = (res, v)" by fastforce
  have id: "ps_currentId w \<noteq> - 1" using assms(3) by (auto simp: unsigned_minus_1_eq_mask mask_eq_exp_minus_1)
  have kept: "sp_inv v" "w_later w v"
    using container.AddConnection_inv [OF assms(1,2) id a] AddConnection_later [OF assms(1,2) id a] by simp_all
  have "ps_currentId v = ps_currentId w \<or> ps_currentId v = ps_currentId w + 1"
  proof (cases res)
    case (Inl e)
    have "ps_currentId w1 = ps_currentId w" if "NewProxyContainer px i w = (x, w1)" for i x w1
      using container.maker_same [OF that] by (simp add: spawner_same_def)
    with a Inl show ?thesis
      by (auto simp: AddConnection_def Let_def spawner.he_same [unfolded spawner_same_def] split: option.splits prod.splits sum.splits)
  next
    case (Inr r)
    with assms(1,2) a show ?thesis by (auto elim!: container.AddConnection_ok)
  qed
  then have "unat (ps_currentId v) \<le> unat (ps_currentId w) + 1"
    using unat_plus_1_no_wrap [OF id] by auto
  with kept a show ?thesis by (simp add: moved_within_def)
qed

section \<open>TCP\<close>

lemma tcp_accept_loop_moves:
  assumes "\<And>c s. px_ok (mk c s)"
  shows "sp_inv w \<Longrightarrow> \<forall>e \<in> set evs. moves_within k (fst e) \<Longrightarrow>
    unat (ps_currentId w) + (k + 1) * length evs < 2 ^ 64 \<Longrightarrow>
    moved_within ((k + 1) * length evs) w (tcp_accept_loop mk ctx evs w)"
proof (induction evs arbitrary: w)
  case (Cons ev evs)
  obtain g acc dial where ev: "ev = (g, acc, dial)" by (cases ev) auto
  let ?n = "(k + 1) * length (ev # evs)"
  have g: "moved_within k w (g w)" using Cons.prems ev by (auto intro: moves_within_moves)
  have next_round: "moved_within ?n w (tcp_accept_loop mk ctx evs v)" if "moved_within (k + 1) w v" for v
  proof -
    from that have v: "sp_inv v" "unat (ps_currentId v) \<le> unat (ps_currentId w) + (k + 1)" by (simp_all add: moved_within_def)
    then have "moved_within ((k + 1) * length evs) v (tcp_accept_loop mk ctx evs v)"
      using Cons.prems by (intro Cons.IH) auto
    with that show ?thesis by (auto dest: moved_within_trans)
  qed
  have stop: "moved_within ?n w v" if "moved_within k w v" for v
    using that by (rule moved_within_mono) simp
  have stay: "moved_within (k + 1) w v" if "moved_within k w v" for v
    using that by (rule moved_within_mono) simp
  have add: "moved_within (k + 1) w (snd (AddConnection NewProxyContainer (mk c s) (g w)))" for c s
    using g Cons.prems(3) assms
    by (intro moved_within_trans [OF g] AddConnection_moves) (auto simp: moved_within_def)
  have cancelled: "moved_within (k + 1) w (w_cancel c e (g w))" for c e
    using stay [OF g] by (rule moved_within_cancel)
  show ?case
    using next_round [OF cancelled] next_round [OF stay [OF g]] next_round [OF add] stop [OF g]
      moved_within_refl [OF Cons.prems(1)]
    by (simp add: ev Let_def split: sum.splits)
qed (simp add: moved_within_refl)

section \<open>UDP\<close>

lemma udp_round_moves:
  assumes "\<And>a d. px_ok (mk a d)" "sp_inv w" "moves_within k g" "unat (ps_currentId w) + (k + 1) < 2 ^ 64"
  shows "moved_within (k + 1) w (snd (udp_round mk sAddr ctx relisten g res i w))"
proof -
  have g: "moved_within k w (g w)" using assms(2,3) by (intro moves_within_moves)
  have add: "moved_within (k + 1) w (snd (AddConnection NewProxyContainer (mk a d) (g w)))" for a d
    using g assms(1,4) by (intro moved_within_trans [OF g] AddConnection_moves) (auto simp: moved_within_def)
  have stay: "moved_within (k + 1) w v" if "moved_within k w v" for v
    using that by (rule moved_within_mono) simp
  have "snd (udp_accept mk sAddr res (g w)) = g w \<or>
      (\<exists>a d. snd (udp_accept mk sAddr res (g w)) = snd (AddConnection NewProxyContainer (mk a d) (g w)))"
    by (cases res; cases "AddConnection NewProxyContainer (mk (fst (projr res)) (snd (projr res))) (g w)")
      (auto simp: udp_accept_def split: sum.splits prod.splits, (metis snd_conv)+)
  then have acc: "moved_within (k + 1) w (snd (udp_accept mk sAddr res (g w)))"
    using add stay [OF g] by auto
  have "snd (udp_round mk sAddr ctx relisten g res i w) \<in>
      {g w, snd (udp_accept mk sAddr res (g w)), w_cancel ctx (Some (ErrorfV ''failed to re listen on udp proxy: '' (the relisten))) w}"
    by (auto simp: udp_round_def Let_def case_prod_beta split: option.splits sum.splits)
  then show ?thesis
    using acc stay [OF g] moved_within_cancel [OF moved_within_refl [OF assms(2)]] by auto
qed

lemma udp_rounds_moves:
  assumes "\<And>a d. px_ok (mk a d)"
  shows "sp_inv w \<Longrightarrow> \<forall>e \<in> set evs. moves_within k (fst (snd e)) \<Longrightarrow>
    unat (ps_currentId w) + (k + 1) * length evs < 2 ^ 64 \<Longrightarrow>
    moved_within ((k + 1) * length evs) w (udp_rounds mk sAddr ctx evs i w)"
proof (induction evs arbitrary: w i)
  case (Cons ev evs)
  obtain relisten g res where ev: "ev = (relisten, g, res)" by (cases ev) auto
  obtain j v where r: "udp_round mk sAddr ctx relisten g res i w = (j, v)" by fastforce
  have "moves_within k g" "unat (ps_currentId w) + (k + 1) < 2 ^ 64" using Cons.prems(2,3) ev by auto
  with udp_round_moves [where mk = mk and k = k and g = g and sAddr = sAddr and ctx = ctx and relisten = relisten
      and res = res and i = i, OF assms Cons.prems(1)] r
  have one: "moved_within (k + 1) w v" by simp
  then have v: "sp_inv v" "unat (ps_currentId v) \<le> unat (ps_currentId w) + (k + 1)" by (simp_all add: moved_within_def)
  then have "moved_within ((k + 1) * length evs) v (udp_rounds mk sAddr ctx evs n v)" for n
    using Cons.prems by (intro Cons.IH) auto
  with one have more: "moved_within ((k + 1) * length (ev # evs)) w (udp_rounds mk sAddr ctx evs n v)" for n
    using moved_within_trans by fastforce
  have "moved_within ((k + 1) * length (ev # evs)) w v" using one by (rule moved_within_mono) simp
  with more moved_within_refl [OF Cons.prems(1)] show ?case by (simp add: ev r split: option.splits)
qed (simp add: moved_within_refl)

section \<open>Both\<close>

text \<open>C29: The real listeners are part of the run the invariant speaks of: in whatever state they start, and
  whatever the network delivers and other goroutines do in between (steps of the program, of which
  each makes at most \<open>k\<close> connections), \<open>TcpListener\<close> and \<open>UdpListener\<close> keep the invariant, undo nothing,
  and add at most one connection in each round, provided that the ids suffice and that writing to
  a socket does not tamper with contexts.\<close>

theorem listeners_keep_invariant:
  assumes "reachable w" "\<And>a d. ext_respects (\<lambda>x. snd (wr a d x))"
    and "\<forall>e \<in> set tcp_evs. moves_within k (fst e)" "unat (ps_currentId w) + (k + 1) * length tcp_evs < 2 ^ 64"
    and "\<forall>e \<in> set udp_evs. moves_within k (fst (snd e))" "unat (ps_currentId w) + (k + 1) * length udp_evs < 2 ^ 64"
  shows "moved_within ((k + 1) * length tcp_evs) w
       (TcpListener resolve open_socket (\<lambda>c s. tcp_IProxy (wr c) (wr s) (newTcpProxy c s)) tcp_evs ctx w) \<and>
     moved_within ((k + 1) * length udp_evs) w
       (UdpListener resolve open_socket (\<lambda>source d. udp_IProxy wr (newUdpProxy source server d)) udp_evs ctx w)"
proof -
  have inv: "sp_inv w" using assms(1) by (rule sp.holds_when_reached)
  have fail: "moved_within n w (w_cancel ctx e w)" for n e
    using moved_within_refl [OF inv] by (rule moved_within_cancel)
  have "moved_within ((k + 1) * length tcp_evs) w (tcp_accept_loop (\<lambda>c s. tcp_IProxy (wr c) (wr s) (newTcpProxy c s)) ctx tcp_evs w)"
    using inv assms(3,4) by (intro tcp_accept_loop_moves tcp_IProxy_ok assms(2))
  moreover have "moved_within ((k + 1) * length udp_evs) w
      (udp_rounds (\<lambda>source d. udp_IProxy wr (newUdpProxy source server d)) sv ctx udp_evs udp_no_proxy w)" for sv
    using inv assms(5,6) by (intro udp_rounds_moves udp_IProxy_ok assms(2))
  ultimately show ?thesis
    using fail by (simp add: TcpListener_def UdpListener_def split: sum.splits option.splits)
qed

definition ex_write :: "addr \<Rightarrow> bytes list conn_write" where
  "ex_write a d x = (None, (fst x, snd x @ [d]))"

definition ex_accepts :: "bytes list accept_event list" where
  "ex_accepts = [(\<lambda>w. w, Inr ex_client, Inr ex_server), (\<lambda>w. w, Inl IoEOF, Inl IoEOF)]"

lemma listeners_keep_invariant_witness:
  "moved_within 2 ex_new (TcpListener (\<lambda>_. Inr ex_proxy) (\<lambda>_. None)
     (\<lambda>c s. tcp_IProxy (ex_write c) (ex_write s) (newTcpProxy c s)) ex_accepts 0 ex_new)"
proof -
  have wr: "\<And>a d. ext_respects (\<lambda>x. snd (ex_write a d x))" by (simp add: ex_write_def ext_respects_def)
  have evs: "\<forall>e \<in> set ex_accepts. moves_within 0 (fst e)"
    by (simp add: ex_accepts_def moves_within_def program_moves_def)
  have "\<forall>e \<in> set []. moves_within 0 (fst (snd e))" "unat (ps_currentId ex_new) + (0 + 1) * length ex_accepts < 2 ^ 64"
      "unat (ps_currentId ex_new) + (0 + 1) * length ([] :: bytes list udp_round_event list) < 2 ^ 64"
    by (simp_all add: ex_new ex_accepts_def)
  from listeners_keep_invariant [where resolve = "\<lambda>_. Inr ex_proxy" and open_socket = "\<lambda>_. None" and ctx = 0 and wr = ex_write
      and server = ex_server, OF ex_new_reachable wr evs this(2,1,3)]
  have "moved_within ((0 + 1) * length ex_accepts) ex_new (TcpListener (\<lambda>_. Inr ex_proxy) (\<lambda>_. None)
      (\<lambda>c s. tcp_IProxy (ex_write c) (ex_write s) (newTcpProxy c s)) ex_accepts 0 ex_new)" by (rule conjunct1)
  moreover have "(0 + 1) * length ex_accepts = 2" by (simp add: ex_accepts_def)
  ultimately show ?thesis by (simp only:)
qed

end
