(* ===== verification/LuaBindings.thy ===== *)
theory LuaBindings
  imports Endpoints
begin

text \<open>
  \<open>ezp_lua/spawner.go\<close>, \<open>ezp_lua/proxy.go\<close> and \<open>ezp_lua/util.go\<close>: the functions a Lua script can
  call. The interpreter is a library: its values are a type parameter, and what the bindings ask
  of it is a record of functions. A binding gets the arguments on the Lua stack and either
  pushes results or raises a Lua error; a Go panic is \<open>None\<close> as elsewhere. The script runs under a
  protected call of the interpreter, which turns a Go panic into a Lua error that the script may
  catch; seen from the script it is \<open>GoPanic\<close>.
\<close>

section \<open>The interpreter\<close>

text \<open>
  The checks of an argument by its position (\<open>Inl\<close> is the error they raise), the constructors of
  values, and the two type assertions. Numbers are given to \<open>lua.LNumber\<close> before Go converts them
  to a float.
\<close>

record 'v lua_lib =
  L_CheckInt :: "'v list \<Rightarrow> nat \<Rightarrow> string + goint"
  L_CheckString :: "'v list \<Rightarrow> nat \<Rightarrow> string + bytes"
  L_CheckFunction :: "'v list \<Rightarrow> nat \<Rightarrow> string + nat"
  L_CheckBool :: "'v list \<Rightarrow> nat \<Rightarrow> string + bool"
  L_LBool :: "bool \<Rightarrow> 'v"
  L_LNumber :: "int \<Rightarrow> 'v"
  L_LString :: "string \<Rightarrow> 'v"
  L_LBytes :: "bytes \<Rightarrow> 'v"
  L_LTable :: "(string \<times> 'v) list \<Rightarrow> 'v"
  L_isBool :: "'v \<Rightarrow> bool option"
  L_isFunction :: "'v \<Rightarrow> nat option"

datatype 'v lua_out = Pushed "'v list" | PushedProxy nat | Raised string | RaisedArg nat string | GoPanic

type_synonym ('v, 's) binding = "'v list \<Rightarrow> 's \<Rightarrow> ('v lua_out \<times> 's) may_panic"

text \<open>\<open>addFunction\<close> wraps a binding in the check of the number of arguments.\<close>

definition addFunction :: "string \<Rightarrow> ('v, 's) binding \<Rightarrow> nat \<Rightarrow> string \<times> ('v, 's) binding" where
  "addFunction name fn args =
     (name, \<lambda>vs s. if length vs \<noteq> args
        then Some (Raised (''Expected '' @ Sprintf_d (int args) @ '' arguments, got '' @ Sprintf_d (int (length vs))), s)
        else fn vs s)"

section \<open>Packets\<close>

definition packet_table :: "'v lua_lib \<Rightarrow> PacketChanData \<Rightarrow> 'v" where
  "packet_table L d = L_LTable L
     [(''serverbound'', L_LBool L (IsServerbound (pcd_Flags d))), (''injected'', L_LBool L (IsInjected (pcd_Flags d))),
      (''flags'', L_LNumber L (uint (pcd_Flags d))), (''source'', L_LString L (addr_String (pcd_Source d))),
      (''dest'', L_LString L (addr_String (pcd_Dest d))), (''proxy_id'', L_LNumber L (sint (pcd_ProxyId d))),
      (''data'', L_LBytes L (pcd_Data d))]"

text \<open>
  \<open>packetDataToTable\<close>; \<open>None\<close> stands for the zero value that is received from a closed channel,
  whose nil \<open>Source\<close> has no \<open>String\<close>.
\<close>

definition packetDataToTable :: "'v lua_lib \<Rightarrow> PacketChanData option \<Rightarrow> 'v may_panic" where
  "packetDataToTable L d = map_option (packet_table L) d"

section \<open>A connection\<close>

definition lua_send :: "(err option \<times> 'e world) may_panic \<Rightarrow> ('v lua_out \<times> 'e world) may_panic" where
  "lua_send res =
     do {
       (err, w) \<leftarrow> res;
       (case err of
          Some e \<Rightarrow> Some (Raised (''Failed to send: '' @ err_Error e), w)
        | None \<Rightarrow> Some (Pushed [], w))
     }"

definition bindSendToClient :: "'v lua_lib \<Rightarrow> nat \<Rightarrow> ('v, 'e world) binding" where
  "bindSendToClient L px vs w =
     (case L_CheckString L vs 1 of
        Inl m \<Rightarrow> Some (Raised m, w)
      | Inr data \<Rightarrow> lua_send (pc_SendToClient HandleSend HandleError px data w))"

definition bindSendToServer :: "'v lua_lib \<Rightarrow> nat \<Rightarrow> ('v, 'e world) binding" where
  "bindSendToServer L px vs w =
     (case L_CheckString L vs 1 of
        Inl m \<Rightarrow> Some (Raised m, w)
      | Inr data \<Rightarrow> lua_send (pc_SendToServer HandleSend HandleError px data w))"

definition px_bindGetId :: "'v lua_lib \<Rightarrow> nat \<Rightarrow> ('v, 'e world) binding" where
  "px_bindGetId L px vs w = Some (Pushed [L_LNumber L (sint (pc_GetId w px))], w)"

definition px_bindNetwork :: "'v lua_lib \<Rightarrow> nat \<Rightarrow> ('v, 'e world) binding" where
  "px_bindNetwork L px vs w = Some (Pushed [L_LString L (pc_Network w px)], w)"

definition px_bindIsAlive :: "'v lua_lib \<Rightarrow> nat \<Rightarrow> ('v, 'e world) binding" where
  "px_bindIsAlive L px vs w = Some (Pushed [L_LBool L (pc_IsAlive w px)], w)"

definition px_bindGetClientAddr :: "'v lua_lib \<Rightarrow> nat \<Rightarrow> ('v, 'e world) binding" where
  "px_bindGetClientAddr L px vs w = Some (Pushed [L_LString L (addr_String (pc_GetClientAddr w px))], w)"

definition px_bindGetServerAddr :: "'v lua_lib \<Rightarrow> nat \<Rightarrow> ('v, 'e world) binding" where
  "px_bindGetServerAddr L px vs w = Some (Pushed [L_LString L (addr_String (pc_GetServerAddr w px))], w)"

definition px_bindGetBytesSent :: "'v lua_lib \<Rightarrow> nat \<Rightarrow> ('v, 'e world) binding" where
  "px_bindGetBytesSent L px vs w = Some (Pushed [L_LNumber L (uint (pc_GetBytesSent w px))], w)"

definition px_bindGetLastContact :: "'v lua_lib \<Rightarrow> nat \<Rightarrow> ('v, 'e world) binding" where
  "px_bindGetLastContact L px vs w = Some (Pushed [L_LNumber L (Milliseconds (pc_LastContactTimeAgo w px))], w)"

text \<open>\<open>ToTable\<close>: the functions of the table that stands for a connection.\<close>

definition luaProxy_ToTable :: "'v lua_lib \<Rightarrow> nat \<Rightarrow> (string \<times> ('v, 'e world) binding) list" where
  "luaProxy_ToTable L px =
     [addFunction ''is_alive'' (px_bindIsAlive L px) 0,
      addFunction ''send_to_client'' (bindSendToClient L px) 1,
      addFunction ''send_to_server'' (bindSendToServer L px) 1,
      addFunction ''get_id'' (px_bindGetId L px) 0,
      addFunction ''get_network'' (px_bindNetwork L px) 0,
      addFunction ''get_server_addr'' (px_bindGetServerAddr L px) 0,
      addFunction ''get_client_addr'' (px_bindGetClientAddr L px) 0,
      addFunction ''get_bytes_sent'' (px_bindGetBytesSent L px) 0,
      addFunction ''get_last_contact'' (px_bindGetLastContact L px) 0]"

end
