(* ===== verification/LuaSpawner.thy ===== *)
theory LuaSpawner
  imports LuaBindings
begin

text \<open>
  \<open>ezp_lua/spawner.go\<close>: the functions of the table that stands for the spawner. Besides the
  spawner they share \<open>luaSpawner\<close>, the receive channel of \<open>get_packets\<close>.
\<close>

section \<open>State\<close>

text \<open>The three nil-able fields: the channel, its context, and the context that \<open>cancel\<close> cancels.\<close>

record luaSpawner =
  ls_rcvChan :: "nat option"
  ls_ctx :: "nat option"
  ls_cancel :: "nat option"

definition new_luaSpawner :: luaSpawner where
  "new_luaSpawner = \<lparr>ls_rcvChan = None, ls_ctx = None, ls_cancel = None\<rparr>"

type_synonym 'e lua_state = "luaSpawner \<times> 'e world"

definition luaSpawner_Close :: "'e lua_state \<Rightarrow> 'e lua_state" where
  "luaSpawner_Close st =
     (case ls_cancel (fst st) of
        None \<Rightarrow> st
      | Some c \<Rightarrow> (\<lparr>ls_rcvChan = None, ls_ctx = None, ls_cancel = None\<rparr>, w_cancel c None (snd st)))"

text \<open>A binding that only needs the spawner.\<close>

definition with_world :: "('v, 'e world) binding \<Rightarrow> ('v, 'e lua_state) binding" where
  "with_world b vs st = map_option (\<lambda>(out, w). (out, fst st, w)) (b vs (snd st))"

section \<open>Bindings\<close>

definition bindGetProxy :: "'v lua_lib \<Rightarrow> ('v, 'e world) binding" where
  "bindGetProxy L vs w =
     (case L_CheckInt L vs 1 of
        Inl m \<Rightarrow> Some (Raised m, w)
      | Inr i \<Rightarrow>
          (case GetProxy i w of
             Inl err \<Rightarrow> Some (Raised (err_Error err), w)
           | Inr px \<Rightarrow> Some (PushedProxy px, w)))"

text \<open>The two arguments of the injecting functions.\<close>

definition inject_args :: "'v lua_lib \<Rightarrow> 'v list \<Rightarrow> string + goint \<times> bytes" where
  "inject_args L vs =
     (case L_CheckInt L vs 1 of
        Inl m \<Rightarrow> Inl m
      | Inr i \<Rightarrow> (case L_CheckString L vs 2 of Inl m \<Rightarrow> Inl m | Inr data \<Rightarrow> Inr (i, data)))"

definition bindInjectToServer :: "'v lua_lib \<Rightarrow> goint list \<Rightarrow> ('v, 'e world) binding" where
  "bindInjectToServer L ks vs w =
     (case inject_args L vs of
        Inl m \<Rightarrow> Some (Raised m, w)
      | Inr (i, data) \<Rightarrow>
          if i = - 1 then lua_send (SendToAllServers ks data w)
          else (case GetProxy i w of
                  Inl err \<Rightarrow> Some (Raised (err_Error err), w)
                | Inr px \<Rightarrow> lua_send (pc_SendToServer HandleSend HandleError px data w)))"

definition bindInjectToClient :: "'v lua_lib \<Rightarrow> goint list \<Rightarrow> ('v, 'e world) binding" where
  "bindInjectToClient L ks vs w =
     (case inject_args L vs of
        Inl m \<Rightarrow> Some (Raised m, w)
      | Inr (i, data) \<Rightarrow>
          if i = - 1 then lua_send (SendToAllClients ks data w)
          else (case GetProxy i w of
                  Inl err \<Rightarrow> Some (Raised (err_Error err), w)
                | Inr px \<Rightarrow> lua_send (pc_SendToClient HandleSend HandleError px data w)))"

definition bindInjectToBoth :: "'v lua_lib \<Rightarrow> goint list \<Rightarrow> ('v, 'e world) binding" where
  "bindInjectToBoth L ks vs w =
     (case inject_args L vs of
        Inl m \<Rightarrow> Some (Raised m, w)
      | Inr (i, data) \<Rightarrow>
          if i = - 1
          then do { (err, w1) \<leftarrow> SendToAllClients ks data w; Some (Pushed [], w1) }
          else (case GetProxy i w of
                  Inl err \<Rightarrow> Some (Raised (err_Error err), w)
                | Inr px \<Rightarrow> do {
                    (err, w1) \<leftarrow> pc_SendToClient HandleSend HandleError px data w;
                    Some (Pushed [], w1)
                  }))"

definition bindIsAlive :: "'v lua_lib \<Rightarrow> ('v, 'e world) binding" where
  "bindIsAlive L vs w = Some (Pushed [L_LBool L (IsAlive w)], w)"

definition bindGetServerAddress :: "'v lua_lib \<Rightarrow> ('v, 'e world) binding" where
  "bindGetServerAddress L vs w = Some (Pushed [L_LString L (addr_String (ps_serverAddr w))], w)"

definition bindGetProxyAddress :: "'v lua_lib \<Rightarrow> ('v, 'e world) binding" where
  "bindGetProxyAddress L vs w = Some (Pushed [L_LString L (addr_String (ps_proxyAddr w))], w)"

definition bindGetBytesSent :: "'v lua_lib \<Rightarrow> ('v, 'e world) binding" where
  "bindGetBytesSent L vs w = Some (Pushed [L_LNumber L (uint (GetBytesSent w))], w)"

definition bindGetProxyCount :: "'v lua_lib \<Rightarrow> goint list \<Rightarrow> ('v, 'e world) binding" where
  "bindGetProxyCount L ks vs w = Some (Pushed [L_LNumber L (int (length (GetAllProxies ks w)))], w)"

text \<open>
  \<open>close\<close>: -2 is the spawner, -1 all connections. \<open>seen\<close> gives the states that follow within the
  second in which \<open>Close\<close> waits, as a list that is empty if nothing happens.
\<close>

definition bindClose :: "'v lua_lib \<Rightarrow> goint list \<Rightarrow> ('e world \<Rightarrow> 'e world list) \<Rightarrow> ('v, 'e lua_state) binding" where
  "bindClose L ks seen vs st =
     (case L_CheckInt L vs 1 of
        Inl m \<Rightarrow> Some (Raised m, st)
      | Inr v \<Rightarrow>
          if v = - 2
          then do {
            w1 \<leftarrow> Close_start (snd st);
            (let err = Close_result (w1 # seen w1); st1 = luaSpawner_Close (fst st, last (w1 # seen w1))
             in case err of
                  Some e \<Rightarrow> Some (Raised (err_Error e), st1)
                | None \<Rightarrow> Some (Pushed [], st1))
          }
          else if v = - 1
          then Some (Pushed [], fst st,
                 foldl (\<lambda>w px. pc_Cancel px (Some ErrProxyClosedOk) w) (snd st) (GetAllProxies ks (snd st)))
          else (case GetProxy v (snd st) of
                  Inl err \<Rightarrow> Some (Raised (err_Error err), st)
                | Inr px \<Rightarrow> Some (Pushed [], fst st, pc_Cancel px (Some ErrProxyClosedOk) (snd st))))"

section \<open>\<open>get_packets\<close>\<close>

text \<open>
  \<open>callbackThread\<close> over the choices of its \<open>select\<close>. \<open>call\<close> is the protected call of the script's
  function with a packet: an error, or the value it leaves on the Lua stack \<open>stk\<close>. Nothing takes these
  values off again, and it is the first of them that \<open>CheckBool(1)\<close> looks at. The script may itself change
  \<open>luaSpawner\<close>; evaluating \<open>s.ctx.Done()\<close> on nil panics, and so does calling a nil \<open>cancel\<close>. These panics
  go to the caller, which is the script under its protected call, so the state at the panic goes on. The result
  \<open>None\<close> means that the loop still runs.
\<close>

datatype lua_packet_event = LuaPacket "PacketChanData option" | LuaCtxDone

definition luaSpawner_cancel :: "'e lua_state \<Rightarrow> 'e lua_state may_panic" where
  "luaSpawner_cancel st = map_option (\<lambda>c. (fst st, w_cancel c None (snd st))) (ls_cancel (fst st))"

fun callbackThread ::
  "'v lua_lib \<Rightarrow> (nat \<Rightarrow> 'v \<Rightarrow> 'e lua_state \<Rightarrow> (err + 'v) \<times> 'e lua_state) \<Rightarrow> nat \<Rightarrow> lua_packet_event list \<Rightarrow>
   'v list \<Rightarrow> 'e lua_state \<Rightarrow> 'v lua_out option \<times> 'e lua_state"
where
  "callbackThread L call f [] stk st = (if ls_ctx (fst st) = None then (Some GoPanic, st) else (None, st))"
| "callbackThread L call f (ev # evs) stk st =
     (if ls_ctx (fst st) = None then (Some GoPanic, st)
      else case ev of
        LuaPacket data \<Rightarrow>
          (case packetDataToTable L data of
             None \<Rightarrow> (Some GoPanic, st)
           | Some tb \<Rightarrow>
               (let (res, st1) = call f tb st in
                case res of
                  Inl err \<Rightarrow>
                    (case luaSpawner_cancel st1 of
                       None \<Rightarrow> (Some GoPanic, st1)
                     | Some st2 \<Rightarrow> callbackThread L call f evs stk st2)
                | Inr ret \<Rightarrow>
                    (let stk1 = stk @ [ret] in
                     case L_CheckBool L stk1 1 of
                       Inl m \<Rightarrow> (Some (Raised m), st1)
                     | Inr v \<Rightarrow>
                         if v then (case luaSpawner_cancel st1 of
                                      None \<Rightarrow> (Some GoPanic, st1)
                                    | Some st2 \<Rightarrow> callbackThread L call f evs stk1 st2)
                         else callbackThread L call f evs stk1 st1)))
      | LuaCtxDone \<Rightarrow>
          (case luaSpawner_cancel st of
             None \<Rightarrow> (Some GoPanic, st)
           | Some st1 \<Rightarrow> (Some (Pushed []), \<lparr>ls_rcvChan = None, ls_ctx = None, ls_cancel = None\<rparr>, snd st1)))"

text \<open>
  \<open>bindSetCallback\<close> gives \<open>GetRecvChan\<close> the context in \<open>s.ctx\<close>; \<open>context.WithCancel\<close>, its first
  statement, panics on a nil parent, before anything is changed. The function is popped off the stack.
\<close>

definition bindSetCallback ::
  "'v lua_lib \<Rightarrow> (nat \<Rightarrow> 'v \<Rightarrow> 'e lua_state \<Rightarrow> (err + 'v) \<times> 'e lua_state) \<Rightarrow> lua_packet_event list \<Rightarrow>
   'v list \<Rightarrow> 'e lua_state \<Rightarrow> 'v lua_out option \<times> 'e lua_state"
where
  "bindSetCallback L call evs vs st =
     (case L_CheckFunction L vs 1 of
        Inl m \<Rightarrow> (Some (Raised m), st)
      | Inr f \<Rightarrow>
          if ls_rcvChan (fst st) = None
          then (case ls_ctx (fst st) of
                  None \<Rightarrow> (Some GoPanic, st)
                | Some c \<Rightarrow>
                    (let (i, w1) = GetRecvChan (Some c) (snd st); r = rc_ctx (w_chans w1 ! i)
                     in callbackThread L call f evs (butlast vs)
                          (\<lparr>ls_rcvChan = Some i, ls_ctx = Some r, ls_cancel = Some r\<rparr>, w1)))
          else callbackThread L call f evs (butlast vs) st)"

section \<open>The table\<close>

text \<open>
  \<open>toTable\<close> without \<open>get_packets\<close>, whose call may not return; it has its own check of one argument.
\<close>

definition luaSpawner_toTable ::
  "'v lua_lib \<Rightarrow> goint list \<Rightarrow> ('e world \<Rightarrow> 'e world list) \<Rightarrow> (string \<times> ('v, 'e lua_state) binding) list"
where
  "luaSpawner_toTable L ks seen =
     [addFunction ''inject_to_server'' (with_world (bindInjectToServer L ks)) 2,
      addFunction ''inject_to_client'' (with_world (bindInjectToClient L ks)) 2,
      addFunction ''inject_to_both'' (with_world (bindInjectToBoth L ks)) 2,
      addFunction ''is_alive'' (with_world (bindIsAlive L)) 0,
      addFunction ''get_server_address'' (with_world (bindGetServerAddress L)) 0,
      addFunction ''get_proxy_address'' (with_world (bindGetProxyAddress L)) 0,
      addFunction ''close'' (bindClose L ks seen) 1,
      addFunction ''get_bytes_sent'' (with_world (bindGetBytesSent L)) 0,
      addFunction ''get_proxy_count'' (with_world (bindGetProxyCount L ks)) 0,
      addFunction ''get_proxy'' (with_world (bindGetProxy L)) 1]"

definition get_packets ::
  "'v lua_lib \<Rightarrow> (nat \<Rightarrow> 'v \<Rightarrow> 'e lua_state \<Rightarrow> (err + 'v) \<times> 'e lua_state) \<Rightarrow> lua_packet_event list \<Rightarrow>
   'v list \<Rightarrow> 'e lua_state \<Rightarrow> 'v lua_out option \<times> 'e lua_state"
where
  "get_packets L call evs vs st =
     (if length vs \<noteq> 1
      then (Some (Raised (''Expected 1 arguments, got '' @ Sprintf_d (int (length vs)))), st)
      else bindSetCallback L call evs vs st)"

text \<open>
  What a script does with the spawner: a sequence of calls by name, of functions of the spawner's table or of
  a connection's, and what the rest of the program does in between. Errors do not end the sequence:
  the script may catch them, also those that stand for a Go panic; a script that does not ends there,
  which any shorter list covers. \<open>crash\<close> is what such a panic leaves behind of the program's state,
  about which nothing is known; the fields of \<open>luaSpawner\<close> are as before the call, since the one binding that changes
  them, \<open>close\<close>, does so after the calls that can panic. A call of \<open>get_packets\<close> that does not return ends the sequence.
\<close>

datatype ('v, 'e) lua_call =
    LuaCall string "'v list"
  | LuaProxyCall nat string "'v list"
  | LuaGetPackets "lua_packet_event list" "'v list"
  | LuaElsewhere "'e world \<Rightarrow> 'e world"

definition protected_call ::
  "('e world \<Rightarrow> 'e world) \<Rightarrow> ('v, 'e lua_state) binding option \<Rightarrow> 'v list \<Rightarrow> 'e lua_state \<Rightarrow>
   'v lua_out option \<times> 'e lua_state"
where
  "protected_call crash b vs st =
     (case b of
        None \<Rightarrow> (Some (Raised ''attempt to call a non-function object''), st)
      | Some fn \<Rightarrow>
          (case fn vs st of
             None \<Rightarrow> (Some GoPanic, fst st, crash (snd st))
           | Some (out, st1) \<Rightarrow> (Some out, st1)))"

definition lua_call ::
  "'v lua_lib \<Rightarrow> goint list \<Rightarrow> ('e world \<Rightarrow> 'e world list) \<Rightarrow> ('e world \<Rightarrow> 'e world) \<Rightarrow>
   (nat \<Rightarrow> 'v \<Rightarrow> 'e lua_state \<Rightarrow> (err + 'v) \<times> 'e lua_state) \<Rightarrow> ('v, 'e) lua_call \<Rightarrow> 'e lua_state \<Rightarrow>
   'v lua_out option \<times> 'e lua_state"
where
  "lua_call L ks seen crash call c st =
     (case c of
        LuaCall name vs \<Rightarrow> protected_call crash (map_of (luaSpawner_toTable L ks seen) name) vs st
      | LuaProxyCall px name vs \<Rightarrow>
          protected_call crash (map_option with_world (map_of (luaProxy_ToTable L px) name)) vs st
      | LuaGetPackets evs vs \<Rightarrow> get_packets L call evs vs st
      | LuaElsewhere g \<Rightarrow> (Some (Pushed []), fst st, g (snd st)))"

fun lua_calls ::
  "'v lua_lib \<Rightarrow> goint list \<Rightarrow> ('e world \<Rightarrow> 'e world list) \<Rightarrow> ('e world \<Rightarrow> 'e world) \<Rightarrow>
   (nat \<Rightarrow> 'v \<Rightarrow> 'e lua_state \<Rightarrow> (err + 'v) \<times> 'e lua_state) \<Rightarrow> ('v, 'e) lua_call list \<Rightarrow> 'e lua_state \<Rightarrow>
   'e lua_state"
where
  "lua_calls L ks seen crash call [] st = st"
| "lua_calls L ks seen crash call (c # cs) st =
     (case lua_call L ks seen crash call c st of
        (None, st1) \<Rightarrow> st1
      | (Some out, st1) \<Rightarrow> lua_calls L ks seen crash call cs st1)"

end
