(* ===== verification/LuaRun.thy ===== *)
theory LuaRun
  imports LuaSpawner Helpers
begin

text \<open>
  \<open>ezp_lua/callback.go\<close> and \<open>ezp_lua/binding.go\<close>: running a script. In callback mode the script's
  \<open>EzpFilter\<close> becomes the spawner's filter, or its \<open>EzpOnPacket\<close> reads a receive channel; in main
  mode \<open>EzpMain\<close> is called. Calls into the script are parameters.
\<close>

section \<open>Callbacks\<close>

text \<open>
  \<open>luaCallback\<close>: the two functions of the script, the receive channel, its context (\<open>None\<close> is
  \<open>context.Background()\<close>), and the contexts behind \<open>luaCancel\<close> and \<open>luaCtx\<close>.
\<close>

record luaCallback =
  lc_onPacket :: "nat option"
  lc_filterPacket :: "nat option"
  lc_rcv :: "nat option"
  lc_rcvCtx :: "nat option"
  lc_luaCancel :: nat
  lc_luaCtx :: nat

text \<open>
  \<open>handleFilters\<close>: \<open>call\<close> is the protected call of the script's function, with an error or the value it left
  on the stack. The function is given the table of the spawner and may use it, so the call works on
  the whole program: the script may inject, close connections, and send packets through its own
  filter. Every failure ends the callback's context and lets the packet pass.
\<close>

definition handleFilters ::
  "'v lua_lib \<Rightarrow> (nat \<Rightarrow> 'v \<Rightarrow> 'e world \<Rightarrow> (err + 'v) \<times> 'e world) \<Rightarrow> nat \<Rightarrow> nat \<Rightarrow> bytes \<Rightarrow> CapFlags \<Rightarrow> nat \<Rightarrow>
   'e world \<Rightarrow> bool \<times> 'e world"
where
  "handleFilters L call fn luaCancel data flags r w =
     (let (res, w1) = call fn (packet_table L (packet_of data flags (pc_view w r))) w;
          failed = (True, w_cancel luaCancel None w1)
      in case res of
           Inl err \<Rightarrow> failed
         | Inr rawRet \<Rightarrow> (case L_isBool L rawRet of None \<Rightarrow> failed | Some v \<Rightarrow> (v, w1)))"

text \<open>
  \<open>HandleSend\<close> when the installed filter is such a function of the whole program. A record cannot hold a
  function on itself, so the field \<open>ps_sendCallback\<close> of the state holds a stand-in for the method value
  \<open>c.handleFilters\<close>, and the function that is called comes as the argument \<open>decide\<close>. All else is
  \<open>HandleSend\<close>, line by line: for a filter that only sees the environment the two are the same.
\<close>

definition HandleSend_script ::
  "('e world \<Rightarrow> bool \<times> 'e world) \<Rightarrow> bytes \<Rightarrow> CapFlags \<Rightarrow> nat \<Rightarrow> 'e world \<Rightarrow> (bool \<times> 'e world) may_panic"
where
  "HandleSend_script decide data flags r w =
     (let pktData = packet_of data flags (pc_view w r);
          w0 = w\<lparr>ps_totalSent := ps_totalSent w + of_nat (length data)\<rparr> in
      do {
        (go_on, w1) \<leftarrow> (case ps_sendCallback w0 of
            None \<Rightarrow> Some (True, w0)
          | Some _ \<Rightarrow>
              (case ps_callbackCtx w0 of
                 None \<Rightarrow> None
               | Some c \<Rightarrow>
                   if ctx_Err (w_ctxs w0) c \<noteq> None
                   then do { w1 \<leftarrow> free_callback w0; Some (True, w1) }
                   else (let (cbResult, w1) = decide w0 in Some (cbResult \<or> IsInjected flags, w1))));
        if \<not> go_on then Some (False, w1)
        else do {
          chans \<leftarrow> send_to_chans pktData (w_ctxs w1) (ps_rcChan w1) (w_chans w1);
          Some (True, w1\<lparr>w_chans := chans\<rparr>)
        }
      })"

lemma HandleSend_script_native:
  "ps_sendCallback w = Some cb \<Longrightarrow>
   HandleSend_script (\<lambda>v. let (b, x) = cb data flags (pc_view v r) (w_ext v) in (b, w_put x v)) data flags r w =
   HandleSend data flags r w"
  by (simp add: HandleSend_script_def HandleSend_def run_sendCallback_def Let_def case_prod_beta split: option.split)

definition sendOnPacket ::
  "'v lua_lib \<Rightarrow> (nat \<Rightarrow> 'v \<Rightarrow> 'e world \<Rightarrow> (err + 'v) \<times> 'e world) \<Rightarrow> nat \<Rightarrow> nat \<Rightarrow> PacketChanData option \<Rightarrow>
   'e world \<Rightarrow> (bool \<times> 'e world) may_panic"
where
  "sendOnPacket L call fn luaCancel pkt w =
     do {
       tb \<leftarrow> packetDataToTable L pkt;
       (let (res, w1) = call fn tb w; failed = (True, w_cancel luaCancel None w1)
        in Some (case res of
                   Inl err \<Rightarrow> failed
                 | Inr rawRet \<Rightarrow> (case L_isBool L rawRet of None \<Rightarrow> failed | Some v \<Rightarrow> (v, w1))))
     }"

text \<open>
  \<open>run\<close>, over the choices of its \<open>select\<close>, each with what the rest of the program does before it.
  A nil channel and the background context are never ready. The flag says whether it returned.
\<close>

datatype callback_event = CbPacket "PacketChanData option" | CbRcvDone | CbLuaDone

fun luaCallback_run ::
  "'v lua_lib \<Rightarrow> (nat \<Rightarrow> 'v \<Rightarrow> 'e world \<Rightarrow> (err + 'v) \<times> 'e world) \<Rightarrow> luaCallback \<Rightarrow>
   (('e world \<Rightarrow> 'e world) \<times> callback_event) list \<Rightarrow> 'e world \<Rightarrow> (bool \<times> 'e world) may_panic"
where
  "luaCallback_run L call c [] w = Some (False, w)"
| "luaCallback_run L call c ((g, ev) # evs) w =
     (let w0 = g w in
      case ev of
        CbPacket pkt \<Rightarrow>
          (case lc_onPacket c of
             None \<Rightarrow> luaCallback_run L call c evs w0
           | Some fn \<Rightarrow> do {
               (uninstall, w1) \<leftarrow> sendOnPacket L call fn (lc_luaCancel c) pkt w0;
               if uninstall then Some (True, w_cancel (lc_luaCancel c) None w1)
               else luaCallback_run L call c evs w1
             })
      | CbRcvDone \<Rightarrow> Some (True, w_cancel (lc_luaCancel c) None w0)
      | CbLuaDone \<Rightarrow> Some (True, w0))"

text \<open>
  \<open>runLuaCallback\<close>. \<open>globals\<close> is \<open>GetGlobal\<close>; \<open>None\<close> is a nil interface, which is no value of Lua.
  \<open>store\<close> gives the stand-in for the method value \<open>c.handleFilters\<close> of a callback with this function and
  this \<open>luaCancel\<close>. The result is \<open>None\<close> while \<open>run\<close> has not returned, otherwise the error; the deferred
  call cancels \<open>luaCtx\<close>, whatever \<open>luaCancel\<close> is by then.
\<close>

definition global_function :: "'v lua_lib \<Rightarrow> (string \<Rightarrow> 'v option) \<Rightarrow> string \<Rightarrow> nat option" where
  "global_function L globals name = (case globals name of None \<Rightarrow> None | Some v \<Rightarrow> L_isFunction L v)"

definition runLuaCallback ::
  "'v lua_lib \<Rightarrow> (string \<Rightarrow> 'v option) \<Rightarrow> (nat \<Rightarrow> nat \<Rightarrow> 'e PacketSendCallback) \<Rightarrow>
   (nat \<Rightarrow> 'v \<Rightarrow> 'e world \<Rightarrow> (err + 'v) \<times> 'e world) \<Rightarrow> (('e world \<Rightarrow> 'e world) \<times> callback_event) list \<Rightarrow>
   nat \<Rightarrow> 'e world \<Rightarrow> (err option option \<times> 'e world) may_panic"
where
  "runLuaCallback L globals store call evs ctx w =
     (let (luaCtx, \<sigma>) = WithCancelCause (Some ctx) (w_ctxs w); w1 = w\<lparr>w_ctxs := \<sigma>\<rparr>;
          return = (\<lambda>e v. Some (Some e, w_cancel luaCtx None v));
          filterPacket = global_function L globals ''EzpFilter'';
          onPacket = global_function L globals ''EzpOnPacket''
      in do {
        (err, w2) \<leftarrow> (case filterPacket of
                        None \<Rightarrow> Some (None, w1)
                      | Some fn \<Rightarrow> TrySetFilterCallback (Some (store fn luaCtx)) (Some luaCtx) w1);
        if err \<noteq> None then return err w2
        else if onPacket \<noteq> None \<and> filterPacket \<noteq> None
        then return (Some (ErrNew ''EzpFilter and EzpOnPacket cannot be defined together'')) w2
        else if onPacket = None \<and> globals ''EzpFilter'' = None
        then return (Some (ErrNew ''no callbacks'')) w2
        else do {
          (c, w3) \<leftarrow> Some (if onPacket \<noteq> None
             then (let (i, v) = GetRecvChan (Some luaCtx) w2; r = rc_ctx (w_chans v ! i)
                   in (\<lparr>lc_onPacket = onPacket, lc_filterPacket = filterPacket, lc_rcv = Some i,
                        lc_rcvCtx = Some r, lc_luaCancel = r, lc_luaCtx = luaCtx\<rparr>, v))
             else (\<lparr>lc_onPacket = onPacket, lc_filterPacket = filterPacket, lc_rcv = None,
                    lc_rcvCtx = None, lc_luaCancel = luaCtx, lc_luaCtx = luaCtx\<rparr>, w2));
          (returned, w4) \<leftarrow> luaCallback_run L call c evs w3;
          if returned then return None w4 else Some (None, w4)
        }
      })"

section \<open>Running a script\<close>

type_synonym LuaRunModes = goint

definition LuaRunMain :: LuaRunModes where "LuaRunMain = 0"
definition LuaRunCallback :: LuaRunModes where "LuaRunCallback = 1"

definition LuaRunModes_String :: "LuaRunModes \<Rightarrow> string" where
  "LuaRunModes_String l =
     (if l = LuaRunMain then ''LuaRunMain'' else if l = LuaRunCallback then ''LuaRunCallback''
      else ''<Unknown LuaRunMode '' @ Sprintf_d (sint l) @ ''>'')"

record luaBindings =
  lb_spawner :: luaSpawner
  lb_executionMode :: LuaRunModes
  lb_path :: string

definition luaBindings_Close :: "luaBindings \<Rightarrow> 'e world \<Rightarrow> luaBindings \<times> 'e world" where
  "luaBindings_Close b w =
     (let (ls, w1) = luaSpawner_Close (lb_spawner b, w) in (b\<lparr>lb_spawner := ls\<rparr>, w1))"

text \<open>\<open>sleep\<close> gives the nanoseconds it sleeps; the product is a 64-bit one. \<open>log\<close> gives what it logs.\<close>

definition bindSleep :: "'v lua_lib \<Rightarrow> 'v list \<Rightarrow> 'v lua_out + goint" where
  "bindSleep L vs =
     (if length vs \<noteq> 1 then Inl (Raised (''Expected 1 argument, got '' @ Sprintf_d (int (length vs))))
      else case L_CheckInt L vs 1 of
        Inl m \<Rightarrow> Inl (Raised m)
      | Inr ms \<Rightarrow> if ms <s 0 then Inl (RaisedArg 1 ''Must be positive'') else Inr (1000000 * ms))"

definition bindLog :: "'v lua_lib \<Rightarrow> 'v list \<Rightarrow> 'v lua_out + slog_Level \<times> bytes" where
  "bindLog L vs =
     (if length vs \<noteq> 2 then Inl (Raised (''Expected 2 arguments, got '' @ Sprintf_d (int (length vs))))
      else case L_CheckInt L vs 1 of
        Inl m \<Rightarrow> Inl (Raised m)
      | Inr lvl \<Rightarrow>
          (case L_CheckString L vs 2 of
             Inl m \<Rightarrow> Inl (Raised m)
           | Inr msg \<Rightarrow>
               if lvl = 0 then Inr (LevelDebug, msg) else if lvl = 1 then Inr (LevelInfo, msg)
               else if lvl = 2 then Inr (LevelWarn, msg) else if lvl = 3 then Inr (LevelError, msg)
               else Inl (RaisedArg 2 ''Argument must be from 0-4'')))"

text \<open>\<open>main_call\<close> is the protected call of \<open>EzpMain\<close>, with all the script does to the program.\<close>

definition runMain ::
  "'v lua_lib \<Rightarrow> (string \<Rightarrow> 'v option) \<Rightarrow> (nat \<Rightarrow> 'e world \<Rightarrow> err option \<times> 'e world) \<Rightarrow> nat \<Rightarrow> 'e world \<Rightarrow> 'e world"
where
  "runMain L globals main_call ctx w =
     (case global_function L globals ''EzpMain'' of
        None \<Rightarrow>
          (if globals ''EzpMain'' = None then w_cancel ctx (Some (ErrNew ''EzpMain was not found'')) w
           else w_cancel ctx (Some (ErrNew ''EzpMain was not a function'')) w)
      | Some fn \<Rightarrow>
          (let (err, w1) = main_call fn w in
           case err of None \<Rightarrow> w1 | Some e \<Rightarrow> w_cancel ctx (Some e) w1))"

definition runCallbacks ::
  "'v lua_lib \<Rightarrow> (string \<Rightarrow> 'v option) \<Rightarrow> (nat \<Rightarrow> nat \<Rightarrow> 'e PacketSendCallback) \<Rightarrow>
   (nat \<Rightarrow> 'v \<Rightarrow> 'e world \<Rightarrow> (err + 'v) \<times> 'e world) \<Rightarrow> (('e world \<Rightarrow> 'e world) \<times> callback_event) list \<Rightarrow>
   nat \<Rightarrow> 'e world \<Rightarrow> (bool \<times> 'e world) may_panic"
where
  "runCallbacks L globals store call evs ctx w =
     do {
       (res, w1) \<leftarrow> runLuaCallback L globals store call evs ctx w;
       Some (case res of
               None \<Rightarrow> (False, w1)
             | Some (Some err) \<Rightarrow> (True, w_cancel ctx (Some err) w1)
             | Some None \<Rightarrow> (True, w_cancel ctx (Some (ErrNew ''done running'')) w1))
     }"

text \<open>\<open>run\<close> of \<open>binding.go\<close>; \<open>doFile\<close> is the error of loading the file. The flag: it has returned.\<close>

definition luaBindings_run ::
  "err option \<Rightarrow> LuaRunModes \<Rightarrow> 'v lua_lib \<Rightarrow> (string \<Rightarrow> 'v option) \<Rightarrow> (nat \<Rightarrow> 'e world \<Rightarrow> err option \<times> 'e world) \<Rightarrow>
   (nat \<Rightarrow> nat \<Rightarrow> 'e PacketSendCallback) \<Rightarrow> (nat \<Rightarrow> 'v \<Rightarrow> 'e world \<Rightarrow> (err + 'v) \<times> 'e world) \<Rightarrow>
   (('e world \<Rightarrow> 'e world) \<times> callback_event) list \<Rightarrow> 'e world \<Rightarrow> (bool \<times> 'e world) may_panic"
where
  "luaBindings_run doFile mode L globals main_call store call evs w =
     (if doFile \<noteq> None then Some (True, w)
      else (let (ctx, \<sigma>) = WithCancelCause (Some (ps_context w)) (w_ctxs w); w1 = w\<lparr>w_ctxs := \<sigma>\<rparr> in
        if mode = LuaRunMain then Some (True, runMain L globals main_call ctx w1)
        else if mode = LuaRunCallback then runCallbacks L globals store call evs ctx w1
        else None))"

text \<open>\<open>NewLuaBindingFromFile\<close> never fails; it gives the bindings whose \<open>run\<close> it starts in a goroutine.\<close>

definition NewLuaBindingFromFile :: "string \<Rightarrow> LuaRunModes \<Rightarrow> err option \<times> luaBindings" where
  "NewLuaBindingFromFile path mode =
     (None, \<lparr>lb_spawner = new_luaSpawner, lb_executionMode = mode, lb_path = path\<rparr>)"

end
