(* ===== verification/LuaProps.thy ===== *)
theory LuaProps
  imports LuaRun LifecycleProps
begin

text \<open>
  Properties of the Lua bindings: what a failing filter script does to the traffic, how a script
  run in callback mode ends, and the functions of the spawner's table that do not do what they
  are named after.
\<close>

section \<open>An interpreter to run the properties on\<close>

text \<open>Values with a constructor for each kind the bindings use; the checks look at the position.\<close>

datatype ex_val = ExNum int | ExStr bytes | ExText string | ExBool bool | ExFun nat | ExTable "(string \<times> ex_val) list"

definition ex_arg :: "ex_val list \<Rightarrow> nat \<Rightarrow> (ex_val \<Rightarrow> 'a option) \<Rightarrow> string + 'a" where
  "ex_arg vs n f =
     (if n = 0 \<or> length vs < n then Inl ''value expected''
      else case f (vs ! (n - 1)) of None \<Rightarrow> Inl ''bad argument'' | Some x \<Rightarrow> Inr x)"

definition ex_lua :: "ex_val lua_lib" where
  "ex_lua = \<lparr>L_CheckInt = (\<lambda>vs n. ex_arg vs n (\<lambda>v. case v of ExNum i \<Rightarrow> Some (word_of_int i) | _ \<Rightarrow> None)),
     L_CheckString = (\<lambda>vs n. ex_arg vs n (\<lambda>v. case v of ExStr s \<Rightarrow> Some s | _ \<Rightarrow> None)),
     L_CheckFunction = (\<lambda>vs n. ex_arg vs n (\<lambda>v. case v of ExFun f \<Rightarrow> Some f | _ \<Rightarrow> None)),
     L_CheckBool = (\<lambda>vs n. ex_arg vs n (\<lambda>v. case v of ExBool b \<Rightarrow> Some b | _ \<Rightarrow> None)),
     L_LBool = ExBool, L_LNumber = ExNum, L_LString = ExText, L_LBytes = ExStr, L_LTable = ExTable,
     L_isBool = (\<lambda>v. case v of ExBool b \<Rightarrow> Some b | _ \<Rightarrow> None),
     L_isFunction = (\<lambda>v. case v of ExFun f \<Rightarrow> Some f | _ \<Rightarrow> None)\<rparr>"

section \<open>A filter script that fails\<close>

text \<open>The script's answer is not a boolean, or the call failed.\<close>

definition no_verdict :: "'v lua_lib \<Rightarrow> err + 'v \<Rightarrow> bool" where
  "no_verdict L res = (case res of Inl _ \<Rightarrow> True | Inr v \<Rightarrow> L_isBool L v = None)"

text \<open>What is assumed of a script: whatever it does with the functions it is given are steps of the program.\<close>

definition script_moves :: "(nat \<Rightarrow> 'v \<Rightarrow> 'e world \<Rightarrow> (err + 'v) \<times> 'e world) \<Rightarrow> bool" where
  "script_moves call \<longleftrightarrow> (\<forall>fn tb. program_moves (\<lambda>w. snd (call fn tb w)))"

lemma handleFilters_fails:
  "no_verdict L (fst (call fn (packet_table L (packet_of d f (pc_view w r))) w)) \<Longrightarrow>
   handleFilters L call fn c d f r w = (True, w_cancel c None (snd (call fn (packet_table L (packet_of d f (pc_view w r))) w)))"
  by (auto simp: handleFilters_def no_verdict_def Let_def split: prod.splits sum.splits)

text \<open>A call that failed in this way leaves every filter context below \<open>luaCtx\<close> dead.\<close>

lemma cancel_cause_below:
  assumes "ctx_wf \<tau>" "ctx_under \<tau> c f" "f < length \<tau>"
  shows "Cause (cancel_cause c e \<tau>) f \<noteq> None"
proof (cases "Cause \<tau> c")
  case None
  moreover have "c < length \<tau>" using ctx_under_le [OF assms(2)] assms(3) by simp
  ultimately show ?thesis
    using assms by (auto simp: Cause_cancel_cause split: option.splits)
next
  case (Some x)
  then have "Cause \<tau> f \<noteq> None" using ctx_under_dead [OF assms(2,1)] by simp
  then show ?thesis by (rule ctx_le_dead [OF cancel_cause_le])
qed

text \<open>A stale filter is freed, whatever function it stands for.\<close>

lemma HandleSend_script_stale:
  assumes "sp_inv w" "ps_sendCallback w \<noteq> None" "ps_callbackCtx w = Some f" "Cause (w_ctxs w) f \<noteq> None"
  shows "\<exists>v. HandleSend_script decide d flags r w = Some (True, v) \<and> ps_sendCallback v = None \<and>
     ps_callbackCtx v = None \<and> ps_callbackCancel v = None \<and> w_env v = w_env w"
proof -
  let ?w0 = "w\<lparr>ps_totalSent := ps_totalSent w + of_nat (length d)\<rparr>"
  have same: "HandleSend_script decide d flags r w = HandleSend d flags r w"
    using assms(2-4) by (auto simp: HandleSend_script_def HandleSend_def run_sendCallback_def Let_def)
  obtain b v where h: "HandleSend d flags r w = Some (b, v)" using assms(1) by (rule HandleSend_total)
  have stale: "sp_inv ?w0" "ps_sendCallback ?w0 = None \<or> (\<exists>c. ps_callbackCtx ?w0 = Some c \<and> ctx_Err (w_ctxs ?w0) c \<noteq> None)"
    "ps_sendCallback ?w0 \<noteq> None"
    using assms by simp_all
  then obtain u where run: "run_sendCallback d flags r ?w0 = Some (True, u)" "w_env u = w_env w" "ps_sendCallback u = None"
      "ps_callbackCtx u = None \<and> ps_callbackCancel u = None"
    by (elim run_sendCallback_unfiltered [of ?w0 d flags r]) simp_all
  from h have "b \<and> ps_sendCallback v = None \<and> ps_callbackCtx v = None \<and> ps_callbackCancel v = None \<and> w_env v = w_env w"
    by (cases rule: HandleSend_cases) (use run in auto)
  with same h show ?thesis by simp
qed

lemma delivery_total:
  assumes "sp_inv w"
  shows "\<exists>chans. send_to_chans p (w_ctxs w) (ps_rcChan w) (w_chans w) = Some chans \<and> sp_inv (w\<lparr>w_chans := chans\<rparr>)"
proof -
  obtain chans where c: "send_to_chans p (w_ctxs w) (ps_rcChan w) (w_chans w) = Some chans"
    using send_to_chans_no_panic [of "ps_rcChan w" "w_chans w" "w_ctxs w" p] assms
    by (auto simp: sp_inv_def inv_chans_def)
  moreover have "sp_inv (w\<lparr>w_chans := chans\<rparr>)"
    using assms send_to_chans_length [OF c] send_to_chans_ctx_closed [OF c] by (intro sp_inv_chans_same) blast+
  ultimately show ?thesis by blast
qed

text \<open>What a failing script leaves: the packet passes, the filter's context is dead.\<close>

lemma failing_filter_uninstalled:
  assumes "sp_inv w" "ps_sendCallback w \<noteq> None" "ps_callbackCtx w = Some f" "ctx_Err (w_ctxs w) f = None"
    and "ctx_under (w_ctxs w) c f" "script_moves call"
    and "no_verdict L (fst (call fn (packet_table L (packet_of d flags (pc_view w r)))
           (w\<lparr>ps_totalSent := ps_totalSent w + of_nat (length d)\<rparr>)))"
  shows "\<exists>v. HandleSend_script (handleFilters L call fn c d flags r) d flags r w = Some (True, v) \<and> sp_inv v \<and>
     Cause (w_ctxs v) f \<noteq> None"
proof -
  let ?w0 = "w\<lparr>ps_totalSent := ps_totalSent w + of_nat (length d)\<rparr>"
  have view: "pc_view ?w0 r = pc_view w r"
    by (simp add: pc_view_def pc_GetId_def pc_Network_def pc_GetClientAddr_def pc_GetServerAddr_def)
  let ?w1 = "snd (call fn (packet_table L (packet_of d flags (pc_view w r))) ?w0)"
  let ?w2 = "w_cancel c None ?w1"
  have move: "sp_inv ?w1 \<and> w_later ?w0 ?w1"
    using assms(1,6) unfolding script_moves_def program_moves_def by simp
  have inv: "sp_inv ?w2" using move by (simp add: sp_inv_w_cancel)
  have decided: "handleFilters L call fn c d flags r ?w0 = (True, ?w2)"
    using handleFilters_fails [of L call fn d flags ?w0 r c] assms(7) by (simp add: view)
  from delivery_total [OF inv] obtain chans
    where chans: "send_to_chans (packet_of d flags (pc_view w r)) (w_ctxs ?w2) (ps_rcChan ?w2) (w_chans ?w2) = Some chans"
      "sp_inv (?w2\<lparr>w_chans := chans\<rparr>)" by blast
  let ?v = "?w2\<lparr>w_chans := chans\<rparr>"
  have "HandleSend_script (handleFilters L call fn c d flags r) d flags r w = Some (True, ?v)"
    using assms(2-4) decided chans(1) by (auto simp: HandleSend_script_def Let_def)
  moreover have "sp_inv ?v" by (rule chans(2))
  moreover have "Cause (w_ctxs ?v) f \<noteq> None"
  proof -
    have wf: "ctx_wf (w_ctxs w)" "f < length (w_ctxs w)"
      using assms(1,3) by (simp_all add: sp_inv_def inv_ctx_def inv_cb_def)
    have le: "ctx_le (w_ctxs w) (w_ctxs ?w1)" using move by (auto dest: w_laterD(1))
    have "ctx_wf (w_ctxs ?w1)" using move by (simp add: sp_inv_def inv_ctx_def)
    then have "Cause (cancel_cause c None (w_ctxs ?w1)) f \<noteq> None"
      using ctx_under_mono [OF assms(5) le] ctx_le_length [OF le wf(2)] by (rule cancel_cause_below)
    then show ?thesis by simp
  qed
  ultimately show ?thesis by blast
qed

text \<open>C20: A filter script that fails opens the filter: if \<open>EzpFilter\<close> raises an error or answers anything
  but a boolean, the packet passes although the script did not say so, and the context of the filter
  is dead; and if it is still the installed one when the next packet comes, that packet passes too, whatever
  it is, frees the callback and is not shown to the script, nor to any other function. The script may use
  the spawner while it decides: inject packets, which come through the same filter, close
  connections, and even have the filter freed. Assumed is only that what it does are steps of the
  program; the filter's context must be below the one that the callback cancels, as \<open>runLuaCallback\<close> arranges it.\<close>

theorem lua_filter_fails_open:
  assumes "reachable w" "ps_sendCallback w = Some (store fn c)" "ps_callbackCtx w = Some f"
    and "ctx_Err (w_ctxs w) f = None" "ctx_under (w_ctxs w) c f" "script_moves call"
    and "no_verdict L (fst (call fn (packet_table L (packet_of d flags (pc_view w r)))
           (w\<lparr>ps_totalSent := ps_totalSent w + of_nat (length d)\<rparr>)))"
  shows "\<exists>v. HandleSend_script (handleFilters L call fn c d flags r) d flags r w = Some (True, v) \<and>
     ctx_Err (w_ctxs v) f \<noteq> None \<and>
     (ps_sendCallback v \<noteq> None \<and> ps_callbackCtx v = Some f \<longrightarrow>
        (\<exists>u. HandleSend_script decide d' flags' r' v = Some (True, u) \<and> ps_sendCallback u = None \<and>
           ps_callbackCtx u = None \<and> ps_callbackCancel u = None \<and> w_env u = w_env v))"
proof -
  have inv: "sp_inv w" and set: "ps_sendCallback w \<noteq> None"
    using assms(1,2) by (auto intro: sp.holds_when_reached)
  from failing_filter_uninstalled [OF inv set assms(3-7)] obtain v where
    v: "HandleSend_script (handleFilters L call fn c d flags r) d flags r w = Some (True, v)" "sp_inv v" "Cause (w_ctxs v) f \<noteq> None"
    by blast
  with HandleSend_script_stale [OF v(2) _ _ v(3)] show ?thesis by (intro exI [of _ v]) simp
qed

text \<open>A script that injects into connection 0 before it answers with a number, and the state with its filter.\<close>

definition ex_bad_script :: "nat \<Rightarrow> ex_val \<Rightarrow> bytes list world \<Rightarrow> (err + ex_val) \<times> bytes list world" where
  "ex_bad_script fn tb w =
     (Inr (ExNum 1), case bindInjectToClient ex_lua [] [ExNum 0, ExStr [9]] w of None \<Rightarrow> w | Some (out, v) \<Rightarrow> v)"

definition ex_store :: "nat \<Rightarrow> nat \<Rightarrow> bytes list PacketSendCallback" where
  "ex_store fn c d f p x = (False, x)"

definition ex_lua_filter :: "bytes list world" where
  "ex_lua_filter = set_callback (Some (ex_store 0 2)) None ex_conn"

lemma ex_bad_script_inject:
  "snd (ex_bad_script fn tb w) = w \<or>
   (\<exists>px e v. ps_connections w 0 = Some px \<and> pc_SendToClient HandleSend HandleError px [9] w = Some (e, v) \<and>
      snd (ex_bad_script fn tb w) = v)"
proof -
  have args: "inject_args ex_lua [ExNum 0, ExStr [9]] = Inr (0, [9])"
    by (simp add: inject_args_def ex_lua_def ex_arg_def)
  show ?thesis
  proof (cases "ps_connections w 0")
    case None
    then show ?thesis by (simp add: ex_bad_script_def bindInjectToClient_def args GetProxy_def)
  next
    case (Some px)
    then show ?thesis
      by (cases "pc_SendToClient HandleSend HandleError px [9] w")
        (auto simp: ex_bad_script_def bindInjectToClient_def args GetProxy_def lua_send_def split: option.splits)
  qed
qed

lemma ex_bad_script_moves: "script_moves ex_bad_script"
  unfolding script_moves_def program_moves_def
proof (intro allI impI)
  fix fn tb and w :: "bytes list world"
  assume inv: "sp_inv w"
  then have known: "ps_connections w 0 = Some px \<Longrightarrow> px < length (w_pcs w)" for px
    by (auto simp: sp_inv_def inv_conns_def)
  from ex_bad_script_inject [of fn tb w] show "sp_inv (snd (ex_bad_script fn tb w)) \<and> w_later w (snd (ex_bad_script fn tb w))"
    using inv known by (auto dest!: pc_SendToClient_sends intro: sends_inv sends_later)
qed

lemma ex_store_ok: "send_cb_ok (ex_store fn c)"
  by (simp add: send_cb_ok_def ex_store_def ext_respects_def)

lemma ex_lua_filter: "ex_lua_filter = ex_conn\<lparr>w_ctxs := w_ctxs ex_conn @ [\<lparr>ctx_parent = None, ctx_cause = None\<rparr>],
    ps_sendCallback := Some (ex_store 0 2), ps_callbackCtx := Some 2, ps_callbackCancel := Some 2\<rparr>"
  by (simp add: ex_lua_filter_def set_callback_def WithCancelCause_def ex_conn)

lemma ex_lua_filter_reachable: "reachable ex_lua_filter"
proof (rule reach_next [OF ex_conn_reachable])
  have "TrySetFilterCallback (Some (ex_store 0 2)) None ex_conn = Some (None, ex_lua_filter)"
    by (simp add: TrySetFilterCallback_def ex_lua_filter_def ex_conn ex_new)
  then show "spawner_step ex_conn ex_lua_filter"
    by (rule step_filter [rotated 2]) (auto simp: ex_store_ok)
qed

lemma lua_filter_fails_open_witness:
  "\<exists>v. HandleSend_script (handleFilters ex_lua ex_bad_script 0 2 [1] 0 0) [1] 0 0 ex_lua_filter = Some (True, v) \<and>
     ctx_Err (w_ctxs v) 2 \<noteq> None"
proof -
  let ?w0 = "ex_lua_filter\<lparr>ps_totalSent := ps_totalSent ex_lua_filter + of_nat (length [1 :: 8 word])\<rparr>"
  have facts: "ps_sendCallback ex_lua_filter = Some (ex_store 0 2)" "ps_callbackCtx ex_lua_filter = Some 2"
      "ctx_Err (w_ctxs ex_lua_filter) 2 = None"
    by (simp_all add: ex_lua_filter) (simp add: ex_conn Cause_def)
  have "no_verdict ex_lua (fst (ex_bad_script 0 (packet_table ex_lua (packet_of [1] 0 (pc_view ex_lua_filter 0))) ?w0))"
    by (simp add: no_verdict_def ex_bad_script_def ex_lua_def)
  from lua_filter_fails_open [where store = ex_store and decide = "\<lambda>w. (True, w)" and d' = "[2]" and flags' = 0 and r' = 0, OF ex_lua_filter_reachable facts ctx_under_refl ex_bad_script_moves this]
  show ?thesis by blast
qed

section \<open>How callback mode ends\<close>

lemma sendOnPacket_moves:
  assumes "sp_inv w" "\<And>tb. program_moves (\<lambda>w. snd (call fn tb w))" "sendOnPacket L call fn c pkt w = Some (b, v)"
  shows "sp_inv v \<and> w_later w v"
proof -
  from assms(3) obtain tb where tb: "packetDataToTable L pkt = Some tb"
    by (auto simp: sendOnPacket_def Option.bind_eq_Some_conv)
  have "v = snd (call fn tb w) \<or> v = w_cancel c None (snd (call fn tb w))"
    using assms(3) tb
    by (cases "call fn tb w"; cases "fst (call fn tb w)")
      (auto simp: sendOnPacket_def Let_def split: option.splits)
  moreover have "sp_inv (snd (call fn tb w)) \<and> w_later w (snd (call fn tb w))"
    using assms(1,2) by (simp add: program_moves_def)
  ultimately show ?thesis using moved_cancel by metis
qed

lemma luaCallback_run_moves:
  "sp_inv w \<Longrightarrow> script_moves call \<Longrightarrow> list_all program_moves (map fst evs) \<Longrightarrow>
   luaCallback_run L call c evs w = Some (b, v) \<Longrightarrow> sp_inv v \<and> w_later w v"
proof (induction L call c evs w rule: luaCallback_run.induct)
  case (2 L call c g ev evs w)
  from 2(3,5) have g: "sp_inv (g w) \<and> w_later w (g w)" by (simp add: program_moves_def)
  show ?case
  proof (cases ev)
    case (CbPacket pkt)
    show ?thesis
    proof (cases "lc_onPacket c")
      case None
      with 2 CbPacket g show ?thesis by (auto intro: w_later_trans)
    next
      case (Some fn)
      with 2(6) CbPacket obtain uninstall w1 where s: "sendOnPacket L call fn (lc_luaCancel c) pkt (g w) = Some (uninstall, w1)"
        and k: "(if uninstall then Some (True, w_cancel (lc_luaCancel c) None w1) else luaCallback_run L call c evs w1) = Some (b, v)"
        by (auto simp: Option.bind_eq_Some_conv)
      have "sp_inv w1 \<and> w_later (g w) w1"
        using g s 2(4) by (intro sendOnPacket_moves) (simp_all add: script_moves_def)
      with g have m: "sp_inv w1 \<and> w_later w w1" by (rule moved_trans)
      show ?thesis
      proof (cases uninstall)
        case True
        with k moved_cancel [OF m] show ?thesis by auto
      next
        case False
        with k have k': "luaCallback_run L call c evs w1 = Some (b, v)" by simp
        have "sp_inv v \<and> w_later w1 v"
          using 2(2) [OF refl CbPacket Some s _ _ _ _ _ k'] 2(4,5) m False by simp
        with m show ?thesis by (rule moved_trans)
      qed
    qed
  next
    case CbRcvDone
    with 2 moved_cancel [OF g] show ?thesis by auto
  next
    case CbLuaDone
    with 2 g show ?thesis by simp
  qed
qed simp

text \<open>
  What \<open>runLuaCallback\<close> reports when it returns: a filter that could not be set because a live one is there,
  two callbacks, or none. The last is only reported where the value of the global is Go's nil.
\<close>

definition filter_busy :: "'e world \<Rightarrow> bool" where
  "filter_busy w \<longleftrightarrow> (\<exists>c. ps_callbackCtx w = Some c \<and> Cause (w_ctxs w) c = None)"

definition callback_error :: "'v lua_lib \<Rightarrow> (string \<Rightarrow> 'v option) \<Rightarrow> bool \<Rightarrow> err option" where
  "callback_error L globals busy =
     (let f = global_function L globals ''EzpFilter''; p = global_function L globals ''EzpOnPacket'' in
      if f \<noteq> None \<and> busy then Some (ErrNew ''callback already exists'')
      else if f \<noteq> None \<and> p \<noteq> None then Some (ErrNew ''EzpFilter and EzpOnPacket cannot be defined together'')
      else if p = None \<and> globals ''EzpFilter'' = None then Some (ErrNew ''no callbacks'')
      else None)"

lemma set_filter_error:
  assumes "(case f of None \<Rightarrow> Some (None, w) | Some fn \<Rightarrow> TrySetFilterCallback (cb fn) parent w) = Some (err, v)"
  shows "err = (if f \<noteq> None \<and> filter_busy w then Some (ErrNew ''callback already exists'') else None)"
proof (cases f)
  case (Some fn)
  with assms have "TrySetFilterCallback (cb fn) parent w = Some (err, v)" by simp
  then show ?thesis by (cases rule: TrySetFilterCallback_cases) (auto simp: Some filter_busy_def)
qed (use assms in simp)

text \<open>The states along \<open>runLuaCallback\<close>: its own context first, then the filter, then the loop.\<close>

lemma runLuaCallback_returns:
  assumes "runLuaCallback L globals store call evs ctx w = Some (Some res, v)"
    and "WithCancelCause (Some ctx) (w_ctxs w) = (luaCtx, \<sigma>)"
  defines "w1 \<equiv> w\<lparr>w_ctxs := \<sigma>\<rparr>"
  obtains err w2 w4 where "v = w_cancel luaCtx None w4" "res = callback_error L globals (filter_busy w1)"
      "w2 = w1 \<or> (\<exists>fn. TrySetFilterCallback (Some (store fn luaCtx)) (Some luaCtx) w1 = Some (err, w2))"
      "w4 = w2 \<or> (\<exists>c w3. (w3 = w2 \<or> w3 = snd (GetRecvChan (Some luaCtx) w2)) \<and>
         luaCallback_run L call c evs w3 = Some (True, w4))"
proof -
  let ?f = "global_function L globals ''EzpFilter''" and ?p = "global_function L globals ''EzpOnPacket''"
  have "\<exists>err w2. (case ?f of None \<Rightarrow> Some (None, w1)
      | Some fn \<Rightarrow> TrySetFilterCallback (Some (store fn luaCtx)) (Some luaCtx) w1) = Some (err, w2)"
    using assms by (auto simp: runLuaCallback_def Let_def Option.bind_eq_Some_conv)
  then obtain err w2 where t: "(case ?f of None \<Rightarrow> Some (None, w1)
      | Some fn \<Rightarrow> TrySetFilterCallback (Some (store fn luaCtx)) (Some luaCtx) w1) = Some (err, w2)"
    by blast
  have w2: "w2 = w1 \<or> (\<exists>fn. TrySetFilterCallback (Some (store fn luaCtx)) (Some luaCtx) w1 = Some (err, w2))"
    using t by (auto split: option.splits)
  have err: "err = (if ?f \<noteq> None \<and> filter_busy w1 then Some (ErrNew ''callback already exists'') else None)"
    using t by (rule set_filter_error)
  have nil: "?f \<noteq> None \<Longrightarrow> globals ''EzpFilter'' \<noteq> None" by (auto simp: global_function_def split: option.splits)
  note body = assms(1) [unfolded runLuaCallback_def Let_def assms(2) prod.case, folded w1_def, unfolded t]
  show ?thesis
  proof (cases "callback_error L globals (filter_busy w1)")
    case None
    then have ok: "err = None" "\<not> (?p \<noteq> None \<and> ?f \<noteq> None)" "\<not> (?p = None \<and> globals ''EzpFilter'' = None)"
      using err nil by (auto simp: callback_error_def Let_def split: if_splits)
    obtain i u where chan: "GetRecvChan (Some luaCtx) w2 = (i, u)" by fastforce
    from body ok chan obtain c w3 w4 where r: "luaCallback_run L call c evs w3 = Some (True, w4)"
        "v = w_cancel luaCtx None w4" "res = None" "w3 = w2 \<or> w3 = u"
      by (auto simp: Option.bind_eq_Some_conv split: if_splits)
    then have "(w3 = w2 \<or> w3 = snd (GetRecvChan (Some luaCtx) w2)) \<and> luaCallback_run L call c evs w3 = Some (True, w4)"
      by (simp add: chan)
    with r None show ?thesis by (intro that [OF _ _ w2]) auto
  next
    case (Some e)
    with err body nil have "v = w_cancel luaCtx None w2 \<and> res = Some e"
      by (auto simp: callback_error_def Let_def split: if_splits)
    with Some w2 show ?thesis by (intro that [of w2]) auto
  qed
qed

text \<open>A closed receive channel yields a zero packet, which cannot be turned into a table.\<close>

lemma closed_channel_panics:
  "lc_onPacket c = Some fn \<Longrightarrow> luaCallback_run L call c ((g, CbPacket None) # evs) w = None"
  by (simp add: sendOnPacket_def packetDataToTable_def)


definition ex_globals :: "string \<Rightarrow> ex_val option" where
  "ex_globals name = Some (if name = ''EzpOnPacket'' then ExFun 0 else ExNum 0)"

definition ex_script :: "nat \<Rightarrow> ex_val \<Rightarrow> bytes list world \<Rightarrow> (err + ex_val) \<times> bytes list world" where
  "ex_script fn tb w = (Inr (ExBool True), w)"

definition ex_rounds :: "((bytes list world \<Rightarrow> bytes list world) \<times> callback_event) list" where
  "ex_rounds = [(\<lambda>w. w, CbPacket (Some (packet_of [1] 0 (pc_view ex_conn 0))))]"


section \<open>The spawner's table\<close>

text \<open>A script that never gets a receive channel has none: the bindings do not make one.\<close>

lemma table_binding_keeps:
  assumes "map_of (luaSpawner_toTable L ks seen) name = Some b" "b vs st = Some (out, st1)" "fst st = new_luaSpawner"
  shows "fst st1 = new_luaSpawner"
proof -
  have kept: "with_world b' vs' st = Some (out, st1) \<Longrightarrow> fst st1 = new_luaSpawner" for b' vs'
    using assms(3) by (auto simp: with_world_def)
  have "bindClose L ks seen vs' st = Some (out, st1) \<Longrightarrow> fst st1 = new_luaSpawner" for vs'
    using assms(3)
    by (auto simp: bindClose_def luaSpawner_Close_def Let_def new_luaSpawner_def Option.bind_eq_Some_conv
        split: sum.splits if_splits option.splits)
  with kept assms show ?thesis
    by (auto simp: luaSpawner_toTable_def addFunction_def split: if_splits)
qed

lemma get_packets_new:
  assumes "fst st = new_luaSpawner"
  shows "get_packets L call evs vs st =
    (Some (if length vs \<noteq> 1 then Raised (''Expected 1 arguments, got '' @ Sprintf_d (int (length vs)))
           else case L_CheckFunction L vs 1 of Inl m \<Rightarrow> Raised m | Inr f \<Rightarrow> GoPanic), st)"
  using assms by (auto simp: get_packets_def bindSetCallback_def new_luaSpawner_def split: sum.split)

lemma protected_call_keeps:
  assumes "\<And>fn out st1. b = Some fn \<Longrightarrow> fn vs st = Some (out, st1) \<Longrightarrow> fst st1 = fst st"
    and "protected_call crash b vs st = (out, st1)"
  shows "fst st1 = fst st"
  using assms by (auto simp: protected_call_def split: option.splits)

lemma lua_call_keeps:
  assumes "lua_call L ks seen crash call c st = (out, st1)" "fst st = new_luaSpawner"
  shows "fst st1 = new_luaSpawner"
proof (cases c)
  case (LuaCall name vs)
  with assms(1) have "protected_call crash (map_of (luaSpawner_toTable L ks seen) name) vs st = (out, st1)"
    by (simp add: lua_call_def)
  then have "fst st1 = fst st"
    by (rule protected_call_keeps [rotated]) (use assms(2) in \<open>auto dest: table_binding_keeps\<close>)
  with assms(2) show ?thesis by simp
next
  case (LuaProxyCall px name vs)
  with assms(1) have "protected_call crash (map_option with_world (map_of (luaProxy_ToTable L px) name)) vs st = (out, st1)"
    by (simp add: lua_call_def)
  then have "fst st1 = fst st"
    by (rule protected_call_keeps [rotated]) (auto simp: with_world_def)
  with assms(2) show ?thesis by simp
next
  case (LuaGetPackets evs vs)
  with assms(1) have "get_packets L call evs vs st = (out, st1)" by (simp add: lua_call_def)
  with get_packets_new [OF assms(2), of L call evs vs] assms(2) show ?thesis by simp
next
  case (LuaElsewhere g)
  with assms show ?thesis by (auto simp: lua_call_def)
qed

lemma lua_calls_keep: "fst st = new_luaSpawner \<Longrightarrow> fst (lua_calls L ks seen crash call cs st) = new_luaSpawner"
  by (induction cs arbitrary: st) (auto dest: lua_call_keeps split: option.splits prod.split)

text \<open>
  Where the loop behind \<open>get_packets\<close> is reached, only the script's first answer counts: the answers
  stay on the stack, and the check reads the oldest one.
\<close>

lemma first_answer_decides:
  assumes "\<And>x xs. L_CheckBool L (x # xs) 1 = L_CheckBool L [x] 1" "L_CheckBool L [x] 1 = Inr False"
    and "ls_ctx (fst st) \<noteq> None" "packetDataToTable L d = Some tb" "call f tb st = (Inr answer, st1)"
  shows "callbackThread L call f (LuaPacket d # evs) (x # xs) st = callbackThread L call f evs (x # xs @ [answer]) st1"
proof -
  have "L_CheckBool L (x # xs @ [answer]) 1 = Inr False" using assms(1,2) by metis
  with assms(3-5) show ?thesis by (auto simp: Let_def)
qed

text \<open>C22: \<open>get_packets\<close> never works: whatever a script has called before, in whatever order, and whatever errors
  and Go panics it has caught, the fields of \<open>luaSpawner\<close> are still nil. So called with a function
  \<open>get_packets\<close> gives \<open>GetRecvChan\<close> a nil context and panics, which the script sees as an error, and otherwise it raises the error of its
  arguments; it changes nothing, makes no channel and never calls the function.\<close>

theorem get_packets_never_works:
  "let run = lua_calls L ks seen crash call cs (new_luaSpawner, w) in
     fst run = new_luaSpawner \<and>
     get_packets L call evs vs run =
       (Some (if length vs \<noteq> 1 then Raised (''Expected 1 arguments, got '' @ Sprintf_d (int (length vs)))
              else case L_CheckFunction L vs 1 of Inl m \<Rightarrow> Raised m | Inr f \<Rightarrow> GoPanic), run)"
  using lua_calls_keep [of "(new_luaSpawner, w)" L ks seen crash call cs]
  by (simp add: Let_def get_packets_new)

lemma get_packets_never_works_witness:
  "get_packets ex_lua (\<lambda>f tb st. (Inr (ExBool True), st)) [LuaCtxDone] [ExFun 0]
     (lua_calls ex_lua [0] (\<lambda>_. []) (\<lambda>w. w) (\<lambda>f tb st. (Inr (ExBool True), st))
        [LuaCall ''is_alive'' [], LuaGetPackets [LuaCtxDone] [ExFun 0]] (new_luaSpawner, ex_conn)) =
   (Some GoPanic, new_luaSpawner, ex_conn)"
  by (subst conjunct2 [OF get_packets_never_works [unfolded Let_def]])
    (simp add: ex_lua_def ex_arg_def lua_call_def protected_call_def luaSpawner_toTable_def addFunction_def with_world_def
      bindIsAlive_def get_packets_def bindSetCallback_def new_luaSpawner_def)

lemma quiet_send:
  "map_option snd (res \<bind> (\<lambda>(err, w1). Some (Pushed [], w1))) = map_option snd (lua_send res)"
  by (cases res) (auto simp: lua_send_def split: option.splits)

text \<open>\<open>inject_to_both\<close> does to the program exactly what \<open>inject_to_client\<close> does: it never sends to a
  server. Unlike it, it hides the errors of the senders, so its only errors are those of its
  arguments and of an unknown id.\<close>

theorem inject_to_both_only_clients:
  "map_option snd (bindInjectToBoth L ks vs w) = map_option snd (bindInjectToClient L ks vs w) \<and>
   (bindInjectToBoth L ks vs w = Some (Raised m, u) \<longrightarrow>
      inject_args L vs = Inl m \<or> (\<exists>i d err. inject_args L vs = Inr (i, d) \<and> GetProxy i w = Inl err \<and> m = err_Error err))"
  by (auto simp: bindInjectToBoth_def bindInjectToClient_def quiet_send Option.bind_eq_Some_conv split: sum.splits)

lemma inject_to_both_only_clients_witness:
  "map_option snd (bindInjectToBoth ex_lua [0] [ExNum 0, ExStr [7]] ex_conn) =
   map_option snd (bindInjectToClient ex_lua [0] [ExNum 0, ExStr [7]] ex_conn)"
  using inject_to_both_only_clients [of ex_lua "[0]" "[ExNum 0, ExStr [7]]" ex_conn] by (rule conjunct1)

text \<open>\<open>close(-2)\<close> closes the spawner and then always raises the timeout as a Lua error, once the
  pruner has run.\<close>

theorem lua_close_spawner_raises:
  assumes "reachable w" "w_pruner w \<noteq> PrunerNotRun" "L_CheckInt L vs 1 = Inr (- 2)"
    and "\<And>u. list_all (spawner_step\<^sup>*\<^sup>* u) (seen u)"
    and "bindClose L ks seen vs (ls, w) = Some (out, st)"
  shows "out = Raised ''timed out closing proxies'' \<and> \<not> IsAlive (snd st)"
proof -
  from assms(3,5) obtain w1 where close: "Close_start w = Some w1"
    and res: "out = (case Close_result (w1 # seen w1) of Some e \<Rightarrow> Raised (err_Error e) | None \<Rightarrow> Pushed [])"
    and st: "st = luaSpawner_Close (ls, last (w1 # seen w1))"
    by (auto simp: bindClose_def Let_def Option.bind_eq_Some_conv split: option.splits)
  have runs: "spawner_step\<^sup>*\<^sup>* w1 u" if "u \<in> set (w1 # seen w1)" for u
    using that assms(4) [of w1] by (auto simp: list_all_iff)
  have step: "spawner_step w w1" using close by (rule step_close)
  then have "ps_wg u \<noteq> 0" if "u \<in> set (w1 # seen w1)" for u
    using wait_group_stays_up [OF assms(1,2)] runs [OF that] by (meson converse_rtranclp_into_rtranclp)
  then have "Close_result (w1 # seen w1) = Some (ErrNew ''timed out closing proxies'')"
    by (auto simp: Close_result_def list_ex_iff)
  moreover have "\<not> IsAlive (snd st)"
  proof -
    have r1: "reachable w1" using assms(1) step by (rule reach_next)
    have "ps_context w1 < length (w_ctxs w1)"
      using sp.holds_when_reached [OF r1] by (simp add: sp_inv_def inv_ctx_def)
    then have dead: "Cause (w_ctxs w1) (ps_context w1) \<noteq> None"
      using close by (auto simp: Close_start_def Option.bind_eq_Some_conv Cause_cancel_cause split: option.splits)
    have "w_later w1 (last (w1 # seen w1))" using reachable_run [OF r1 runs] by simp
    moreover have "w_later (last (w1 # seen w1)) (snd st)" by (simp add: st luaSpawner_Close_def split: option.splits)
    ultimately have "w_later w1 (snd st)" by (rule w_later_trans)
    from w_laterD(1,2) [OF this] dead show ?thesis
      by (auto simp: IsAlive_def tables_later_def dest: ctx_le_dead)
  qed
  ultimately show ?thesis by (simp add: res)
qed

lemma lua_close_spawner_raises_witness:
  "\<exists>st. bindClose ex_lua [0] (\<lambda>_. []) [ExNum (- 2)] (new_luaSpawner, ex_pruning) =
     Some (Raised ''timed out closing proxies'', st)"
proof -
  have "ps_rcChan ex_pruning = []" by (simp add: ex_pruning_def pruner_begin_def ex_conn ex_new)
  then obtain out st where b: "bindClose ex_lua [0] (\<lambda>_. []) [ExNum (- 2)] (new_luaSpawner, ex_pruning) = Some (out, st)"
    by (fastforce simp: bindClose_def Close_start_def Let_def ex_lua_def ex_arg_def split: option.splits)
  have "L_CheckInt ex_lua [ExNum (- 2)] 1 = Inr (- 2)" by (simp add: ex_lua_def ex_arg_def)
  from lua_close_spawner_raises [OF ex_pruning_reachable _ this _ b] b show ?thesis
    by (simp add: ex_pruning_def pruner_begin_def)
qed

section \<open>Logging from a script\<close>

text \<open>The numbers a script gives to \<open>log\<close> are ordered as the levels are: a larger one is never dropped first.\<close>

lemma bindLog_monotone:
  assumes "bindLog L vs = Inr (lvl, m)" "bindLog L vs' = Inr (lvl', m')"
    and "L_CheckInt L vs 1 = Inr i" "L_CheckInt L vs' 1 = Inr j" "i \<le> j"
  shows "lvl \<le> lvl'"
proof -
  have "i = 0 \<and> lvl = LevelDebug \<or> i = 1 \<and> lvl = LevelInfo \<or> i = 2 \<and> lvl = LevelWarn \<or> i = 3 \<and> lvl = LevelError"
    using assms(1,3) by (auto simp: bindLog_def split: if_splits sum.splits)
  moreover have "j = 0 \<and> lvl' = LevelDebug \<or> j = 1 \<and> lvl' = LevelInfo \<or> j = 2 \<and> lvl' = LevelWarn \<or> j = 3 \<and> lvl' = LevelError"
    using assms(2,4) by (auto simp: bindLog_def split: if_splits sum.splits)
  ultimately show ?thesis using assms(5) by (auto simp: less_eq_slog_Level_def word_le_nat_alt)
qed

end
