(* ===== verification/Program.thy ===== *)
theory Program
  imports ProxyProps LuaRun
begin

text \<open>
  The two programs, \<open>main_no_lua.go\<close> and \<open>main_lua.go\<close>, with \<open>setupLogger\<close> and \<open>run\<close> of \<open>helpers.go\<close>:
  reading the configuration, setting up the spawner and the API, and waiting for the spawner's
  context. The main goroutine is modelled; a script runs in a goroutine of its own (\<open>luaBindings_run\<close>).
\<close>

section \<open>Logger and waiting\<close>

text \<open>\<open>setupLogger\<close> gives the level of the log; \<open>openFile\<close> is the error of opening it. A nil \<open>cfg\<close> panics.\<close>

definition setupLogger :: "err option \<Rightarrow> ConfigData option \<Rightarrow> slog_Level may_panic" where
  "setupLogger openFile cfg =
     (if openFile \<noteq> None then None
      else case cfg of None \<Rightarrow> None | Some c \<Rightarrow> LevelToSlog (cd_Logging_Level c))"

text \<open>
  \<open>run\<close> panics on a nil spawner and otherwise returns when its context ends. \<open>seen\<close> are the states
  of the spawner from then on; the result says whether \<open>run\<close> has returned by the last of them.
\<close>

definition run_program :: "'e world option \<Rightarrow> ('e world \<Rightarrow> 'e world list) \<Rightarrow> bool may_panic" where
  "run_program px seen =
     (case px of
        None \<Rightarrow> None
      | Some w \<Rightarrow> Some (list_ex (\<lambda>v. ctx_Err (w_ctxs v) (ps_context w) \<noteq> None) (w # seen w)))"

section \<open>The main functions\<close>

definition main_no_lua ::
  "err option \<Rightarrow> err + bytes \<Rightarrow> (bytes \<Rightarrow> err + ConfigData) \<Rightarrow> err + addr \<Rightarrow> (string \<Rightarrow> err + addr) \<Rightarrow>
   'e ProxyErrorCallback \<Rightarrow> ('e world \<Rightarrow> 'e world) \<Rightarrow> 'e \<Rightarrow> int \<Rightarrow> ('e world \<Rightarrow> 'e world list) \<Rightarrow> (slog_Level \<times> bool) may_panic"
where
  "main_no_lua openFile file unmarshal local resolve log early e now seen =
     do {
       level \<leftarrow> setupLogger openFile (loadCfg file unmarshal);
       cfg \<leftarrow> loadCfg file unmarshal;
       ps \<leftarrow> setupSpawnerAndApi local resolve log early cfg [] e now;
       returned \<leftarrow> run_program (map_option fst ps) seen;
       Some (level, returned)
     }"

text \<open>With Lua, the result also has the bindings that were started, if any were.\<close>

definition lua_mode :: "string \<Rightarrow> LuaRunModes option" where
  "lua_mode s = (if s = ''main'' then Some LuaRunMain else if s = ''callback'' then Some LuaRunCallback else None)"

definition main_lua ::
  "err option \<Rightarrow> err + bytes \<Rightarrow> (bytes \<Rightarrow> err + ConfigData) \<Rightarrow> err + addr \<Rightarrow> (string \<Rightarrow> err + addr) \<Rightarrow>
   'e ProxyErrorCallback \<Rightarrow> ('e world \<Rightarrow> 'e world) \<Rightarrow> 'e \<Rightarrow> int \<Rightarrow> ('e world \<Rightarrow> 'e world list) \<Rightarrow>
   (slog_Level \<times> luaBindings option \<times> bool) may_panic"
where
  "main_lua openFile file unmarshal local resolve log early e now seen =
     do {
       level \<leftarrow> setupLogger openFile (loadCfg file unmarshal);
       cfg \<leftarrow> loadCfg file unmarshal;
       ps \<leftarrow> setupSpawnerAndApi local resolve log early cfg [] e now;
       if cd_Lua_Enable cfg
       then (case lua_mode (cd_Lua_Mode cfg) of
               None \<Rightarrow> Some (level, None, True)
             | Some mode \<Rightarrow>
                 (let (err, bindings) = NewLuaBindingFromFile (cd_Lua_Path cfg) mode in
                  if err \<noteq> None then Some (level, None, True)
                  else do {
                    returned \<leftarrow> run_program (map_option fst ps) seen;
                    Some (level, Some bindings, returned)
                  }))
       else do { returned \<leftarrow> run_program (map_option fst ps) seen; Some (level, None, returned) }
     }"

section \<open>What it takes to start\<close>

lemma LevelToSlog_known:
  "LevelToSlog l \<noteq> None \<longleftrightarrow> l \<in> {''debug'', ''info'', ''warn'', ''error''}"
  by (simp add: LevelToSlog_def)

lemma setup_api_iff:
  "(\<exists>r. setup_api local cfg ps = Some (Some r)) \<longleftrightarrow>
   \<not> cd_Api_Enable cfg \<or> ConfigAddress_ToString local (cd_Api_Address cfg) \<noteq> None"
proof -
  obtain a \<rho> where a: "NewWebApi (cd_Api_UseAuth cfg) (w_ctxs ps) = (a, \<rho>)" by fastforce
  from NewWebApi_result [OF this] show ?thesis
    unfolding setup_api_def a
    by (cases "ConfigAddress_ToString local (cd_Api_Address cfg)")
      (auto simp: AddAuth_def addKey_def addKeyInt_def bind_res_def Let_def)
qed

text \<open>
  The configured addresses make sense, and the spawner between them is still alive when the constructor looks:
  no listener has failed that early.
\<close>

definition starts_ok ::
  "err + addr \<Rightarrow> (string \<Rightarrow> err + addr) \<Rightarrow> ('e world \<Rightarrow> 'e world) \<Rightarrow> ConfigData \<Rightarrow> 'e \<Rightarrow> int \<Rightarrow> bool"
where
  "starts_ok local resolve early cfg e now \<longleftrightarrow>
     (\<exists>p s px sv. ConfigAddress_ToString local (cd_ProxyAddress cfg) = Some p \<and> resolve p = Inr px \<and>
        ConfigAddress_ToString local (cd_ServerAddress cfg) = Some s \<and> resolve s = Inr sv \<and>
        (addr_Network sv, addr_String sv) \<noteq> (addr_Network px, addr_String px) \<and>
        (let (ctx, \<tau>) = WithCancelCause None [] in IsAlive (early (new_spawner sv px (Some ctx) \<tau> e now)))) \<and>
     (\<not> cd_Api_Enable cfg \<or> ConfigAddress_ToString local (cd_Api_Address cfg) \<noteq> None)"

lemma new_spawner_iff:
  "(\<exists>ps. NewProxySpawnerWithContainer sv px (Some ctx) 2 early \<tau> e now = Inr ps) \<longleftrightarrow>
    (addr_Network sv, addr_String sv) \<noteq> (addr_Network px, addr_String px) \<and>
    IsAlive (early (new_spawner sv px (Some ctx) \<tau> e now))"
  by (auto simp: constructor_Inr IsAlive_def)

lemma setup_iff:
  "(\<exists>r. setupSpawnerAndApi local resolve log early cfg [] e now = Some (Some r)) \<longleftrightarrow> starts_ok local resolve early cfg e now"
proof -
  obtain ctx \<tau> where new: "WithCancelCause None [] = (ctx, \<tau>)" by fastforce
  show ?thesis
  proof (cases "\<exists>p s px sv. ConfigAddress_ToString local (cd_ProxyAddress cfg) = Some p \<and> resolve p = Inr px \<and>
      ConfigAddress_ToString local (cd_ServerAddress cfg) = Some s \<and> resolve s = Inr sv")
    case False
    then show ?thesis
      by (cases "ConfigAddress_ToString local (cd_ProxyAddress cfg)"; cases "ConfigAddress_ToString local (cd_ServerAddress cfg)")
        (auto simp: setupSpawnerAndApi_def starts_ok_def split: sum.splits)
  next
    case True
    then obtain p s px sv where a: "ConfigAddress_ToString local (cd_ProxyAddress cfg) = Some p" "resolve p = Inr px"
        "ConfigAddress_ToString local (cd_ServerAddress cfg) = Some s" "resolve s = Inr sv" by blast
    then have ok: "starts_ok local resolve early cfg e now \<longleftrightarrow>
        ((addr_Network sv, addr_String sv) \<noteq> (addr_Network px, addr_String px) \<and>
         IsAlive (early (new_spawner sv px (Some ctx) \<tau> e now))) \<and>
        (\<not> cd_Api_Enable cfg \<or> ConfigAddress_ToString local (cd_Api_Address cfg) \<noteq> None)"
      by (auto simp: starts_ok_def new)
    show ?thesis
    proof (cases "NewProxySpawnerWithContainer sv px (Some ctx) 2 early \<tau> e now")
      case (Inl err)
      with new_spawner_iff [of sv px ctx early \<tau> e now] a ok new show ?thesis by (auto simp: setupSpawnerAndApi_def)
    next
      case (Inr ps)
      have "setupSpawnerAndApi local resolve log early cfg [] e now = setup_api local cfg (SetErrorCallback (Some log) ps)"
        using a new Inr by (simp add: setupSpawnerAndApi_def)
      then show ?thesis
        unfolding ok using new_spawner_iff [of sv px ctx early \<tau> e now] Inr by (simp only: setup_api_iff) blast
    qed
  qed
qed

text \<open>The log opens, and the file is read and decoded and names a known level and satisfies \<open>ok\<close>.\<close>

definition config_read ::
  "err option \<Rightarrow> err + bytes \<Rightarrow> (bytes \<Rightarrow> err + ConfigData) \<Rightarrow> (ConfigData \<Rightarrow> bool) \<Rightarrow> bool"
where
  "config_read openFile file unmarshal ok \<longleftrightarrow> openFile = None \<and>
     (\<exists>data cfg. file = Inr data \<and> unmarshal data = Inr cfg \<and>
        cd_Logging_Level cfg \<in> {''debug'', ''info'', ''warn'', ''error''} \<and> ok cfg)"

text \<open>The two programs in terms of the setup, for a configuration that is read.\<close>

lemma main_no_lua_iff:
  assumes "loadCfg file unmarshal = Some cfg"
  shows "main_no_lua openFile file unmarshal local resolve log early e now seen \<noteq> None \<longleftrightarrow>
     openFile = None \<and> LevelToSlog (cd_Logging_Level cfg) \<noteq> None \<and> starts_ok local resolve early cfg e now"
  unfolding setup_iff [symmetric, of local resolve early cfg e now log]
  by (cases "LevelToSlog (cd_Logging_Level cfg)"; cases "setupSpawnerAndApi local resolve log early cfg [] e now")
    (auto simp: main_no_lua_def setupLogger_def run_program_def assms split: option.splits)

lemma main_lua_iff:
  assumes "loadCfg file unmarshal = Some cfg"
  shows "main_lua openFile file unmarshal local resolve log early e now seen \<noteq> None \<longleftrightarrow>
     openFile = None \<and> LevelToSlog (cd_Logging_Level cfg) \<noteq> None \<and>
     (if cd_Lua_Enable cfg \<and> lua_mode (cd_Lua_Mode cfg) = None
      then setupSpawnerAndApi local resolve log early cfg [] e now \<noteq> None
      else starts_ok local resolve early cfg e now)"
  unfolding setup_iff [symmetric, of local resolve early cfg e now log]
  by (cases "LevelToSlog (cd_Logging_Level cfg)"; cases "setupSpawnerAndApi local resolve log early cfg [] e now")
    (auto simp: main_lua_def setupLogger_def run_program_def NewLuaBindingFromFile_def assms split: option.splits)

text \<open>C23: The program starts exactly if the log opens, the configuration is read and decoded and names a
  known log level, its addresses can be written out and resolved, the server's and the proxy's
  differ, no listener fails before the constructor of the spawner returns, and the API's address can
  be written out; the check for an empty configuration rejects nothing more. Anything else ends in a panic
  of the main goroutine, also where the setup reports its error and gives up: nobody checks for its nil.
  The program with Lua differs only if Lua is enabled with an unknown mode: then it returns without having used
  the spawner, and panics only where the setup itself does.\<close>

theorem main_starts_iff:
  "(main_no_lua openFile file unmarshal local resolve log early e now seen \<noteq> None \<longleftrightarrow>
       config_read openFile file unmarshal (\<lambda>cfg. starts_ok local resolve early cfg e now)) \<and>
     (main_lua openFile file unmarshal local resolve log early e now seen \<noteq> None \<longleftrightarrow>
       config_read openFile file unmarshal (\<lambda>cfg. if cd_Lua_Enable cfg \<and> cd_Lua_Mode cfg \<notin> {''main'', ''callback''}
         then setupSpawnerAndApi local resolve log early cfg [] e now \<noteq> None
         else starts_ok local resolve early cfg e now))"
proof (cases "loadCfg file unmarshal")
  case None
  then show ?thesis
    by (auto simp: config_read_def main_no_lua_def main_lua_def setupLogger_def loadCfg_def ConfigData_IsEmpty_def
        split: sum.splits if_splits)
next
  case (Some cfg)
  then have c: "config_read openFile file unmarshal ok \<longleftrightarrow> openFile = None \<and> LevelToSlog (cd_Logging_Level cfg) \<noteq> None \<and> ok cfg" for ok
    unfolding LevelToSlog_known by (auto simp: config_read_def loadCfg_def split: sum.splits if_splits)
  show ?thesis unfolding c main_no_lua_iff [OF Some] main_lua_iff [OF Some] by (simp add: lua_mode_def)
qed

definition ex_warn_cfg :: ConfigData where
  "ex_warn_cfg = ex_live_cfg\<lparr>cd_Logging_Level := ''warn'', cd_Lua_Enable := True, cd_Lua_Mode := ''script''\<rparr>"

abbreviation ex_resolve :: "string \<Rightarrow> err + addr" where
  "ex_resolve s \<equiv> Inr (if hd s = CHR ''p'' then ex_proxy else ex_server)"

lemma main_starts_iff_witness:
  "main_no_lua None (Inr []) (\<lambda>_. Inr ex_warn_cfg) (Inl IoEOF) ex_resolve (\<lambda>_ _ x :: unit ext. x) (\<lambda>w. w) () 0 (\<lambda>_. []) \<noteq> None \<and>
   main_no_lua None (Inr []) (\<lambda>_. Inr ex_warn_cfg) (Inl IoEOF) ex_resolve (\<lambda>_ _ x :: unit ext. x) (w_cancel 1 None) () 0 (\<lambda>_. []) = None"
proof (rule conjI)
  note defs = config_read_def ex_warn_cfg_def ex_live_cfg_def starts_ok_def ConfigAddress_ToString_def ex_addrs
    new_spawner_def WithCancelCause_def IsAlive_def
  show "main_no_lua None (Inr []) (\<lambda>_. Inr ex_warn_cfg) (Inl IoEOF) ex_resolve (\<lambda>_ _ x :: unit ext. x) (\<lambda>w. w) () 0 (\<lambda>_. []) \<noteq> None"
    unfolding conjunct1 [OF main_starts_iff] by (simp add: defs Cause_def)
  have "\<not> main_no_lua None (Inr []) (\<lambda>_. Inr ex_warn_cfg) (Inl IoEOF) ex_resolve (\<lambda>_ _ x :: unit ext. x) (w_cancel 1 None) () 0 (\<lambda>_. []) \<noteq> None"
    unfolding conjunct1 [OF main_starts_iff] by (simp add: defs Cause_cancel_cause split: option.splits)
  then show "main_no_lua None (Inr []) (\<lambda>_. Inr ex_warn_cfg) (Inl IoEOF) ex_resolve (\<lambda>_ _ x :: unit ext. x) (w_cancel 1 None) () 0 (\<lambda>_. []) = None"
    by (rule notnotD)
qed

text \<open>With Lua compiled in, the program does the same unless the configuration enables Lua with a mode
  other than the two known ones: then it returns at once, with the spawner and the API running.\<close>

theorem main_lua_result:
  assumes "main_no_lua openFile file unmarshal local resolve log early e now seen = Some (level, returned)"
    and "loadCfg file unmarshal = Some cfg"
  shows "main_lua openFile file unmarshal local resolve log early e now seen =
     Some (level,
       if \<not> cd_Lua_Enable cfg then (None, returned)
       else case lua_mode (cd_Lua_Mode cfg) of
         None \<Rightarrow> (None, True)
       | Some mode \<Rightarrow> (Some \<lparr>lb_spawner = new_luaSpawner, lb_executionMode = mode, lb_path = cd_Lua_Path cfg\<rparr>, returned))"
  using assms
  by (auto simp: main_lua_def main_no_lua_def NewLuaBindingFromFile_def Option.bind_eq_Some_conv split: option.splits)

lemma main_lua_result_witness:
  "\<exists>level. main_lua None (Inr []) (\<lambda>_. Inr ex_warn_cfg) (Inl IoEOF) ex_resolve (\<lambda>_ _ x :: unit ext. x) (\<lambda>w. w) () 0 (\<lambda>_. []) =
     Some (level, None, True)"
proof -
  let ?main = "main_no_lua None (Inr []) (\<lambda>_. Inr ex_warn_cfg) (Inl IoEOF) ex_resolve (\<lambda>_ _ x :: unit ext. x) (\<lambda>w. w) () 0 (\<lambda>_. [])"
  have load: "loadCfg (Inr []) (\<lambda>_. Inr ex_warn_cfg) = Some ex_warn_cfg"
    by (simp add: loadCfg_def ex_warn_cfg_def ex_live_cfg_def ConfigData_IsEmpty_def)
  have level: "LevelToSlog (cd_Logging_Level ex_warn_cfg) = Some LevelWarn" by (simp add: ex_warn_cfg_def LevelToSlog_def)
  have "\<exists>r. setupSpawnerAndApi (Inl IoEOF) ex_resolve (\<lambda>_ _ x :: unit ext. x) (\<lambda>w. w) ex_warn_cfg [] () 0 = Some (Some r)"
    unfolding setup_iff
    by (auto simp: ex_warn_cfg_def ex_live_cfg_def starts_ok_def ConfigAddress_ToString_def ex_addrs new_spawner_def
        WithCancelCause_def IsAlive_def Cause_def)
  then obtain level returned where m: "?main = Some (level, returned)"
    by (auto simp: main_no_lua_def setupLogger_def load run_program_def level)
  have "cd_Lua_Enable ex_warn_cfg" "cd_Lua_Mode ex_warn_cfg = ''script''" by (simp_all add: ex_warn_cfg_def)
  with main_lua_result [OF m load] show ?thesis by (simp add: lua_mode_def)
qed

end
