(* ===== verification/Spec2Isabelle.thy ===== *)
theory Spec2Isabelle
  imports LifecycleProps ProxyProps WsLoops Interleave ConnSpec Forwarding Accepting LuaProps Program
begin

text \<open>
  A model of EzProxy, with the theorems that say how far it works.

  \<^bold>\<open>The program.\<close> EzProxy listens on one address and, for each client that comes, keeps a connection to
  one server, passing packets both ways. The proxy spawner (package \<open>handler\<close>) owns the table of
  connections; around each connection there is a container, which reads the packets of an \<open>IProxy\<close>
  (package \<open>proxy\<close>: TCP or UDP) and asks the spawner for each of them whether it may pass. The
  spawner asks a filter callback, and copies packets that pass to receive channels. Users of the
  spawner (HTTP endpoints and web sockets of package \<open>api\<close>, scripts through package \<open>ezp_lua\<close>) inject
  packets, close connections, install the filter, and read receive channels. The end of things
  is passed on through contexts: a tree, with the spawner's context above those of its containers.

  \<^bold>\<open>The state\<close> is one record, \<open>world\<close> (theory Handler): the fields of \<open>ProxySpawner\<close>, and the heap it
  points into (context store, containers, receive channels, clock, wait group). Pointers are
  numbers. Operations are functions on it; \<open>None\<close> is a panic, which ends the process, and a Go error
  is a value. Integers have Go's width. Whatever the program uses and does not contain (sockets,
  JSON and YAML decoding, the random source, the Lua interpreter, address resolution) is an argument;
  code that is handed a context may extend the tree and cancel nodes, and do input and output of its
  own (\<open>ext_respects\<close>).

  \<^bold>\<open>The theories\<close>, in the order in which they build on each other:

  \<^item> Prelude: integers, panics, reachability; the locales \<open>inductive_invariant\<close> and \<open>simulation\<close>.
  \<^item> GoContext: Go's errors (with \<open>handler/errors.go\<close>) and package \<open>context\<close>; the locale \<open>cancellation\<close>.
  \<^item> Handler, Container, Spawner, Listener: \<open>handler/flags.go\<close>, \<open>interfaces.go\<close>, \<open>proxy.go\<close> and
    \<open>spawner.go\<close>. A container sees the spawner through the locale \<open>IProxySpawner_contract\<close>, the spawner
    sees the maker of containers through \<open>CreateIProxyContainer_contract\<close>; both are interpreted on the
    model's own functions.
  \<^item> SpawnerFacts, SpawnerInv, SpawnerRuns: the behaviour of each operation on every branch; the
    invariant \<open>sp_inv\<close> and the relation \<open>spawner_step\<close>, one rule per operation or goroutine, in any order;
    what no run ever takes back (\<open>w_later\<close>).
  \<^item> ConnSpec: a small specification of the table of connections, refined by the spawner.
  \<^item> Interleave: \<open>HandleSend\<close> and \<open>Close\<close> statement by statement. Alone they are the atomic operations; two
    of them interleaved can panic.
  \<^item> Strconv, Auth, Endpoints, Websocket, Api: number parsing of the standard library, \<open>api/auth.go\<close>,
    \<open>util.go\<close>, \<open>endpoints.go\<close>, \<open>websocket.go\<close>, \<open>ws_client.go\<close> and \<open>api.go\<close>. The key table has the contract
    \<open>key_store\<close>.
  \<^item> WsFilter, WsLoops: a socket's filter as a system of waiting senders and one reader, and the loops
    \<open>recv\<close> and \<open>listen\<close> over their events.
  \<^item> Proxy: \<open>proxy/tcp.go\<close>, \<open>udp.go\<close>, \<open>util.go\<close> over the results of reads, accepts and dials.
  \<^item> Forwarding: a TCP proxy, its container and the spawner put together, from the reads to the writes.
    Accepting: the two listeners as parts of the spawner's runs.
  \<^item> LuaBindings, LuaSpawner, LuaRun: \<open>ezp_lua/proxy.go\<close> with \<open>util.go\<close>, \<open>spawner.go\<close>, and \<open>callback.go\<close> with
    \<open>binding.go\<close>. The interpreter's values are a type parameter, its checks and constructors the record
    \<open>lua_lib\<close>, and a call into the script an argument.
  \<^item> Helpers, Program: \<open>helpers.go\<close>, \<open>main_no_lua.go\<close> and \<open>main_lua.go\<close>.
  \<^item> Examples: concrete reachable states, on which the properties are exercised; SpawnerProps,
    LifecycleProps, EndpointProps, WsProps, ApiProps, ProxyProps, LuaProps: the properties.

  \<^bold>\<open>What is shown.\<close> Over all reachable states and all runs: the invariant; that no send panics as long as
  operations do not interleave; what a filter and the receive channels get to see; that connection
  ids are fresh and never reused; how connections, listeners and the spawner end; the byte
  counters with their wrap-around. For the API: who may do what, that no key makes a stronger one,
  that the authority of all keys never grows,
  how a socket's verdicts come about. For the proxies: that what is read
  on one side is written on the other, in order and completely until the reader stops, and that the listeners keep the invariant. For
  scripts: what a failing script does to the traffic, how callback mode ends. For the program: exactly
  when it starts. Where the code does not do what it should, the theorem says what it
  does: the pruner's index panic, the wait group that never empties, the second \<open>Close\<close>, the races of
  Interleave, lost and late filter replies, the flood of a closed channel, \<open>get_packets\<close>, \<open>inject_to_both\<close>.

  \<^bold>\<open>Bounds.\<close> Connection ids are handed out while \<open>ps_currentId\<close> is not the last 64-bit word, that is for the
  first \<open>2^64 - 1\<close> connections (\<open>step_add\<close>). \<open>addListener\<close> stops by itself after four runs, the search for a
  fresh key after 1000 tries, as in the code. Loops that may run for ever are functions of the list
  of events they see, so every finite prefix of a run is covered, and the result says whether the loop
  has returned.

  \<^bold>\<open>Atomicity.\<close> Outside Interleave an operation is one step. This is what the mutexes of the code give,
  with these exceptions: \<open>HandleSend\<close> and \<open>Close\<close> (see Interleave), and \<open>AddConnection\<close>, which publishes the
  connection before \<open>wg.Add\<close>. A filter callback that is stored in the state does not call the spawner's operations from inside;
  it acts on contexts and on its own state, as the filter of a web socket does. The filter of a script may use
  the spawner while it decides, and is called by \<open>HandleSend_script\<close> (theory LuaRun): \<open>HandleSend\<close> with a function on the whole
  state in the place of the callback, for which the state holds a stand-in. Called while \<open>SendToAllClients\<close> holds its lock, a script that
  injects would wait for that lock for ever; locks that are held too long are not part of the model. What
  the listeners do before the constructor of the spawner has returned is an argument of it (\<open>early\<close>); every
  spawner it can return is reachable (\<open>constructor_reachable\<close>).

  \<^bold>\<open>Panics under Lua.\<close> A Go panic in a function that a script calls is caught by the protected call in which the script
  runs and becomes a Lua error; so the calls of a script (\<open>lua_calls\<close>) go on after it, from a state about which
  nothing is assumed where the panic left an operation in the middle. In a goroutine of the bindings outside such a call
  a panic ends the process as anywhere else.

  \<^bold>\<open>Not modelled.\<close> Log messages; the bytes of JSON; the HTTP server and its start;
  sockets themselves; \<open>getLocalIp\<close>; locks as such (also one that a panic caught by Lua leaves locked). The generated
  mocks, the unit tests, the integration test program (\<open>main_integration.go\<close>, package \<open>integration\<close>), which
  is a test client and an echo server, and the Python tools are not part of the model.
\<close>

end
